theory Spec2Isabelle
  imports Complex_Main "HOL-Library.AList" "HOL-Library.Char_ord" "HOL-Library.List_Lexorder"
    "HOL-Library.Option_ord" "HOL-Library.Product_Lexorder"
begin

section \<open>The comma-escaped list encoding\<close>

text \<open>
  The fileset query aggregates the filenames of a list field with
  \<^verbatim>\<open>GROUP_CONCAT(REPLACE(REPLACE(filename, '\','\\'), ',', '\,'), ',')\<close>
  and \<open>parse_comma_escape\<close> reads the aggregate back. Strings are character lists;
  the backslash is \<open>CHR 0x5C\<close>.
\<close>

definition backslash :: char where
  "backslash = CHR 0x5C"

definition comma :: char where
  "comma = CHR '',''"

text \<open>SQL \<open>REPLACE(X, Y, Z)\<close> for a pattern \<open>Y\<close> of one character.\<close>

definition sql_replace :: "string \<Rightarrow> char \<Rightarrow> string \<Rightarrow> string" where
  "sql_replace x y z = concat (map (\<lambda>c. if c = y then z else [c]) x)"

definition sql_escape :: "string \<Rightarrow> string" where
  "sql_escape name = sql_replace (sql_replace name backslash [backslash, backslash]) comma [backslash, comma]"

text \<open>SQL \<open>GROUP_CONCAT(X, ',')\<close> over the values of one group, which has at least one row.\<close>

fun group_concat :: "string list \<Rightarrow> string" where
  "group_concat [] = []"
| "group_concat [x] = x"
| "group_concat (x # y # ys) = x @ [comma] @ group_concat (y # ys)"

definition concat_with_escape :: "string list \<Rightarrow> string" where
  "concat_with_escape names = group_concat (map sql_escape names)"

text \<open>
  The loop of \<open>parse_comma_escape\<close>: \<open>output_strings\<close> (never empty), \<open>last_character\<close>
  (\<open>None\<close> for the initial empty string) and the characters still to read.
\<close>

fun parse_loop :: "string list \<Rightarrow> char option \<Rightarrow> string \<Rightarrow> string list" where
  "parse_loop output_strings last_character [] = output_strings"
| "parse_loop output_strings last_character (character # rest) =
     (if character = comma \<and> last_character \<noteq> Some backslash
      then parse_loop (output_strings @ [[]]) (Some character) rest
      else if character = backslash \<and> last_character \<noteq> Some backslash
      then parse_loop output_strings (Some character) rest
      else parse_loop (butlast output_strings @ [last output_strings @ [character]])
             (Some character) rest)"

definition parse_comma_escape :: "string \<Rightarrow> string list" where
  "parse_comma_escape input_string = parse_loop [[]] None input_string"

section \<open>The staleness test\<close>

text \<open>
  The file system is outside the program. A disk state has an arbitrary type \<open>'fs\<close> and the
  calls of \<open>os\<close> and \<open>os.path\<close> that the scheduler makes are the fields of a record.
  Modification times are Python floats that are only compared, so they are real numbers.
\<close>

record 'fs os_iface =
  os_path_exists :: "'fs \<Rightarrow> string \<Rightarrow> bool"
  os_path_isdir :: "'fs \<Rightarrow> string \<Rightarrow> bool"
  os_listdir :: "'fs \<Rightarrow> string \<Rightarrow> string list"
  os_path_getmtime :: "'fs \<Rightarrow> string \<Rightarrow> real"
  os_path_join :: "string \<Rightarrow> string \<Rightarrow> string"
  os_path_dirname :: "string \<Rightarrow> string"
  os_makedirs :: "string \<Rightarrow> 'fs \<Rightarrow> 'fs option"

text \<open>\<open>sys.float_info.max\<close>, the largest finite double.\<close>

definition float_info_max :: real where
  "float_info_max = 2 ^ 1024 - 2 ^ 971"

fun all_files_exist :: "'fs os_iface \<Rightarrow> 'fs \<Rightarrow> string list \<Rightarrow> bool" where
  "all_files_exist os fs [] = True"
| "all_files_exist os fs (file # files) =
     (if \<not> os_path_exists os fs file then False else all_files_exist os fs files)"

text \<open>
  The loop of \<open>get_aggregated_modified_time\<close> walks a list that it appends to: the paths
  not yet visited are a queue, and the children of a directory go to its end. On a
  directory structure that never ends the loop does not return (\<open>None\<close>).
\<close>

partial_function (option) collect_times ::
  "'fs os_iface \<Rightarrow> 'fs \<Rightarrow> real \<Rightarrow> string list \<Rightarrow> real list \<Rightarrow> real list option" where
  "collect_times os fs default_time path_list time_list =
     (case path_list of
        [] \<Rightarrow> Some time_list
      | path # rest \<Rightarrow>
          if \<not> os_path_exists os fs path
          then collect_times os fs default_time rest (time_list @ [default_time])
          else if os_path_isdir os fs path
          then collect_times os fs default_time
                 (rest @ map (os_path_join os path) (os_listdir os fs path)) time_list
          else collect_times os fs default_time rest (time_list @ [os_path_getmtime os fs path]))"

declare collect_times.simps [code]

text \<open>Python's \<open>max\<close> and \<open>min\<close> of a non-empty list.\<close>

definition py_max :: "real list \<Rightarrow> real" where
  "py_max xs = foldl max (hd xs) (tl xs)"

definition py_min :: "real list \<Rightarrow> real" where
  "py_min xs = foldl min (hd xs) (tl xs)"

definition get_aggregated_modified_time ::
  "'fs os_iface \<Rightarrow> 'fs \<Rightarrow> string list \<Rightarrow> (real list \<Rightarrow> real) \<Rightarrow> real \<Rightarrow> real option" where
  "get_aggregated_modified_time os fs path_list aggregator default_time =
     (case collect_times os fs default_time path_list [] of
        None \<Rightarrow> None
      | Some time_list \<Rightarrow> Some (if length time_list = 0 then default_time else aggregator time_list))"

definition get_newest_modified_time :: "'fs os_iface \<Rightarrow> 'fs \<Rightarrow> string list \<Rightarrow> real option" where
  "get_newest_modified_time os fs path_list =
     get_aggregated_modified_time os fs path_list py_max float_info_max"

definition get_oldest_modified_time :: "'fs os_iface \<Rightarrow> 'fs \<Rightarrow> string list \<Rightarrow> real option" where
  "get_oldest_modified_time os fs path_list =
     get_aggregated_modified_time os fs path_list py_min 0"

section \<open>Producers, creators and the scheduler's state\<close>

text \<open>
  A dictionary whose order of iteration matters is an association list with one entry for
  each key. The value of a capture group is \<open>None\<close> where the group took no part in the
  match (Python's \<open>None\<close>, SQL's \<open>NULL\<close>).
\<close>

type_synonym groupdict = "(string \<times> string option) list"

text \<open>
  \<open>CreatorIndexType\<close> is the producer's index and \<open>get_hashable_matchgroups\<close> of the
  capture groups. \<open>json.dumps\<close> with \<open>sort_keys=True\<close> prints the items of the
  dictionary in the order of their keys and is injective, so the JSON text is represented
  by the key-sorted item list that it prints.
\<close>

type_synonym CreatorIndexType = "nat \<times> groupdict"

definition get_hashable_matchgroups :: "groupdict \<Rightarrow> groupdict" where
  "get_hashable_matchgroups groups = sort_key fst groups"

text \<open>
  Modelled from the spec: the class \<open>Creator\<close> (module \<open>creator\<close>, not among the sources).
  A creator holds its resolved input and output paths, here as the lists that
  \<open>flat_input_paths()\<close> and \<open>flat_output_paths()\<close> return, and the build action,
  which \<open>run()\<close> invokes without arguments; the action changes the disk or raises
  (\<open>None\<close>).
\<close>

record 'fs creator =
  flat_input_paths :: "string list"
  flat_output_paths :: "string list"
  creator_function :: "'fs \<Rightarrow> 'fs option"

text \<open>The value of one field of \<open>new_element\<close>: a path or a list of paths.\<close>

datatype field_value = PathValue string | ListValue "string list"

text \<open>
  The declared shape of a field in \<open>input_path_patterns_dict()\<close>: a string, a list, or
  anything else (for which the code raises \<open>TypeError\<close>).
\<close>

datatype pattern = StrPattern string | ListPattern "string list" | OtherPattern

text \<open>
  Modelled from the spec: the class \<open>GenericProducer\<close> (module \<open>producer\<close>, not among the
  sources), as the interface that the scheduler calls. A compiled regex is the function
  that \<open>re.match(pattern, path)\<close> computes: \<open>None\<close> for no match, else the
  \<open>groupdict()\<close>. \<open>paths\<close> is the user hook composed with the creator's flattening.
\<close>

record 'fs producer =
  regex_field_patterns :: "(string \<times> (string \<Rightarrow> groupdict option)) list"
  get_field_id :: "string \<Rightarrow> string"
  get_match_group_id :: "string \<Rightarrow> string"
  get_match_groups :: "string \<Rightarrow> string list"
  get_all_match_groups :: "string list"
  input_path_patterns_dict :: "(string \<times> pattern) list"
  paths :: "(string \<times> field_value) list \<Rightarrow> groupdict \<Rightarrow> string list \<times> string list"
  producer_function :: "string list \<Rightarrow> string list \<Rightarrow> 'fs \<Rightarrow> 'fs option"

text \<open>A row of a field table, and a table: its capture-group columns and its rows.\<close>

record row =
  filename :: string
  is_updated :: int
  group_values :: "(string \<times> string option) list"

record table =
  columns :: "string list"
  rows :: "row list"

type_synonym database = "string \<rightharpoonup> table"

text \<open>
  The exceptions of the scheduler. \<open>DuplicateOutput\<close> is the \<open>ValueError\<close> of the
  duplicate-output check with the two creators of its message. The others carry no data:
  \<open>SanityMismatch\<close> is the \<open>ValueError\<close> of the sanity check in \<open>delete_creator\<close>,
  \<open>OperationalError\<close> and \<open>IntegrityError\<close> come from SQLite, \<open>ActionFailure\<close> is
  whatever a build action raises.
\<close>

datatype failure =
    SanityMismatch
  | KeyError
  | TypeError
  | OperationalError
  | IntegrityError
  | ActionFailure
  | OSError

datatype 'fs error =
    DuplicateOutput "'fs creator" "'fs creator"
  | Failed failure

text \<open>
  A Python set of creator indexes is a list without repetitions, in the order of insertion
  (Python leaves the order in which a set is iterated open).
\<close>

record 'fs scheduler =
  producer_list :: "'fs producer list"
  creator_list :: "CreatorIndexType \<rightharpoonup> 'fs creator"
  output_file_maps :: "string \<rightharpoonup> CreatorIndexType"
  input_file_maps :: "string \<rightharpoonup> CreatorIndexType list"
  filecache :: database

text \<open>
  A method that mutates the scheduler returns the exception it raised, if any, and the
  state at that moment: the object stays as the raise leaves it.
\<close>

type_synonym 'fs outcome = "'fs error option \<times> 'fs scheduler"

section \<open>The creator graph\<close>

text \<open>The first loop of \<open>delete_creator\<close>, over the creator's output files.\<close>

fun delete_output_files ::
  "CreatorIndexType \<Rightarrow> string list \<Rightarrow> (string \<rightharpoonup> CreatorIndexType) \<Rightarrow>
     failure option \<times> (string \<rightharpoonup> CreatorIndexType)" where
  "delete_output_files creator_index [] ofm = (None, ofm)"
| "delete_output_files creator_index (output_file # files) ofm =
     (case ofm output_file of
        None \<Rightarrow> (Some KeyError, ofm)
      | Some output_file_creator_index \<Rightarrow>
          if output_file_creator_index \<noteq> creator_index then (Some SanityMismatch, ofm)
          else delete_output_files creator_index files (ofm(output_file := None)))"

text \<open>The second loop of \<open>delete_creator\<close>, over the creator's input files.\<close>

fun delete_input_files ::
  "CreatorIndexType \<Rightarrow> string list \<Rightarrow> (string \<rightharpoonup> CreatorIndexType list) \<Rightarrow>
     failure option \<times> (string \<rightharpoonup> CreatorIndexType list)" where
  "delete_input_files creator_index [] ifm = (None, ifm)"
| "delete_input_files creator_index (input_file # files) ifm =
     (case ifm input_file of
        None \<Rightarrow> (Some KeyError, ifm)
      | Some consumers \<Rightarrow>
          if creator_index \<notin> set consumers then (Some KeyError, ifm)
          else if length (removeAll creator_index consumers) = 0
          then delete_input_files creator_index files (ifm(input_file := None))
          else delete_input_files creator_index files
                 (ifm(input_file \<mapsto> removeAll creator_index consumers)))"

definition delete_creator :: "CreatorIndexType \<Rightarrow> 'fs scheduler \<Rightarrow> 'fs outcome" where
  "delete_creator creator_index s =
     (case creator_list s creator_index of
        None \<Rightarrow> (Some (Failed KeyError), s)
      | Some creator \<Rightarrow>
          (case delete_output_files creator_index (flat_output_paths creator) (output_file_maps s) of
             (Some e, ofm) \<Rightarrow> (Some (Failed e), s\<lparr>output_file_maps := ofm\<rparr>)
           | (None, ofm) \<Rightarrow>
               (case delete_input_files creator_index (flat_input_paths creator) (input_file_maps s) of
                  (Some e, ifm) \<Rightarrow>
                    (Some (Failed e), s\<lparr>output_file_maps := ofm, input_file_maps := ifm\<rparr>)
                | (None, ifm) \<Rightarrow>
                    (None, s\<lparr>output_file_maps := ofm, input_file_maps := ifm,
                              creator_list := (creator_list s)(creator_index := None)\<rparr>))))"

fun delete_creators :: "CreatorIndexType list \<Rightarrow> 'fs scheduler \<Rightarrow> 'fs outcome" where
  "delete_creators [] s = (None, s)"
| "delete_creators (creator_index # rest) s =
     (case delete_creator creator_index s of
        (Some e, s') \<Rightarrow> (Some e, s')
      | (None, s') \<Rightarrow> delete_creators rest s')"

text \<open>The set \<open>creator_indexes_to_delete\<close> of \<open>delete_creators_with_input_files\<close>.\<close>

definition creators_consuming :: "'fs scheduler \<Rightarrow> string list \<Rightarrow> CreatorIndexType list" where
  "creators_consuming s files =
     remdups (concat (map (\<lambda>file. case input_file_maps s file of None \<Rightarrow> [] | Some cs \<Rightarrow> cs) files))"

definition delete_creators_with_input_files :: "string list \<Rightarrow> 'fs scheduler \<Rightarrow> 'fs outcome" where
  "delete_creators_with_input_files files s = delete_creators (creators_consuming s files) s"

text \<open>
  The registration of a creator in \<open>build_new_creators\<close>: the duplicate-output check, then
  the three stores. The message of the error looks up the creator that owns the file.
\<close>

fun check_duplicate_outputs ::
  "'fs scheduler \<Rightarrow> 'fs creator \<Rightarrow> string list \<Rightarrow> 'fs error option" where
  "check_duplicate_outputs s creator [] = None"
| "check_duplicate_outputs s creator (file # files) =
     (case output_file_maps s file of
        None \<Rightarrow> check_duplicate_outputs s creator files
      | Some owner \<Rightarrow>
          (case creator_list s owner of
             None \<Rightarrow> Some (Failed KeyError)
           | Some existing_creator \<Rightarrow> Some (DuplicateOutput existing_creator creator)))"

fun add_input_files ::
  "CreatorIndexType \<Rightarrow> string list \<Rightarrow> (string \<rightharpoonup> CreatorIndexType list) \<Rightarrow>
     (string \<rightharpoonup> CreatorIndexType list)" where
  "add_input_files creator_index [] ifm = ifm"
| "add_input_files creator_index (file # files) ifm =
     add_input_files creator_index files
       (ifm(file \<mapsto> List.insert creator_index (case ifm file of None \<Rightarrow> [] | Some cs \<Rightarrow> cs)))"

fun add_output_files ::
  "CreatorIndexType \<Rightarrow> string list \<Rightarrow> (string \<rightharpoonup> CreatorIndexType) \<Rightarrow>
     (string \<rightharpoonup> CreatorIndexType)" where
  "add_output_files creator_index [] ofm = ofm"
| "add_output_files creator_index (file # files) ofm =
     add_output_files creator_index files (ofm(file \<mapsto> creator_index))"

definition register_creator ::
  "CreatorIndexType \<Rightarrow> 'fs creator \<Rightarrow> 'fs scheduler \<Rightarrow> 'fs outcome" where
  "register_creator new_creator_index creator s =
     (case check_duplicate_outputs s creator (flat_output_paths creator) of
        Some e \<Rightarrow> (Some e, s)
      | None \<Rightarrow>
          (None, s\<lparr>creator_list := (creator_list s)(new_creator_index \<mapsto> creator),
                    input_file_maps :=
                      add_input_files new_creator_index (flat_input_paths creator) (input_file_maps s),
                    output_file_maps :=
                      add_output_files new_creator_index (flat_output_paths creator) (output_file_maps s)\<rparr>))"

section \<open>The match store\<close>

text \<open>
  The in-memory SQLite database is a map from table names to tables, and each SQL
  statement that the scheduler builds is a function on it. A statement that SQLite
  rejects raises and leaves the database as it was.
\<close>

fun digit_string :: "nat \<Rightarrow> string" where
  "digit_string n =
     (if n < 10 then [''0123456789'' ! n]
      else digit_string (n div 10) @ [''0123456789'' ! (n mod 10)])"

declare digit_string.simps [simp del]

definition get_field_table_name :: "nat \<Rightarrow> string \<Rightarrow> string" where
  "get_field_table_name producer_index field_id =
     ''producer'' @ digit_string producer_index @ ''_field'' @ field_id @ ''_matches''"

definition get_match_group_column_name :: "'fs producer \<Rightarrow> string \<Rightarrow> string" where
  "get_match_group_column_name producer group_name =
     ''group_'' @ get_match_group_id producer group_name"

definition field_table :: "'fs producer \<Rightarrow> nat \<Rightarrow> string \<Rightarrow> string" where
  "field_table producer producer_index field_name =
     get_field_table_name producer_index (get_field_id producer field_name)"

text \<open>\<open>CREATE TABLE name (filename TEXT UNIQUE, is_updated INTEGER, cols TEXT ...)\<close>\<close>

definition sql_create_table :: "string \<Rightarrow> string list \<Rightarrow> database \<Rightarrow> failure + database" where
  "sql_create_table table_name cols db =
     (if table_name \<in> dom db \<or> \<not> distinct cols then Inl OperationalError
      else Inr (db(table_name \<mapsto> \<lparr>columns = cols, rows = []\<rparr>)))"

definition init_table_query :: "'fs producer \<Rightarrow> nat \<Rightarrow> (string \<times> string list) list" where
  "init_table_query producer producer_index =
     map (\<lambda>(field_name, regex).
            (field_table producer producer_index field_name,
             map (get_match_group_column_name producer) (get_match_groups producer field_name)))
       (regex_field_patterns producer)"

fun sql_create_tables :: "(string \<times> string list) list \<Rightarrow> database \<Rightarrow> failure + database" where
  "sql_create_tables [] db = Inr db"
| "sql_create_tables ((table_name, cols) # rest) db =
     (case sql_create_table table_name cols db of
        Inl e \<Rightarrow> Inl e
      | Inr db' \<Rightarrow> sql_create_tables rest db')"

definition init_producer_cache :: "'fs producer list \<Rightarrow> failure + database" where
  "init_producer_cache producers =
     sql_create_tables
       (concat (map (\<lambda>(producer_index, producer). init_table_query producer producer_index)
          (enumerate 0 producers)))
       Map.empty"

text \<open>
  \<open>INSERT INTO table (filename, is_updated, cols ...) VALUES (?, ?, ...)\<close>: the table and
  the columns must exist and the filename must be new; a column without a value is \<open>NULL\<close>.
\<close>

definition sql_insert ::
  "string \<Rightarrow> string \<Rightarrow> int \<Rightarrow> (string \<times> string option) list \<Rightarrow> database \<Rightarrow> failure + database" where
  "sql_insert table_name fname updated binds db =
     (case db table_name of
        None \<Rightarrow> Inl OperationalError
      | Some t \<Rightarrow>
          if \<not> set (map fst binds) \<subseteq> set (columns t) then Inl OperationalError
          else if fname \<in> set (map filename (rows t)) then Inl IntegrityError
          else Inr (db(table_name \<mapsto> t\<lparr>rows := rows t @
                 [\<lparr>filename = fname, is_updated = updated,
                   group_values = map (\<lambda>c. (c, case map_of binds c of None \<Rightarrow> None | Some v \<Rightarrow> v))
                                    (columns t)\<rparr>]\<rparr>)))"

definition insert_new_file ::
  "'fs producer \<Rightarrow> nat \<Rightarrow> string \<Rightarrow> string \<Rightarrow> groupdict \<Rightarrow> database \<Rightarrow> failure + database" where
  "insert_new_file producer producer_index field_name fname groups db =
     sql_insert (field_table producer producer_index field_name) fname 1
       (map (\<lambda>(group_name, v). (get_match_group_column_name producer group_name, v)) groups) db"

text \<open>\<open>DELETE FROM table WHERE filename = :filename\<close>\<close>

definition sql_delete :: "string \<Rightarrow> string \<Rightarrow> database \<Rightarrow> failure + database" where
  "sql_delete table_name fname db =
     (case db table_name of
        None \<Rightarrow> Inl OperationalError
      | Some t \<Rightarrow> Inr (db(table_name \<mapsto> t\<lparr>rows := filter (\<lambda>r. filename r \<noteq> fname) (rows t)\<rparr>)))"

definition remove_file_from_database ::
  "'fs producer \<Rightarrow> nat \<Rightarrow> string \<Rightarrow> string \<Rightarrow> database \<Rightarrow> failure + database" where
  "remove_file_from_database producer producer_index field_name fname db =
     sql_delete (field_table producer producer_index field_name) fname db"

text \<open>\<open>UPDATE table SET is_updated = 0 WHERE is_updated != 0\<close>\<close>

definition sql_mark_old :: "string \<Rightarrow> database \<Rightarrow> failure + database" where
  "sql_mark_old table_name db =
     (case db table_name of
        None \<Rightarrow> Inl OperationalError
      | Some t \<Rightarrow>
          Inr (db(table_name \<mapsto>
                 t\<lparr>rows := map (\<lambda>r. if is_updated r \<noteq> 0 then r\<lparr>is_updated := 0\<rparr> else r) (rows t)\<rparr>)))"

definition is_absent :: "pattern \<Rightarrow> bool" where
  "is_absent field \<longleftrightarrow> field = StrPattern [] \<or> field = ListPattern []"

definition active_fields :: "'fs producer \<Rightarrow> (string \<times> pattern) list" where
  "active_fields producer = filter (\<lambda>(field_name, field). \<not> is_absent field) (input_path_patterns_dict producer)"

definition mark_all_files_old_querystrings :: "'fs producer list \<Rightarrow> string list" where
  "mark_all_files_old_querystrings producers =
     concat (map (\<lambda>(producer_index, producer).
                    map (\<lambda>(field_name, field). field_table producer producer_index field_name)
                      (active_fields producer))
       (enumerate 0 producers))"

fun mark_all_files_old :: "string list \<Rightarrow> database \<Rightarrow> failure option \<times> database" where
  "mark_all_files_old [] db = (None, db)"
| "mark_all_files_old (table_name # rest) db =
     (case sql_mark_old table_name db of
        Inl e \<Rightarrow> (Some e, db)
      | Inr db' \<Rightarrow> mark_all_files_old rest db')"

section \<open>The fileset query\<close>

text \<open>
  \<open>new_filesets_querystring\<close> builds one \<open>SELECT\<close>; its parts are kept as data instead of
  text. A column of the select list is \<open>table.filename AS "field_id"\<close>, the
  \<open>GROUP_CONCAT\<close> of the escaped filenames \<open>AS "field_id"\<close>, \<open>first_table.group_column\<close>,
  or \<open>SUM(t1.is_updated+...) AS "is_updated"\<close>. A term of the \<open>WHERE\<close> clause is
  \<open>first_table.column = table.column\<close>; \<open>GROUP BY\<close> names columns by position, from 1.
\<close>

datatype select_column =
    FilenameAs string string
  | GroupConcatAs string string
  | GroupColumn string string
  | SumIsUpdated "string list"

record select_query =
  select_columns :: "select_column list"
  from_tables :: "string list"
  where_joins :: "(string \<times> string \<times> string) list"
  group_by_columns :: "nat list"

text \<open>\<open>field_groups\<close>: each match group with the tables it is in, in the order met.\<close>

definition add_field_group ::
  "string \<Rightarrow> string \<Rightarrow> (string \<times> string list) list \<Rightarrow> (string \<times> string list) list" where
  "add_field_group table_name match_group_name field_groups =
     (case map_of field_groups match_group_name of
        None \<Rightarrow> field_groups @ [(match_group_name, [table_name])]
      | Some group_tables \<Rightarrow> AList.update match_group_name (group_tables @ [table_name]) field_groups)"

definition field_groups_of :: "'fs producer \<Rightarrow> nat \<Rightarrow> (string \<times> string list) list" where
  "field_groups_of producer producer_index =
     fold (\<lambda>(field_name, field) field_groups.
             fold (add_field_group (field_table producer producer_index field_name))
               (get_match_groups producer field_name) field_groups)
       (active_fields producer) []"

definition field_column :: "'fs producer \<Rightarrow> nat \<Rightarrow> string \<times> pattern \<Rightarrow> select_column" where
  "field_column producer producer_index item =
     (case item of
        (field_name, StrPattern p) \<Rightarrow>
          FilenameAs (field_table producer producer_index field_name)
            (''field_'' @ get_field_id producer field_name)
      | (field_name, field) \<Rightarrow>
          GroupConcatAs (field_table producer producer_index field_name)
            (''field_'' @ get_field_id producer field_name))"

definition is_str :: "pattern \<Rightarrow> bool" where
  "is_str field = (case field of StrPattern p \<Rightarrow> True | ListPattern ps \<Rightarrow> False | OtherPattern \<Rightarrow> False)"

definition new_filesets_querystring :: "'fs producer \<Rightarrow> nat \<Rightarrow> failure + select_query" where
  "new_filesets_querystring producer producer_index =
     (let active = active_fields producer;
          field_groups = field_groups_of producer producer_index;
          tables = map (\<lambda>(field_name, field). field_table producer producer_index field_name) active
      in if OtherPattern \<in> snd ` set active then Inl TypeError
         else Inr \<lparr>select_columns =
                     map (field_column producer producer_index) active
                     @ concat (map (\<lambda>(match_group_name, group_tables).
                          case group_tables of
                            [] \<Rightarrow> []
                          | first_table # others \<Rightarrow>
                              [GroupColumn first_table (get_match_group_column_name producer match_group_name)])
                         field_groups)
                     @ [SumIsUpdated tables],
                   from_tables = tables,
                   where_joins =
                     concat (map (\<lambda>(match_group_name, group_tables).
                          case group_tables of
                            [] \<Rightarrow> []
                          | first_table # others \<Rightarrow>
                              map (\<lambda>t. (first_table, get_match_group_column_name producer match_group_name, t))
                                others)
                        field_groups),
                   group_by_columns =
                     map (\<lambda>(i, item). Suc i) (filter (\<lambda>(i, item). is_str (snd item)) (enumerate 0 active))
                     @ map (\<lambda>i. length active + Suc i) [0..<length field_groups]\<rparr>)"

text \<open>
  The evaluation of the \<open>SELECT\<close>. A row of the join takes one row from each table of the
  \<open>FROM\<close> list, in that order. SQL compares \<open>NULL\<close> equal to nothing, and groups the
  \<open>NULL\<close>s together; it leaves the order of the groups open, here the order in which
  their keys are last met.
\<close>

datatype cell = Text string | Null | Integer int

definition table_rows :: "database \<Rightarrow> string \<Rightarrow> row list" where
  "table_rows db table_name = (case db table_name of None \<Rightarrow> [] | Some t \<Rightarrow> rows t)"

definition table_columns :: "database \<Rightarrow> string \<Rightarrow> string list" where
  "table_columns db table_name = (case db table_name of None \<Rightarrow> [] | Some t \<Rightarrow> columns t)"

definition joined_filename :: "select_query \<Rightarrow> row list \<Rightarrow> string \<Rightarrow> cell" where
  "joined_filename q jr table_name =
     (case map_of (zip (from_tables q) jr) table_name of None \<Rightarrow> Null | Some r \<Rightarrow> Text (filename r))"

definition joined_is_updated :: "select_query \<Rightarrow> row list \<Rightarrow> string \<Rightarrow> int" where
  "joined_is_updated q jr table_name =
     (case map_of (zip (from_tables q) jr) table_name of None \<Rightarrow> 0 | Some r \<Rightarrow> is_updated r)"

definition joined_group :: "select_query \<Rightarrow> row list \<Rightarrow> string \<Rightarrow> string \<Rightarrow> cell" where
  "joined_group q jr table_name col =
     (case map_of (zip (from_tables q) jr) table_name of
        None \<Rightarrow> Null
      | Some r \<Rightarrow> (case map_of (group_values r) col of
                     None \<Rightarrow> Null
                   | Some None \<Rightarrow> Null
                   | Some (Some v) \<Rightarrow> Text v))"

definition satisfies_joins :: "select_query \<Rightarrow> row list \<Rightarrow> bool" where
  "satisfies_joins q jr =
     list_all (\<lambda>(first_table, col, t).
                 joined_group q jr first_table col \<noteq> Null
               \<and> joined_group q jr first_table col = joined_group q jr t col)
       (where_joins q)"

definition key_cell :: "select_query \<Rightarrow> row list \<Rightarrow> select_column \<Rightarrow> cell" where
  "key_cell q jr col =
     (case col of
        FilenameAs t alias \<Rightarrow> joined_filename q jr t
      | GroupColumn t c \<Rightarrow> joined_group q jr t c
      | GroupConcatAs t alias \<Rightarrow> Null
      | SumIsUpdated ts \<Rightarrow> Null)"

definition group_key :: "select_query \<Rightarrow> row list \<Rightarrow> cell list" where
  "group_key q jr = map (\<lambda>position. key_cell q jr (select_columns q ! (position - 1))) (group_by_columns q)"

definition group_rows :: "select_query \<Rightarrow> row list list \<Rightarrow> row list list list" where
  "group_rows q joined =
     map (\<lambda>k. filter (\<lambda>jr. group_key q jr = k) joined) (remdups (map (group_key q) joined))"

text \<open>The sum that the query computes for a group: \<open>SUM(t1.is_updated+...)\<close>.\<close>

definition sum_is_updated :: "select_query \<Rightarrow> string list \<Rightarrow> row list list \<Rightarrow> int" where
  "sum_is_updated q tables grp =
     sum_list (map (\<lambda>jr. sum_list (map (joined_is_updated q jr) tables)) grp)"

text \<open>
  The aggregate that the query computes for a list field in a group:
  \<open>GROUP_CONCAT(REPLACE(REPLACE(t.filename, ...)), ',')\<close>.
\<close>

definition escaped_aggregate :: "select_query \<Rightarrow> string \<Rightarrow> row list list \<Rightarrow> string" where
  "escaped_aggregate q t grp =
     group_concat (map (\<lambda>jr. case joined_filename q jr t of
                               Text fname \<Rightarrow> sql_escape fname
                             | Null \<Rightarrow> []
                             | Integer n \<Rightarrow> []) grp)"

definition column_value :: "select_query \<Rightarrow> row list list \<Rightarrow> select_column \<Rightarrow> string \<times> cell" where
  "column_value q grp col =
     (case col of
        FilenameAs t alias \<Rightarrow> (alias, case grp of [] \<Rightarrow> Null | jr # later \<Rightarrow> joined_filename q jr t)
      | GroupConcatAs t alias \<Rightarrow> (alias, Text (escaped_aggregate q t grp))
      | GroupColumn t c \<Rightarrow> (c, case grp of [] \<Rightarrow> Null | jr # later \<Rightarrow> joined_group q jr t c)
      | SumIsUpdated ts \<Rightarrow> (''is_updated'', Integer (sum_is_updated q ts grp)))"

definition column_ok :: "select_query \<Rightarrow> database \<Rightarrow> select_column \<Rightarrow> bool" where
  "column_ok q db col =
     (case col of
        FilenameAs t alias \<Rightarrow> True
      | GroupConcatAs t alias \<Rightarrow> True
      | GroupColumn t c \<Rightarrow> c \<in> set (table_columns db t)
      | SumIsUpdated ts \<Rightarrow> True)"

definition query_ok :: "select_query \<Rightarrow> database \<Rightarrow> bool" where
  "query_ok q db \<longleftrightarrow>
     from_tables q \<noteq> [] \<and> group_by_columns q \<noteq> [] \<and> distinct (from_tables q)
   \<and> list_all (\<lambda>t. t \<in> dom db) (from_tables q)
   \<and> list_all (column_ok q db) (select_columns q)
   \<and> list_all (\<lambda>(first_table, c, t). c \<in> set (table_columns db first_table) \<and> c \<in> set (table_columns db t))
        (where_joins q)"

definition joined_groups :: "select_query \<Rightarrow> database \<Rightarrow> row list list list" where
  "joined_groups q db =
     group_rows q (filter (satisfies_joins q) (product_lists (map (table_rows db) (from_tables q))))"

definition sql_select :: "select_query \<Rightarrow> database \<Rightarrow> failure + (string \<times> cell) list list" where
  "sql_select q db =
     (if \<not> query_ok q db then Inl OperationalError
      else Inr (map (\<lambda>grp. map (column_value q grp) (select_columns q)) (joined_groups q db)))"

text \<open>
  The loop of \<open>query_filesets\<close> over the rows of the cursor. \<open>columns_lookup\<close> maps a
  column name to its last position, so a cell is looked up from the right.
\<close>

definition row_cell :: "(string \<times> cell) list \<Rightarrow> string \<Rightarrow> cell option" where
  "row_cell result_row name = map_of (rev result_row) name"

fun resolve_fields ::
  "'fs producer \<Rightarrow> (string \<times> cell) list \<Rightarrow> (string \<times> pattern) list \<Rightarrow>
     (string \<times> field_value) list \<Rightarrow> failure + (string \<times> field_value) list" where
  "resolve_fields producer result_row [] new_element = Inr new_element"
| "resolve_fields producer result_row ((new_element_field_name, field) # rest) new_element =
     (if field = StrPattern [] then
        resolve_fields producer result_row rest
          (AList.update new_element_field_name (PathValue []) new_element)
      else if field = ListPattern [] then
        resolve_fields producer result_row rest
          (AList.update new_element_field_name (ListValue []) new_element)
      else
        (case row_cell result_row (''field_'' @ get_field_id producer new_element_field_name) of
           None \<Rightarrow> Inl KeyError
         | Some (Text v) \<Rightarrow>
             (case field of
                StrPattern p \<Rightarrow>
                  resolve_fields producer result_row rest
                    (AList.update new_element_field_name (PathValue v) new_element)
              | ListPattern ps \<Rightarrow>
                  resolve_fields producer result_row rest
                    (AList.update new_element_field_name (ListValue (sort (parse_comma_escape v)))
                       new_element)
              | OtherPattern \<Rightarrow> Inl TypeError)
         | Some Null \<Rightarrow> Inl TypeError
         | Some (Integer n) \<Rightarrow> Inl TypeError))"

fun resolve_groups ::
  "'fs producer \<Rightarrow> (string \<times> cell) list \<Rightarrow> string list \<Rightarrow> groupdict \<Rightarrow> failure + groupdict" where
  "resolve_groups producer result_row [] groups = Inr groups"
| "resolve_groups producer result_row (group_name # rest) groups =
     (case row_cell result_row (''group_'' @ get_match_group_id producer group_name) of
        None \<Rightarrow> Inl KeyError
      | Some (Text v) \<Rightarrow>
          resolve_groups producer result_row rest (AList.update group_name (Some v) groups)
      | Some Null \<Rightarrow>
          resolve_groups producer result_row rest (AList.update group_name None groups)
      | Some (Integer n) \<Rightarrow> Inl TypeError)"

definition resolve_row ::
  "'fs producer \<Rightarrow> (string \<times> cell) list \<Rightarrow>
     failure + ((string \<times> field_value) list \<times> groupdict) \<times> int" where
  "resolve_row producer result_row =
     (case resolve_fields producer result_row (input_path_patterns_dict producer) [] of
        Inl e \<Rightarrow> Inl e
      | Inr new_element \<Rightarrow>
          (case resolve_groups producer result_row (get_all_match_groups producer) [] of
             Inl e \<Rightarrow> Inl e
           | Inr groups \<Rightarrow>
               (case row_cell result_row ''is_updated'' of
                  Some (Integer n) \<Rightarrow> Inr ((new_element, groups), n)
                | Some (Text v) \<Rightarrow> Inl TypeError
                | Some Null \<Rightarrow> Inl TypeError
                | None \<Rightarrow> Inl KeyError)))"

fun collect_filesets ::
  "'fs producer \<Rightarrow> (string \<times> cell) list list \<Rightarrow>
     ((string \<times> field_value) list \<times> groupdict) list \<Rightarrow>
     failure + ((string \<times> field_value) list \<times> groupdict) list" where
  "collect_filesets producer [] output_data = Inr output_data"
| "collect_filesets producer (result_row # rest) output_data =
     (case resolve_row producer result_row of
        Inl e \<Rightarrow> Inl e
      | Inr (element, updated) \<Rightarrow>
          collect_filesets producer rest
            (if updated > 0 then output_data @ [element] else output_data))"

definition query_filesets ::
  "'fs producer \<Rightarrow> nat \<Rightarrow> database \<Rightarrow> failure + ((string \<times> field_value) list \<times> groupdict) list" where
  "query_filesets producer producer_index db =
     (case new_filesets_querystring producer producer_index of
        Inl e \<Rightarrow> Inl e
      | Inr q \<Rightarrow>
          (case sql_select q db of
             Inl e \<Rightarrow> Inl e
           | Inr result \<Rightarrow> collect_filesets producer result []))"

section \<open>The scheduler\<close>

text \<open>
  The three nested loops over producers, files and fields visit the matches in a fixed
  order that does not depend on the state: they are a list of matches, then a loop over it.
\<close>

definition file_matches ::
  "'fs producer list \<Rightarrow> string list \<Rightarrow> (nat \<times> 'fs producer \<times> string \<times> string \<times> groupdict) list" where
  "file_matches producers files =
     concat (map (\<lambda>(producer_index, producer).
       concat (map (\<lambda>path.
         concat (map (\<lambda>(field_name, regex).
                   case regex path of
                     None \<Rightarrow> []
                   | Some groups \<Rightarrow> [(producer_index, producer, field_name, path, groups)])
           (regex_field_patterns producer)))
         files))
       (enumerate 0 producers))"

fun store_matches ::
  "(nat \<times> 'fs producer \<times> string \<times> string \<times> groupdict) list \<Rightarrow> database \<Rightarrow>
     failure option \<times> database" where
  "store_matches [] db = (None, db)"
| "store_matches ((producer_index, producer, field_name, path, groups) # rest) db =
     (case remove_file_from_database producer producer_index field_name path db of
        Inl e \<Rightarrow> (Some e, db)
      | Inr db1 \<Rightarrow>
          (case insert_new_file producer producer_index field_name path groups db1 of
             Inl e \<Rightarrow> (Some e, db1)
           | Inr db2 \<Rightarrow> store_matches rest db2))"

fun remove_matches ::
  "(nat \<times> 'fs producer \<times> string \<times> string \<times> groupdict) list \<Rightarrow> database \<Rightarrow>
     failure option \<times> database" where
  "remove_matches [] db = (None, db)"
| "remove_matches ((producer_index, producer, field_name, path, groups) # rest) db =
     (case remove_file_from_database producer producer_index field_name path db of
        Inl e \<Rightarrow> (Some e, db)
      | Inr db1 \<Rightarrow> remove_matches rest db1)"

definition make_creator ::
  "'fs producer \<Rightarrow> (string \<times> field_value) list \<times> groupdict \<Rightarrow> 'fs creator" where
  "make_creator producer input_data =
     (case paths producer (fst input_data) (snd input_data) of
        (new_input_data, output_data) \<Rightarrow>
          \<lparr>flat_input_paths = new_input_data, flat_output_paths = output_data,
           creator_function = producer_function producer new_input_data output_data\<rparr>)"

text \<open>The body of the inner loop of \<open>build_new_creators\<close>, for one fileset of the query.\<close>

definition build_creator ::
  "nat \<Rightarrow> 'fs producer \<Rightarrow> (string \<times> field_value) list \<times> groupdict \<Rightarrow> 'fs scheduler \<Rightarrow> 'fs outcome" where
  "build_creator producer_index producer input_data s =
     (let creator = make_creator producer input_data;
          new_creator_index = (producer_index, get_hashable_matchgroups (snd input_data))
      in case (if new_creator_index \<in> dom (creator_list s)
               then delete_creator new_creator_index s else (None, s)) of
           (Some e, s1) \<Rightarrow> (Some e, s1)
         | (None, s1) \<Rightarrow> register_creator new_creator_index creator s1)"

fun build_creators ::
  "nat \<Rightarrow> 'fs producer \<Rightarrow> ((string \<times> field_value) list \<times> groupdict) list \<Rightarrow> 'fs scheduler \<Rightarrow>
     'fs outcome" where
  "build_creators producer_index producer [] s = (None, s)"
| "build_creators producer_index producer (input_data # rest) s =
     (case build_creator producer_index producer input_data s of
        (Some e, s1) \<Rightarrow> (Some e, s1)
      | (None, s1) \<Rightarrow> build_creators producer_index producer rest s1)"

fun build_producers :: "(nat \<times> 'fs producer) list \<Rightarrow> 'fs scheduler \<Rightarrow> 'fs outcome" where
  "build_producers [] s = (None, s)"
| "build_producers ((producer_index, producer) # rest) s =
     (case query_filesets producer producer_index (filecache s) of
        Inl e \<Rightarrow> (Some (Failed e), s)
      | Inr input_datas \<Rightarrow>
          (case build_creators producer_index producer input_datas s of
             (Some e, s1) \<Rightarrow> (Some e, s1)
           | (None, s1) \<Rightarrow> build_producers rest s1))"

text \<open>The list of new creators that \<open>build_new_creators\<close> returns is used by no caller.\<close>

definition build_new_creators :: "string list \<Rightarrow> 'fs scheduler \<Rightarrow> 'fs outcome" where
  "build_new_creators files s =
     (case delete_creators_with_input_files files s of
        (Some e, s1) \<Rightarrow> (Some e, s1)
      | (None, s1) \<Rightarrow>
          (case store_matches (file_matches (producer_list s1) files) (filecache s1) of
             (Some e, db) \<Rightarrow> (Some (Failed e), s1\<lparr>filecache := db\<rparr>)
           | (None, db) \<Rightarrow>
               (case build_producers (enumerate 0 (producer_list s1)) (s1\<lparr>filecache := db\<rparr>) of
                  (Some e, s2) \<Rightarrow> (Some e, s2)
                | (None, s2) \<Rightarrow>
                    (case mark_all_files_old (mark_all_files_old_querystrings (producer_list s2))
                            (filecache s2) of
                       (e, db') \<Rightarrow> (map_option Failed e, s2\<lparr>filecache := db'\<rparr>)))))"

definition delete_files :: "string list \<Rightarrow> 'fs scheduler \<Rightarrow> 'fs outcome" where
  "delete_files files s =
     (case delete_creators_with_input_files files s of
        (Some e, s1) \<Rightarrow> (Some e, s1)
      | (None, s1) \<Rightarrow>
          (case remove_matches (file_matches (producer_list s1) files) (filecache s1) of
             (e, db) \<Rightarrow> (map_option Failed e, s1\<lparr>filecache := db\<rparr>)))"

text \<open>
  Modelled from the spec: the class \<open>UniqueHeap\<close> (module \<open>unique_heap\<close>, not among the
  sources), a priority queue of unique creator identities. Pushing an identity that is
  present does nothing; \<open>pop\<close> takes the least identity in the lexicographic order of
  \<open>(producer_index, match_key)\<close>. The heap is the sorted list of its elements.
\<close>

definition heap_push :: "CreatorIndexType \<Rightarrow> CreatorIndexType list \<Rightarrow> CreatorIndexType list" where
  "heap_push creator_index heap = (if creator_index \<in> set heap then heap else insort creator_index heap)"

definition push_consumers ::
  "'fs scheduler \<Rightarrow> string list \<Rightarrow> CreatorIndexType list \<Rightarrow> CreatorIndexType list" where
  "push_consumers s files heap =
     fold heap_push
       (concat (map (\<lambda>file. case input_file_maps s file of None \<Rightarrow> [] | Some cs \<Rightarrow> cs) files)) heap"

text \<open>
  The test of \<open>process_files\<close> that ends in \<open>continue\<close>: the creator is skipped when all
  its output files exist and the oldest output is newer than the newest input.
\<close>

definition skips_creator :: "'fs os_iface \<Rightarrow> 'fs \<Rightarrow> 'fs creator \<Rightarrow> bool option" where
  "skips_creator os fs creator =
     (if all_files_exist os fs (flat_output_paths creator) then
        (case get_oldest_modified_time os fs (flat_output_paths creator) of
           None \<Rightarrow> None
         | Some oldest_output \<Rightarrow>
             (case get_newest_modified_time os fs (flat_input_paths creator) of
                None \<Rightarrow> None
              | Some newest_input \<Rightarrow> Some (oldest_output > newest_input)))
      else Some False)"

fun build_required_directories :: "'fs os_iface \<Rightarrow> string list \<Rightarrow> 'fs \<Rightarrow> 'fs option" where
  "build_required_directories os [] fs = Some fs"
| "build_required_directories os (file # files) fs =
     (if \<not> os_path_exists os fs (os_path_dirname os file)
      then (case os_makedirs os (os_path_dirname os file) fs of
              None \<Rightarrow> None
            | Some fs' \<Rightarrow> build_required_directories os files fs')
      else build_required_directories os files fs)"

text \<open>
  What a call of the scheduler acts on: the scheduler object, the disk, and the trace of
  the creators whose action has been invoked (the trace is not in the code; it records
  the calls of \<open>creator.run()\<close>).
\<close>

record 'fs world =
  sched :: "'fs scheduler"
  disk :: "'fs"
  executed :: "CreatorIndexType list"

text \<open>
  One iteration of the \<open>while\<close> loop of \<open>process_files\<close>, after the \<open>pop\<close>: the rest of
  the heap and the world go in, the exception (if any), the heap and the world come out.
  \<open>None\<close> means that the iteration does not return. The printing is left out.
\<close>

definition process_creator ::
  "'fs os_iface \<Rightarrow> CreatorIndexType \<Rightarrow> CreatorIndexType list \<Rightarrow> 'fs world \<Rightarrow>
     ('fs error option \<times> CreatorIndexType list \<times> 'fs world) option" where
  "process_creator os creator_index heap w =
     (case creator_list (sched w) creator_index of
        None \<Rightarrow> Some (Some (Failed KeyError), heap, w)
      | Some creator \<Rightarrow>
          (case skips_creator os (disk w) creator of
             None \<Rightarrow> None
           | Some True \<Rightarrow> Some (None, heap, w)
           | Some False \<Rightarrow>
               (case build_new_creators (flat_output_paths creator) (sched w) of
                  (Some e, s1) \<Rightarrow> Some (Some e, heap, w\<lparr>sched := s1\<rparr>)
                | (None, s1) \<Rightarrow>
                    (case build_required_directories os (flat_output_paths creator) (disk w) of
                       None \<Rightarrow>
                         Some (Some (Failed OSError), push_consumers s1 (flat_output_paths creator) heap,
                               w\<lparr>sched := s1\<rparr>)
                     | Some fs1 \<Rightarrow>
                         (case creator_function creator fs1 of
                            None \<Rightarrow>
                              Some (Some (Failed ActionFailure),
                                    push_consumers s1 (flat_output_paths creator) heap,
                                    w\<lparr>sched := s1, disk := fs1,
                                      executed := executed w @ [creator_index]\<rparr>)
                          | Some fs2 \<Rightarrow>
                              Some (None, push_consumers s1 (flat_output_paths creator) heap,
                                    w\<lparr>sched := s1, disk := fs2,
                                      executed := executed w @ [creator_index]\<rparr>))))))"

text \<open>
  The \<open>while\<close> loop may run forever, so it takes fuel: one unit for each creator popped.
  \<open>None\<close> means that the loop has not returned within the fuel.
\<close>

fun drain ::
  "'fs os_iface \<Rightarrow> nat \<Rightarrow> CreatorIndexType list \<Rightarrow> 'fs world \<Rightarrow>
     ('fs error option \<times> 'fs world) option" where
  "drain os fuel [] w = Some (None, w)"
| "drain os 0 (creator_index # heap) w = None"
| "drain os (Suc fuel) (creator_index # heap) w =
     (case process_creator os creator_index heap w of
        None \<Rightarrow> None
      | Some (Some e, heap', w') \<Rightarrow> Some (Some e, w')
      | Some (None, heap', w') \<Rightarrow> drain os fuel heap' w')"

definition process_files ::
  "'fs os_iface \<Rightarrow> nat \<Rightarrow> string list \<Rightarrow> 'fs world \<Rightarrow> ('fs error option \<times> 'fs world) option" where
  "process_files os fuel files w = drain os fuel (push_consumers (sched w) files []) w"

definition add_or_update_files ::
  "'fs os_iface \<Rightarrow> nat \<Rightarrow> string list \<Rightarrow> 'fs world \<Rightarrow> ('fs error option \<times> 'fs world) option" where
  "add_or_update_files os fuel files w =
     (case build_new_creators files (sched w) of
        (Some e, s1) \<Rightarrow> Some (Some e, w\<lparr>sched := s1\<rparr>)
      | (None, s1) \<Rightarrow> process_files os fuel files (w\<lparr>sched := s1\<rparr>))"

text \<open>\<open>Scheduler.__init__\<close>, on a disk \<open>fs\<close>.\<close>

definition new_scheduler ::
  "'fs os_iface \<Rightarrow> nat \<Rightarrow> 'fs producer list \<Rightarrow> string list \<Rightarrow> 'fs \<Rightarrow>
     ('fs error option \<times> 'fs world) option" where
  "new_scheduler os fuel producers initial_filepaths fs =
     (case init_producer_cache producers of
        Inl e \<Rightarrow>
          Some (Some (Failed e),
                \<lparr>sched = \<lparr>producer_list = producers, creator_list = Map.empty,
                           output_file_maps = Map.empty, input_file_maps = Map.empty,
                           filecache = Map.empty\<rparr>,
                 disk = fs, executed = []\<rparr>)
      | Inr db \<Rightarrow>
          add_or_update_files os fuel initial_filepaths
            \<lparr>sched = \<lparr>producer_list = producers, creator_list = Map.empty,
                       output_file_maps = Map.empty, input_file_maps = Map.empty,
                       filecache = db\<rparr>,
             disk = fs, executed = []\<rparr>)"

text \<open>
  The states that the public operations reach when they return: construction,
  \<open>add_or_update_files\<close>, \<open>delete_files\<close>, with any change of the disk between two calls.
  The states that a call leaves when it raises are not among them; \<open>observable\<close> below
  counts them too.
\<close>

inductive reachable :: "'fs os_iface \<Rightarrow> 'fs world \<Rightarrow> bool" for os :: "'fs os_iface" where
  construct: "new_scheduler os fuel producers initial_filepaths fs = Some (None, w) \<Longrightarrow> reachable os w"
| add_or_update: "reachable os w \<Longrightarrow> add_or_update_files os fuel files w = Some (None, w') \<Longrightarrow> reachable os w'"
| delete: "reachable os w \<Longrightarrow> delete_files files (sched w) = (None, s') \<Longrightarrow> reachable os (w\<lparr>sched := s'\<rparr>)"
| disk_change: "reachable os w \<Longrightarrow> reachable os (w\<lparr>disk := fs'\<rparr>)"

text \<open>
  The states that a caller of the public operations can find the scheduler in: those that
  construction, \<open>add_or_update_files\<close> and \<open>delete_files\<close> leave, whether the call returns
  (\<open>e = None\<close>) or raises, with any change of the disk between two calls. The producers
  are those given to the constructor.
\<close>

inductive observable :: "'fs os_iface \<Rightarrow> 'fs producer list \<Rightarrow> 'fs world \<Rightarrow> bool"
  for os :: "'fs os_iface" and producers :: "'fs producer list" where
  constructed: "new_scheduler os fuel producers initial_filepaths fs = Some (e, w) \<Longrightarrow>
     observable os producers w"
| added_or_updated: "observable os producers w \<Longrightarrow>
     add_or_update_files os fuel files w = Some (e, w') \<Longrightarrow> observable os producers w'"
| deleted: "observable os producers w \<Longrightarrow> delete_files files (sched w) = (e, s') \<Longrightarrow>
     observable os producers (w\<lparr>sched := s'\<rparr>)"
| disk_changed: "observable os producers w \<Longrightarrow> observable os producers (w\<lparr>disk := fs'\<rparr>)"

section \<open>What the staleness test computes\<close>

text \<open>
  The timestamps that a path stands for: a missing path stands for the default
  (\<open>None\<close> here), a file for its modification time, and a directory for what its children
  stand for, and so on below them.
\<close>

inductive contributes :: "'fs os_iface \<Rightarrow> 'fs \<Rightarrow> string \<Rightarrow> real option \<Rightarrow> bool"
  for os :: "'fs os_iface" and fs :: 'fs where
  missing_path: "\<not> os_path_exists os fs path \<Longrightarrow> contributes os fs path None"
| plain_file: "os_path_exists os fs path \<Longrightarrow> \<not> os_path_isdir os fs path \<Longrightarrow>
     contributes os fs path (Some (os_path_getmtime os fs path))"
| directory_child: "os_path_exists os fs path \<Longrightarrow> os_path_isdir os fs path \<Longrightarrow>
     subpath \<in> set (os_listdir os fs path) \<Longrightarrow>
     contributes os fs (os_path_join os path subpath) x \<Longrightarrow> contributes os fs path x"

definition contributions :: "'fs os_iface \<Rightarrow> 'fs \<Rightarrow> string list \<Rightarrow> real option set" where
  "contributions os fs path_list = {x. \<exists>path \<in> set path_list. contributes os fs path x}"

text \<open>
  A creator is stale when an output file does not exist, or the oldest output is not newer
  than the newest input. On the output side a missing path counts as time 0, and so does
  an empty collection. On the input side a missing path counts as later than every time,
  and so does an empty collection: then the comparison holds whatever the outputs are.
\<close>

definition stale :: "'fs os_iface \<Rightarrow> 'fs \<Rightarrow> 'fs creator \<Rightarrow> bool" where
  "stale os fs creator \<longleftrightarrow>
     (\<exists>file \<in> set (flat_output_paths creator). \<not> os_path_exists os fs file)
   \<or> None \<in> contributions os fs (flat_input_paths creator)
   \<or> contributions os fs (flat_input_paths creator) = {}
   \<or> (if contributions os fs (flat_output_paths creator) = {} then 0
       else Min (case_option 0 id ` contributions os fs (flat_output_paths creator)))
      \<le> Max {t. Some t \<in> contributions os fs (flat_input_paths creator)}"

section \<open>Invariants of the scheduler's state\<close>

text \<open>
  The creator graph is consistent when the two file indexes say what the stored creators
  say: a file is mapped to a creator exactly when that creator is stored and lists the file.
\<close>

definition graph_ok :: "'fs scheduler \<Rightarrow> bool" where
  "graph_ok s \<longleftrightarrow>
     (\<forall>file ci. output_file_maps s file = Some ci \<longrightarrow>
        (\<exists>c. creator_list s ci = Some c \<and> file \<in> set (flat_output_paths c)))
   \<and> (\<forall>ci c file. creator_list s ci = Some c \<longrightarrow> file \<in> set (flat_output_paths c) \<longrightarrow>
        output_file_maps s file = Some ci)
   \<and> (\<forall>ci c file. creator_list s ci = Some c \<longrightarrow> file \<in> set (flat_input_paths c) \<longrightarrow>
        (\<exists>cs. input_file_maps s file = Some cs \<and> ci \<in> set cs))
   \<and> (\<forall>file cs ci. input_file_maps s file = Some cs \<longrightarrow> ci \<in> set cs \<longrightarrow>
        (\<exists>c. creator_list s ci = Some c \<and> file \<in> set (flat_input_paths c)))"

text \<open>
  The match store is consistent when every row sits in the table of a field of a producer
  whose regex matches the row's filename.
\<close>

definition known_row :: "'fs producer list \<Rightarrow> string \<Rightarrow> string \<Rightarrow> bool" where
  "known_row producers table_name fname \<longleftrightarrow>
     (\<exists>producer_index producer field_name regex.
        (producer_index, producer) \<in> set (enumerate 0 producers)
      \<and> (field_name, regex) \<in> set (regex_field_patterns producer)
      \<and> table_name = field_table producer producer_index field_name
      \<and> regex fname \<noteq> None)"

definition rows_match :: "'fs producer list \<Rightarrow> database \<Rightarrow> bool" where
  "rows_match producers db \<longleftrightarrow>
     (\<forall>table_name t r. db table_name = Some t \<longrightarrow> r \<in> set (rows t) \<longrightarrow>
        known_row producers table_name (filename r))"

definition db_ok :: "'fs scheduler \<Rightarrow> bool" where
  "db_ok s \<longleftrightarrow> rows_match (producer_list s) (filecache s)"

text \<open>An entry of \<open>input_file_maps\<close> after \<open>delete_creator\<close> has visited its file.\<close>

definition without_creator ::
  "CreatorIndexType \<Rightarrow> CreatorIndexType list option \<Rightarrow> CreatorIndexType list option" where
  "without_creator ci entry =
     (case entry of
        None \<Rightarrow> None
      | Some cs \<Rightarrow> if removeAll ci cs = [] then None else Some (removeAll ci cs))"

text \<open>
  A creator is duplicate-free when it lists no path twice among its input paths and no
  path twice among its output paths; the producers are, when the hook \<open>paths\<close> of each
  returns such lists. The class \<open>Creator\<close> is not among the sources, and the scheduler
  does not check this.
\<close>

definition duplicate_free :: "'fs creator \<Rightarrow> bool" where
  "duplicate_free creator \<longleftrightarrow>
     distinct (flat_input_paths creator) \<and> distinct (flat_output_paths creator)"

definition paths_duplicate_free :: "'fs producer list \<Rightarrow> bool" where
  "paths_duplicate_free producers \<longleftrightarrow>
     (\<forall>producer \<in> set producers. \<forall>new_element groups.
        distinct (fst (paths producer new_element groups))
      \<and> distinct (snd (paths producer new_element groups)))"

definition tidy :: "'fs producer list \<Rightarrow> 'fs scheduler \<Rightarrow> bool" where
  "tidy producers s \<longleftrightarrow>
     producer_list s = producers \<and> graph_ok s
   \<and> (\<forall>ci c. creator_list s ci = Some c \<longrightarrow> duplicate_free c)"

section \<open>Example producers and disks\<close>

text \<open>
  A small file system for the examples: a path is a file with its modification time or a
  directory with the names in it, and a path has at most one directory above it.
\<close>

datatype node = File real | Directory "string list"

definition ex_os :: "(string \<Rightarrow> node option) os_iface" where
  "ex_os = \<lparr>os_path_exists = (\<lambda>fs p. fs p \<noteq> None),
            os_path_isdir = (\<lambda>fs p. case fs p of Some (Directory cs) \<Rightarrow> True | _ \<Rightarrow> False),
            os_listdir = (\<lambda>fs p. case fs p of Some (Directory cs) \<Rightarrow> cs | _ \<Rightarrow> []),
            os_path_getmtime = (\<lambda>fs p. case fs p of Some (File t) \<Rightarrow> t | _ \<Rightarrow> 0),
            os_path_join = (\<lambda>a b. a @ ''/'' @ b),
            os_path_dirname = (\<lambda>p. rev (drop 1 (dropWhile (\<lambda>c. c \<noteq> CHR ''/'') (rev p)))),
            os_makedirs = (\<lambda>d fs. if d = [] \<or> fs d \<noteq> None then None
                                  else Some (fs(d \<mapsto> Directory [])))\<rparr>"

text \<open>
  The producer of scenario S1: the field \<open>src\<close> matches \<open>name.md\<close> and the creator writes
  \<open>out/name.html\<close>. The action is a parameter of the example: it stamps each output
  with the time \<open>t\<close>.
\<close>

definition md_regex :: "string \<Rightarrow> groupdict option" where
  "md_regex p = (if 3 < length p \<and> drop (length p - 3) p = ''.md''
                 then Some [(''name'', Some (take (length p - 3) p))] else None)"

definition md_producer :: "real \<Rightarrow> (string \<Rightarrow> node option) producer" where
  "md_producer t =
     \<lparr>regex_field_patterns = [(''src'', md_regex)],
      get_field_id = (\<lambda>field_name. field_name),
      get_match_group_id = (\<lambda>group_name. group_name),
      get_match_groups = (\<lambda>field_name. [''name'']),
      get_all_match_groups = [''name''],
      input_path_patterns_dict = [(''src'', StrPattern ''(?P<name>.+)[.]md'')],
      paths = (\<lambda>new_element groups.
                 (case map_of new_element ''src'' of Some (PathValue f) \<Rightarrow> [f] | _ \<Rightarrow> [],
                  case map_of groups ''name'' of
                    Some (Some n) \<Rightarrow> [''out/'' @ n @ ''.html''] | _ \<Rightarrow> [])),
      producer_function = (\<lambda>ins outs fs. Some (fold (\<lambda>out fs. fs(out \<mapsto> File t)) outs fs))\<rparr>"

definition ex_disk :: "string \<Rightarrow> node option" where
  "ex_disk = [''a.md'' \<mapsto> File 5, ''out'' \<mapsto> Directory []]"

lemmas match_store_defs = get_field_table_name_def get_match_group_column_name_def field_table_def
  sql_create_table_def init_table_query_def init_producer_cache_def sql_insert_def insert_new_file_def
  sql_delete_def remove_file_from_database_def sql_mark_old_def is_absent_def active_fields_def
  mark_all_files_old_querystrings_def digit_string.simps

lemmas query_defs = add_field_group_def field_groups_of_def field_column_def is_str_def
  new_filesets_querystring_def table_rows_def table_columns_def joined_filename_def
  joined_is_updated_def joined_group_def satisfies_joins_def key_cell_def group_key_def
  group_rows_def sum_is_updated_def escaped_aggregate_def column_value_def column_ok_def query_ok_def joined_groups_def
  sql_select_def row_cell_def resolve_row_def query_filesets_def
  concat_with_escape_def sql_escape_def sql_replace_def parse_comma_escape_def backslash_def comma_def

lemmas graph_defs = delete_creator_def creators_consuming_def delete_creators_with_input_files_def
  register_creator_def

lemmas scheduler_defs = file_matches_def make_creator_def build_creator_def build_new_creators_def
  delete_files_def heap_push_def push_consumers_def skips_creator_def process_creator_def
  process_files_def add_or_update_files_def new_scheduler_def get_hashable_matchgroups_def
  get_aggregated_modified_time_def get_newest_modified_time_def get_oldest_modified_time_def
  py_max_def py_min_def collect_times.simps float_info_max_def

lemmas example_defs = ex_os_def md_regex_def md_producer_def ex_disk_def enumerate_eq_zip Let_def
  eval_nat_numeral

text \<open>The state that the scheduler of \<open>md_producer t\<close> is in after \<open>a.md\<close> has been added.\<close>

definition ex_index :: CreatorIndexType where
  "ex_index = (0, [(''name'', Some ''a'')])"

definition ex_creator :: "real \<Rightarrow> (string \<Rightarrow> node option) creator" where
  "ex_creator t =
     \<lparr>flat_input_paths = [''a.md''], flat_output_paths = [''out/a.html''],
      creator_function = (\<lambda>fs. Some (fs(''out/a.html'' \<mapsto> File t)))\<rparr>"

definition ex_filecache :: database where
  "ex_filecache =
     [''producer0_fieldsrc_matches'' \<mapsto>
        \<lparr>columns = [''group_name''],
         rows = [\<lparr>filename = ''a.md'', is_updated = 0,
                  group_values = [(''group_name'', Some ''a'')]\<rparr>]\<rparr>]"

definition ex_sched :: "real \<Rightarrow> (string \<Rightarrow> node option) scheduler" where
  "ex_sched t =
     \<lparr>producer_list = [md_producer t],
      creator_list = [ex_index \<mapsto> ex_creator t],
      output_file_maps = [''out/a.html'' \<mapsto> ex_index],
      input_file_maps = [''a.md'' \<mapsto> [ex_index]],
      filecache = ex_filecache\<rparr>"

text \<open>The disk after the action has stamped \<open>out/a.html\<close> with the time \<open>t\<close>.\<close>

definition ex_disk_built :: "real \<Rightarrow> string \<Rightarrow> node option" where
  "ex_disk_built t = [''a.md'' \<mapsto> File 5, ''out'' \<mapsto> Directory [], ''out/a.html'' \<mapsto> File t]"

text \<open>A producer without outputs: its action checks \<open>name.md\<close> and writes nothing.\<close>

definition lint_producer :: "(string \<Rightarrow> node option) producer" where
  "lint_producer =
     (md_producer 0)
       \<lparr>paths := (\<lambda>new_element groups.
                   (case map_of new_element ''src'' of Some (PathValue f) \<Rightarrow> [f] | _ \<Rightarrow> [], [])),
        producer_function := (\<lambda>ins outs fs. Some fs)\<rparr>"

definition lint_creator :: "(string \<Rightarrow> node option) creator" where
  "lint_creator =
     \<lparr>flat_input_paths = [''a.md''], flat_output_paths = [], creator_function = (\<lambda>fs. Some fs)\<rparr>"

definition lint_sched :: "(string \<Rightarrow> node option) scheduler" where
  "lint_sched =
     \<lparr>producer_list = [lint_producer],
      creator_list = [ex_index \<mapsto> lint_creator],
      output_file_maps = Map.empty,
      input_file_maps = [''a.md'' \<mapsto> [ex_index]],
      filecache = ex_filecache\<rparr>"

lemmas example_state_defs = ex_index_def ex_creator_def ex_filecache_def ex_sched_def
  ex_disk_built_def lint_producer_def lint_creator_def lint_sched_def

text \<open>
  A producer whose outputs collide: \<open>name.md\<close> is rendered to \<open>out/name.html\<close>, but every
  \<open>name.txt\<close> is rendered to \<open>out/index.html\<close>. Both \<open>a.md\<close> and \<open>a.txt\<close> give the
  identity of the group \<open>name = a\<close>.
\<close>

definition page_regex :: "string \<Rightarrow> groupdict option" where
  "page_regex p =
     (if 3 < length p \<and> drop (length p - 3) p = ''.md''
      then Some [(''name'', Some (take (length p - 3) p))]
      else if 4 < length p \<and> drop (length p - 4) p = ''.txt''
      then Some [(''name'', Some (take (length p - 4) p))]
      else None)"

definition page_outputs :: "(string \<times> field_value) list \<Rightarrow> groupdict \<Rightarrow> string list" where
  "page_outputs new_element groups =
     (case (map_of new_element ''src'', map_of groups ''name'') of
        (Some (PathValue f), Some (Some n)) \<Rightarrow>
          if drop (length f - 4) f = ''.txt'' then [''out/index.html''] else [''out/'' @ n @ ''.html'']
      | _ \<Rightarrow> [])"

definition page_producer :: "(string \<Rightarrow> node option) producer" where
  "page_producer =
     (md_producer 6)
       \<lparr>regex_field_patterns := [(''src'', page_regex)],
        paths := (\<lambda>new_element groups.
                   (case map_of new_element ''src'' of Some (PathValue f) \<Rightarrow> [f] | _ \<Rightarrow> [],
                    page_outputs new_element groups))\<rparr>"

definition page_creator :: "string \<Rightarrow> string \<Rightarrow> (string \<Rightarrow> node option) creator" where
  "page_creator source target =
     \<lparr>flat_input_paths = [source], flat_output_paths = [target],
      creator_function = (\<lambda>fs. Some (fs(target \<mapsto> File 6)))\<rparr>"

definition index_index :: CreatorIndexType where
  "index_index = (0, [(''name'', Some ''index'')])"

text \<open>The state after \<open>a.md\<close> and \<open>index.md\<close> have been added.\<close>

definition page_sched :: "(string \<Rightarrow> node option) scheduler" where
  "page_sched =
     \<lparr>producer_list = [page_producer],
      creator_list = [ex_index \<mapsto> page_creator ''a.md'' ''out/a.html'',
                      index_index \<mapsto> page_creator ''index.md'' ''out/index.html''],
      output_file_maps = [''out/a.html'' \<mapsto> ex_index, ''out/index.html'' \<mapsto> index_index],
      input_file_maps = [''a.md'' \<mapsto> [ex_index], ''index.md'' \<mapsto> [index_index]],
      filecache =
        [''producer0_fieldsrc_matches'' \<mapsto>
           \<lparr>columns = [''group_name''],
            rows = [\<lparr>filename = ''a.md'', is_updated = 0,
                     group_values = [(''group_name'', Some ''a'')]\<rparr>,
                    \<lparr>filename = ''index.md'', is_updated = 0,
                     group_values = [(''group_name'', Some ''index'')]\<rparr>]\<rparr>]\<rparr>"

lemmas page_defs = page_regex_def page_outputs_def page_producer_def page_creator_def
  index_index_def page_sched_def

text \<open>The world that the construction of the scheduler of \<open>md_producer t\<close> on \<open>ex_disk\<close> leaves.\<close>

definition ex_world :: "real \<Rightarrow> (string \<Rightarrow> node option) world" where
  "ex_world t = \<lparr>sched = ex_sched t, disk = ex_disk_built t, executed = [ex_index]\<rparr>"

text \<open>
  The fields for which a producer has a regex are fields that its
  \<open>input_path_patterns_dict()\<close> declares with a pattern that is not empty. The class
  \<open>GenericProducer\<close> is not among the sources; the scheduler creates the tables from the
  first and clears the flags through the second.
\<close>

definition fields_declared :: "'fs producer list \<Rightarrow> bool" where
  "fields_declared producers \<longleftrightarrow>
     (\<forall>producer \<in> set producers. \<forall>field_name \<in> fst ` set (regex_field_patterns producer).
        field_name \<in> fst ` set (active_fields producer))"

text \<open>The row of the cursor for one group of the join.\<close>

definition result_row :: "select_query \<Rightarrow> row list list \<Rightarrow> (string \<times> cell) list" where
  "result_row q grp = map (column_value q grp) (select_columns q)"

text \<open>
  The list-field example of the specification: the list field \<open>srcs\<close> matches
  \<open>src/mod/file.c\<close> and the field \<open>hdr\<close> matches \<open>inc/mod.h\<close>; the two share the group
  \<open>mod\<close>. The creator writes \<open>out/mod.o\<close>.
\<close>

definition srcs_regex :: "string \<Rightarrow> groupdict option" where
  "srcs_regex p =
     (let r = drop 4 p; m = takeWhile (\<lambda>c. c \<noteq> CHR ''/'') r
      in if take 4 p = ''src/'' \<and> m \<noteq> [] \<and> length m < length r
            \<and> drop (length p - 2) p = ''.c''
         then Some [(''mod'', Some m)] else None)"

definition hdr_regex :: "string \<Rightarrow> groupdict option" where
  "hdr_regex p =
     (if take 4 p = ''inc/'' \<and> 6 < length p \<and> drop (length p - 2) p = ''.h''
      then Some [(''mod'', Some (take (length p - 6) (drop 4 p)))] else None)"

definition c_producer :: "(string \<Rightarrow> node option) producer" where
  "c_producer =
     \<lparr>regex_field_patterns = [(''srcs'', srcs_regex), (''hdr'', hdr_regex)],
      get_field_id = (\<lambda>field_name. field_name),
      get_match_group_id = (\<lambda>group_name. group_name),
      get_match_groups = (\<lambda>field_name. [''mod'']),
      get_all_match_groups = [''mod''],
      input_path_patterns_dict =
        [(''srcs'', ListPattern [''src/(?P<mod>[a-z]+)/.*[.]c'']),
         (''hdr'', StrPattern ''inc/(?P<mod>[a-z]+)[.]h'')],
      paths = (\<lambda>new_element groups.
                 ((case map_of new_element ''srcs'' of Some (ListValue fs) \<Rightarrow> fs | _ \<Rightarrow> [])
                  @ (case map_of new_element ''hdr'' of Some (PathValue f) \<Rightarrow> [f] | _ \<Rightarrow> []),
                  case map_of groups ''mod'' of Some (Some m) \<Rightarrow> [''out/'' @ m @ ''.o''] | _ \<Rightarrow> [])),
      producer_function = (\<lambda>ins outs fs. Some (fold (\<lambda>out fs. fs(out \<mapsto> File 6)) outs fs))\<rparr>"

text \<open>The match store after \<open>src/X/b.c\<close>, \<open>src/X/a.c\<close> and \<open>inc/X.h\<close> have been stored.\<close>

definition c_filecache :: database where
  "c_filecache =
     [''producer0_fieldsrcs_matches'' \<mapsto>
        \<lparr>columns = [''group_mod''],
         rows = [\<lparr>filename = ''src/X/b.c'', is_updated = 1, group_values = [(''group_mod'', Some ''X'')]\<rparr>,
                 \<lparr>filename = ''src/X/a.c'', is_updated = 1, group_values = [(''group_mod'', Some ''X'')]\<rparr>]\<rparr>,
      ''producer0_fieldhdr_matches'' \<mapsto>
        \<lparr>columns = [''group_mod''],
         rows = [\<lparr>filename = ''inc/X.h'', is_updated = 0, group_values = [(''group_mod'', Some ''X'')]\<rparr>]\<rparr>]"

lemmas c_defs = srcs_regex_def hdr_regex_def c_producer_def c_filecache_def result_row_def

text \<open>
  A producer whose creator lists its source twice, as the page and as a dependency of the
  page, and the states its scheduler is in after the construction with \<open>a.md\<close> and after
  the call of \<open>add_or_update_files\<close> with \<open>a.md\<close> that follows.
\<close>

definition dup_producer :: "(string \<Rightarrow> node option) producer" where
  "dup_producer =
     (md_producer 6)
       \<lparr>paths := (\<lambda>new_element groups.
                   (case map_of new_element ''src'' of Some (PathValue f) \<Rightarrow> [f, f] | _ \<Rightarrow> [],
                    case map_of groups ''name'' of
                      Some (Some n) \<Rightarrow> [''out/'' @ n @ ''.html''] | _ \<Rightarrow> []))\<rparr>"

definition dup_creator :: "(string \<Rightarrow> node option) creator" where
  "dup_creator =
     \<lparr>flat_input_paths = [''a.md'', ''a.md''], flat_output_paths = [''out/a.html''],
      creator_function = (\<lambda>fs. Some (fs(''out/a.html'' \<mapsto> File 6)))\<rparr>"

definition dup_world :: "(string \<Rightarrow> node option) world" where
  "dup_world =
     \<lparr>sched = \<lparr>producer_list = [dup_producer],
                creator_list = [ex_index \<mapsto> dup_creator],
                output_file_maps = [''out/a.html'' \<mapsto> ex_index],
                input_file_maps = [''a.md'' \<mapsto> [ex_index]],
                filecache = ex_filecache\<rparr>,
      disk = ex_disk_built 6, executed = [ex_index]\<rparr>"

definition dup_sched_raised :: "(string \<Rightarrow> node option) scheduler" where
  "dup_sched_raised =
     \<lparr>producer_list = [dup_producer],
      creator_list = [ex_index \<mapsto> dup_creator],
      output_file_maps = Map.empty,
      input_file_maps = Map.empty,
      filecache = ex_filecache\<rparr>"

lemmas dup_defs = dup_producer_def dup_creator_def dup_world_def dup_sched_raised_def

text \<open>
  The world that the construction of the scheduler of \<open>page_producer\<close> with \<open>a.md\<close> and
  \<open>index.md\<close> leaves, on a disk that also holds \<open>b.txt\<close>.
\<close>

definition page_disk :: "string \<Rightarrow> node option" where
  "page_disk = [''a.md'' \<mapsto> File 5, ''index.md'' \<mapsto> File 5, ''b.txt'' \<mapsto> File 5,
                ''out'' \<mapsto> Directory []]"

definition page_world :: "(string \<Rightarrow> node option) world" where
  "page_world =
     \<lparr>sched = page_sched,
      disk = page_disk(''out/a.html'' \<mapsto> File 6, ''out/index.html'' \<mapsto> File 6),
      executed = [ex_index, index_index]\<rparr>"

text \<open>
  Two producers with a cascade between their creators. The first renders \<open>name.md\<close> to
  \<open>out/name.html\<close> and also reads the generated file \<open>gen/site.cfg\<close>, which matches no
  field; the second generates \<open>gen/site.cfg\<close> from \<open>name.src\<close>. The action of the first
  stamps its output with the time \<open>t\<close>, the action of the second with the time 7.
\<close>

definition src_regex :: "string \<Rightarrow> groupdict option" where
  "src_regex p = (if 4 < length p \<and> drop (length p - 4) p = ''.src''
                  then Some [(''name'', Some (take (length p - 4) p))] else None)"

definition html_producer :: "real \<Rightarrow> (string \<Rightarrow> node option) producer" where
  "html_producer t =
     (md_producer t)
       \<lparr>paths := (\<lambda>new_element groups.
                   (case map_of new_element ''src'' of
                      Some (PathValue f) \<Rightarrow> [f, ''gen/site.cfg''] | _ \<Rightarrow> [],
                    case map_of groups ''name'' of
                      Some (Some n) \<Rightarrow> [''out/'' @ n @ ''.html''] | _ \<Rightarrow> []))\<rparr>"

definition cfg_producer :: "(string \<Rightarrow> node option) producer" where
  "cfg_producer =
     (md_producer 7)
       \<lparr>regex_field_patterns := [(''src'', src_regex)],
        paths := (\<lambda>new_element groups.
                   (case map_of new_element ''src'' of Some (PathValue f) \<Rightarrow> [f] | _ \<Rightarrow> [],
                    [''gen/site.cfg'']))\<rparr>"

definition cfg_index :: CreatorIndexType where
  "cfg_index = (1, [(''name'', Some ''z'')])"

definition site_disk :: "string \<Rightarrow> node option" where
  "site_disk = [''a.md'' \<mapsto> File 5, ''z.src'' \<mapsto> File 5, ''out'' \<mapsto> Directory [],
                ''gen'' \<mapsto> Directory []]"

text \<open>The scheduler of the two producers before any file has been added.\<close>

definition site_sched :: "real \<Rightarrow> (string \<Rightarrow> node option) scheduler" where
  "site_sched t =
     \<lparr>producer_list = [html_producer t, cfg_producer],
      creator_list = Map.empty, output_file_maps = Map.empty, input_file_maps = Map.empty,
      filecache = [''producer0_fieldsrc_matches'' \<mapsto> \<lparr>columns = [''group_name''], rows = []\<rparr>,
                   ''producer1_fieldsrc_matches'' \<mapsto> \<lparr>columns = [''group_name''], rows = []\<rparr>]\<rparr>"

definition site_world :: "real \<Rightarrow> (string \<Rightarrow> node option) world" where
  "site_world t = \<lparr>sched = site_sched t, disk = site_disk, executed = []\<rparr>"

text \<open>
  The creators of the two producers for \<open>a.md\<close> and \<open>z.src\<close>; the world that the first
  call of \<open>add_or_update_files\<close> with both paths leaves, in which only the second creator
  is stored; and the scheduler in which both are.
\<close>

definition html_creator :: "real \<Rightarrow> (string \<Rightarrow> node option) creator" where
  "html_creator t =
     \<lparr>flat_input_paths = [''a.md'', ''gen/site.cfg''], flat_output_paths = [''out/a.html''],
      creator_function = (\<lambda>fs. Some (fs(''out/a.html'' \<mapsto> File t)))\<rparr>"

definition cfg_creator :: "(string \<Rightarrow> node option) creator" where
  "cfg_creator =
     \<lparr>flat_input_paths = [''z.src''], flat_output_paths = [''gen/site.cfg''],
      creator_function = (\<lambda>fs. Some (fs(''gen/site.cfg'' \<mapsto> File 7)))\<rparr>"

definition site_filecache :: database where
  "site_filecache =
     [''producer0_fieldsrc_matches'' \<mapsto>
        \<lparr>columns = [''group_name''],
         rows = [\<lparr>filename = ''a.md'', is_updated = 0,
                  group_values = [(''group_name'', Some ''a'')]\<rparr>]\<rparr>,
      ''producer1_fieldsrc_matches'' \<mapsto>
        \<lparr>columns = [''group_name''],
         rows = [\<lparr>filename = ''z.src'', is_updated = 0,
                  group_values = [(''group_name'', Some ''z'')]\<rparr>]\<rparr>]"

definition site_world_once :: "real \<Rightarrow> (string \<Rightarrow> node option) world" where
  "site_world_once t =
     \<lparr>sched = \<lparr>producer_list = [html_producer t, cfg_producer],
                creator_list = [cfg_index \<mapsto> cfg_creator],
                output_file_maps = [''gen/site.cfg'' \<mapsto> cfg_index],
                input_file_maps = [''z.src'' \<mapsto> [cfg_index]],
                filecache = site_filecache\<rparr>,
      disk = site_disk(''out/a.html'' \<mapsto> File t, ''gen/site.cfg'' \<mapsto> File 7),
      executed = [ex_index, cfg_index]\<rparr>"

definition site_sched_rebuilt :: "real \<Rightarrow> (string \<Rightarrow> node option) scheduler" where
  "site_sched_rebuilt t =
     \<lparr>producer_list = [html_producer t, cfg_producer],
      creator_list = [ex_index \<mapsto> html_creator t, cfg_index \<mapsto> cfg_creator],
      output_file_maps = [''out/a.html'' \<mapsto> ex_index, ''gen/site.cfg'' \<mapsto> cfg_index],
      input_file_maps = [''a.md'' \<mapsto> [ex_index], ''gen/site.cfg'' \<mapsto> [ex_index],
                         ''z.src'' \<mapsto> [cfg_index]],
      filecache = site_filecache\<rparr>"

lemmas site_defs = src_regex_def html_producer_def cfg_producer_def cfg_index_def site_disk_def
  site_sched_def html_creator_def cfg_creator_def site_filecache_def site_world_def
  site_world_once_def site_sched_rebuilt_def

section \<open>The escape round trip\<close>

lemma sql_escape_Nil: "sql_escape [] = []"
  by (simp add: sql_escape_def sql_replace_def)

lemma sql_escape_Cons:
  "sql_escape (c # cs) =
     (if c = backslash then [backslash, backslash]
      else if c = comma then [backslash, comma] else [c]) @ sql_escape cs"
  by (simp add: sql_escape_def sql_replace_def backslash_def comma_def)

lemma parse_loop_escaped_name:
  assumes "backslash \<notin> set name" and "lc \<noteq> Some backslash"
  shows "\<exists>lc'. lc' \<noteq> Some backslash \<and>
           parse_loop (done @ [cur]) lc (sql_escape name @ rest) =
           parse_loop (done @ [cur @ name]) lc' rest"
  using assms
proof (induction name arbitrary: cur lc)
  case Nil
  then show ?case by (auto simp: sql_escape_Nil)
next
  case (Cons c name)
  from Cons.prems have c: "c \<noteq> backslash" and name: "backslash \<notin> set name" by auto
  have cb: "comma \<noteq> backslash" by (simp add: comma_def backslash_def)
  have "Some c \<noteq> Some backslash" using c by simp
  from Cons.IH [OF name this, of "cur @ [c]"]
  obtain lc' where lc': "lc' \<noteq> Some backslash"
    and eq: "parse_loop (done @ [cur @ [c]]) (Some c) (sql_escape name @ rest) =
             parse_loop (done @ [(cur @ [c]) @ name]) lc' rest" by blast
  show ?case
  proof (cases "c = comma")
    case True
    have "parse_loop (done @ [cur]) lc (sql_escape (c # name) @ rest) =
          parse_loop (done @ [cur @ [c]]) (Some c) (sql_escape name @ rest)"
      using True cb Cons.prems(2) by (simp add: sql_escape_Cons)
    with eq lc' show ?thesis by auto
  next
    case False
    have "parse_loop (done @ [cur]) lc (sql_escape (c # name) @ rest) =
          parse_loop (done @ [cur @ [c]]) (Some c) (sql_escape name @ rest)"
      using False c by (simp add: sql_escape_Cons)
    with eq lc' show ?thesis by auto
  qed
qed

lemma parse_loop_escaped_names:
  assumes "\<forall>name \<in> set (name0 # names). backslash \<notin> set name" and "lc \<noteq> Some backslash"
  shows "parse_loop (done @ [cur]) lc (concat_with_escape (name0 # names)) = done @ [cur @ name0] @ names"
  using assms
proof (induction names arbitrary: "done" cur lc name0)
  case Nil
  from Nil.prems have "backslash \<notin> set name0" by simp
  from parse_loop_escaped_name [OF this Nil.prems(2), of "done" cur "[]"]
  show ?case by (auto simp: concat_with_escape_def)
next
  case (Cons name1 names)
  from Cons.prems have n0: "backslash \<notin> set name0"
    and rest: "\<forall>name \<in> set (name1 # names). backslash \<notin> set name" by auto
  have cb: "Some comma \<noteq> Some backslash" by (simp add: comma_def backslash_def)
  from parse_loop_escaped_name [OF n0 Cons.prems(2), of "done" cur "comma # concat_with_escape (name1 # names)"]
  obtain lc' where lc': "lc' \<noteq> Some backslash"
    and eq: "parse_loop (done @ [cur]) lc (sql_escape name0 @ comma # concat_with_escape (name1 # names)) =
             parse_loop (done @ [cur @ name0]) lc' (comma # concat_with_escape (name1 # names))"
    by blast
  have "parse_loop (done @ [cur @ name0]) lc' (comma # concat_with_escape (name1 # names)) =
        parse_loop ((done @ [cur @ name0]) @ [[]]) (Some comma) (concat_with_escape (name1 # names))"
    using lc' by simp
  also have "\<dots> = (done @ [cur @ name0]) @ [[] @ name1] @ names"
    by (rule Cons.IH [OF rest cb])
  finally show ?case using eq by (simp add: concat_with_escape_def)
qed

lemma roundtrip_without_backslash:
  assumes "names \<noteq> []" and "\<forall>name \<in> set names. backslash \<notin> set name"
  shows "parse_comma_escape (concat_with_escape names) = names"
proof -
  from assms(1) obtain name0 rest where names: "names = name0 # rest" by (cases names) auto
  have "parse_loop ([] @ [[]]) None (concat_with_escape (name0 # rest)) = [] @ [[] @ name0] @ rest"
    by (rule parse_loop_escaped_names) (use assms(2) names in auto)
  then show ?thesis by (simp add: parse_comma_escape_def names)
qed

text \<open>
  C1. The round trip \<open>parse_comma_escape (concat_with_escape names) = names\<close> is what the
  parser is written for, and it holds for names without a backslash
  (\<open>roundtrip_without_backslash\<close>). It fails as soon as a name ends in a backslash and
  another name follows: the parser compares each character with the character read
  before it, also when that one was itself the second half of an escape, so the
  separating comma after \<open>a\\\<close> is read as escaped. The two names \<open>a\\<close> and \<open>b\<close>
  come back as the single name \<open>a\,b\<close>.
\<close>

theorem parse_comma_escape_trailing_backslash:
  "parse_comma_escape (concat_with_escape [[CHR ''a'', CHR 0x5C], ''b''])
     = [[CHR ''a'', CHR 0x5C, CHR '','', CHR ''b'']]
   \<and> parse_comma_escape (concat_with_escape [[CHR ''a'', CHR 0x5C], ''b''])
     \<noteq> [[CHR ''a'', CHR 0x5C], ''b'']"
  by (simp add: parse_comma_escape_def concat_with_escape_def sql_escape_def sql_replace_def
      backslash_def comma_def)

section \<open>The staleness test against its specification\<close>

lemma contributions_Nil: "contributions os fs [] = {}"
  by (simp add: contributions_def)

lemma contributions_append:
  "contributions os fs (xs @ ys) = contributions os fs xs \<union> contributions os fs ys"
  by (auto simp: contributions_def)

lemma contributions_missing:
  "\<not> os_path_exists os fs path \<Longrightarrow> contributions os fs (path # rest) = insert None (contributions os fs rest)"
  by (auto simp: contributions_def intro: contributes.intros elim: contributes.cases)

lemma contributions_file:
  "os_path_exists os fs path \<Longrightarrow> \<not> os_path_isdir os fs path \<Longrightarrow>
   contributions os fs (path # rest) = insert (Some (os_path_getmtime os fs path)) (contributions os fs rest)"
  by (auto simp: contributions_def intro: contributes.intros elim: contributes.cases)

lemma contributes_dir:
  "os_path_exists os fs path \<Longrightarrow> os_path_isdir os fs path \<Longrightarrow>
   contributes os fs path x \<longleftrightarrow>
     (\<exists>subpath \<in> set (os_listdir os fs path). contributes os fs (os_path_join os path subpath) x)"
  by (subst contributes.simps) auto

lemma contributions_dir:
  "os_path_exists os fs path \<Longrightarrow> os_path_isdir os fs path \<Longrightarrow>
   contributions os fs (path # rest) =
     contributions os fs (rest @ map (os_path_join os path) (os_listdir os fs path))"
  by (auto simp: contributions_def contributes_dir)

lemma collect_times_sound:
  fixes os :: "'fs os_iface"
  assumes ret: "collect_times os fs d path_list time_list = Some r"
  shows "set r = set time_list \<union> case_option d id ` contributions os fs path_list"
proof (rule collect_times.raw_induct
    [where P = "\<lambda>os fs d ps tl r. set r = set tl \<union> case_option d id ` contributions os fs ps",
      OF _ ret])
  fix f and os :: "'fs os_iface" and fs d ps tl r'
  assume IH: "\<And>(os :: 'fs os_iface) fs d ps tl r. f os fs d ps tl = Some r \<Longrightarrow>
      set r = set tl \<union> case_option d id ` contributions os fs ps"
    and eq: "(case ps of
        [] \<Rightarrow> Some tl
      | path # rest \<Rightarrow>
          if \<not> os_path_exists os fs path
          then f os fs d rest (tl @ [d])
          else if os_path_isdir os fs path
          then f os fs d (rest @ map (os_path_join os path) (os_listdir os fs path)) tl
          else f os fs d rest (tl @ [os_path_getmtime os fs path])) = Some r'"
  show "set r' = set tl \<union> case_option d id ` contributions os fs ps"
  proof (cases ps)
    case Nil
    with eq show ?thesis by (simp add: contributions_Nil)
  next
    case (Cons path rest)
    consider (m) "\<not> os_path_exists os fs path"
      | (d) "os_path_exists os fs path" "os_path_isdir os fs path"
      | (f) "os_path_exists os fs path" "\<not> os_path_isdir os fs path" by blast
    then show ?thesis
    proof cases
      case m
      with eq Cons have "f os fs d rest (tl @ [d]) = Some r'" by simp
      from IH [OF this] m Cons show ?thesis by (simp add: contributions_missing)
    next
      case d
      with eq Cons have "f os fs d (rest @ map (os_path_join os path) (os_listdir os fs path)) tl = Some r'" by simp
      from IH [OF this] d Cons show ?thesis by (simp add: contributions_dir)
    next
      case f
      with eq Cons have "f os fs d rest (tl @ [os_path_getmtime os fs path]) = Some r'" by simp
      from IH [OF this] f Cons show ?thesis by (simp add: contributions_file)
    qed
  qed
qed

lemma py_max_Max: "xs \<noteq> [] \<Longrightarrow> py_max xs = Max (set xs)"
proof (cases xs)
  case (Cons a list)
  have "Max (set (a # list)) = fold max list a" by (rule Max.set_eq_fold)
  then show ?thesis using Cons by (simp add: py_max_def foldl_conv_fold max.commute)
qed simp

lemma py_min_Min: "xs \<noteq> [] \<Longrightarrow> py_min xs = Min (set xs)"
proof (cases xs)
  case (Cons a list)
  have "Min (set (a # list)) = fold min list a" by (rule Min.set_eq_fold)
  then show ?thesis using Cons by (simp add: py_min_def foldl_conv_fold min.commute)
qed simp

lemma get_aggregated_modified_time_spec:
  fixes os :: "'fs os_iface"
  assumes "get_aggregated_modified_time os fs path_list aggregator d = Some t"
  shows "\<exists>r. set r = case_option d id ` contributions os fs path_list
           \<and> t = (if r = [] then d else aggregator r)"
proof -
  from assms obtain r where r: "collect_times os fs d path_list [] = Some r"
    and t: "t = (if length r = 0 then d else aggregator r)"
    by (auto simp: get_aggregated_modified_time_def split: option.splits)
  from collect_times_sound [OF r] t show ?thesis by auto
qed

lemma get_oldest_modified_time_spec:
  fixes os :: "'fs os_iface"
  assumes "get_oldest_modified_time os fs path_list = Some t"
  shows "finite (contributions os fs path_list)
       \<and> t = (if contributions os fs path_list = {} then 0
              else Min (case_option 0 id ` contributions os fs path_list))"
proof -
  from get_aggregated_modified_time_spec [OF assms [unfolded get_oldest_modified_time_def]]
  obtain r where r: "set r = case_option 0 id ` contributions os fs path_list"
    and t: "t = (if r = [] then 0 else py_min r)" by blast
  have inj: "inj_on (case_option (0::real) id) (contributions os fs path_list - {None})"
    by (auto simp: inj_on_def split: option.splits)
  have "case_option (0::real) id ` (contributions os fs path_list - {None}) \<subseteq> set r"
    unfolding r by blast
  then have "finite (case_option (0::real) id ` (contributions os fs path_list - {None}))"
    by (rule finite_subset) simp
  from this inj have "finite (contributions os fs path_list - {None})" by (rule finite_imageD)
  then have fin: "finite (contributions os fs path_list)" by simp
  have e: "r = [] \<longleftrightarrow> contributions os fs path_list = {}" using r by (metis image_is_empty set_empty)
  have "r \<noteq> [] \<Longrightarrow> py_min r = Min (case_option 0 id ` contributions os fs path_list)"
    using py_min_Min [of r] r by simp
  with t e fin show ?thesis by auto
qed

lemma get_newest_modified_time_spec:
  fixes os :: "'fs os_iface"
  assumes "get_newest_modified_time os fs path_list = Some t"
  shows "finite (contributions os fs path_list)
       \<and> t = (if contributions os fs path_list = {} then float_info_max
              else Max (case_option float_info_max id ` contributions os fs path_list))"
proof -
  from get_aggregated_modified_time_spec [OF assms [unfolded get_newest_modified_time_def]]
  obtain r where r: "set r = case_option float_info_max id ` contributions os fs path_list"
    and t: "t = (if r = [] then float_info_max else py_max r)" by blast
  have inj: "inj_on (case_option float_info_max id) (contributions os fs path_list - {None})"
    by (auto simp: inj_on_def split: option.splits)
  have "case_option float_info_max id ` (contributions os fs path_list - {None}) \<subseteq> set r"
    unfolding r by blast
  then have "finite (case_option float_info_max id ` (contributions os fs path_list - {None}))"
    by (rule finite_subset) simp
  from this inj have "finite (contributions os fs path_list - {None})" by (rule finite_imageD)
  then have fin: "finite (contributions os fs path_list)" by simp
  have e: "r = [] \<longleftrightarrow> contributions os fs path_list = {}" using r by (metis image_is_empty set_empty)
  have "r \<noteq> [] \<Longrightarrow> py_max r = Max (case_option float_info_max id ` contributions os fs path_list)"
    using py_max_Max [of r] r by simp
  with t e fin show ?thesis by auto
qed

lemma all_files_exist_iff:
  "all_files_exist os fs files \<longleftrightarrow> (\<forall>file \<in> set files. os_path_exists os fs file)"
  by (induction files) auto

lemma float_info_max_nonneg: "0 \<le> float_info_max"
proof -
  have "(2::real) ^ 971 \<le> 2 ^ 1024" by (rule power_increasing) simp_all
  then show ?thesis by (simp add: float_info_max_def)
qed

lemma contributes_mtime:
  "contributes os fs path x \<Longrightarrow> x = Some t \<Longrightarrow> \<exists>p. t = os_path_getmtime os fs p"
  by (induction rule: contributes.induct) auto

lemma contributions_bounded:
  assumes "\<forall>p. os_path_getmtime os fs p \<le> float_info_max"
    and "Some t \<in> contributions os fs path_list"
  shows "t \<le> float_info_max"
  using assms by (auto simp: contributions_def dest!: contributes_mtime)

lemma skips_creator_iff:
  fixes os :: "'fs os_iface"
  assumes mt: "\<forall>p. os_path_getmtime os fs p \<le> float_info_max"
    and ret: "skips_creator os fs creator = Some b"
  shows "b \<longleftrightarrow> \<not> stale os fs creator"
proof (cases "all_files_exist os fs (flat_output_paths creator)")
  case False
  with ret have "\<not> b" by (simp add: skips_creator_def)
  moreover from False have "stale os fs creator"
    by (auto simp: stale_def all_files_exist_iff)
  ultimately show ?thesis by simp
next
  case True
  let ?Cout = "contributions os fs (flat_output_paths creator)"
  let ?Cin = "contributions os fs (flat_input_paths creator)"
  from ret True obtain oldest newest
    where o: "get_oldest_modified_time os fs (flat_output_paths creator) = Some oldest"
      and n: "get_newest_modified_time os fs (flat_input_paths creator) = Some newest"
      and b: "b = (oldest > newest)"
    by (auto simp: skips_creator_def split: option.splits)
  from get_oldest_modified_time_spec [OF o]
  have fout: "finite ?Cout"
    and oldest: "oldest = (if ?Cout = {} then 0 else Min (case_option 0 id ` ?Cout))" by auto
  from get_newest_modified_time_spec [OF n]
  have fin: "finite ?Cin"
    and newest: "newest = (if ?Cin = {} then float_info_max
                           else Max (case_option float_info_max id ` ?Cin))" by auto
  have out_le: "oldest \<le> float_info_max"
  proof (cases "?Cout = {}")
    case True
    with oldest show ?thesis by (simp add: float_info_max_nonneg)
  next
    case False
    then obtain x where x: "x \<in> ?Cout" by blast
    have "case_option 0 id x \<le> float_info_max"
      using contributions_bounded [OF mt] x float_info_max_nonneg
      by (cases x) auto
    moreover have "Min (case_option 0 id ` ?Cout) \<le> case_option 0 id x"
      using fout x by (intro Min_le) auto
    ultimately show ?thesis using oldest False by simp
  qed
  have all_exist: "\<not> (\<exists>file \<in> set (flat_output_paths creator). \<not> os_path_exists os fs file)"
    using True by (simp add: all_files_exist_iff)
  consider (empty) "?Cin = {}" | (missing) "None \<in> ?Cin" | (files) "?Cin \<noteq> {}" "None \<notin> ?Cin"
    by blast
  then show ?thesis
  proof cases
    case empty
    with newest out_le b have "\<not> b" by simp
    with empty show ?thesis by (simp add: stale_def)
  next
    case missing
    have "float_info_max \<in> case_option float_info_max id ` ?Cin"
      using missing by force
    moreover have "\<forall>y \<in> case_option float_info_max id ` ?Cin. y \<le> float_info_max"
      using contributions_bounded [OF mt] by (auto split: option.splits)
    ultimately have "Max (case_option float_info_max id ` ?Cin) = float_info_max"
      using fin by (intro Max_eqI) auto
    with newest missing out_le b have "\<not> b" by auto
    with missing show ?thesis by (simp add: stale_def)
  next
    case files
    have "case_option float_info_max id ` ?Cin = {t. Some t \<in> ?Cin}"
      using files(2) by (force split: option.splits)
    with newest files have "newest = Max {t. Some t \<in> ?Cin}" by simp
    with b oldest files all_exist show ?thesis
      unfolding stale_def by (simp add: not_less [symmetric])
  qed
qed

text \<open>
  C2. In an iteration of the loop of \<open>process_files\<close> that returns without raising, the
  creator's function is run exactly when the creator is \<open>stale\<close>: some output file does not
  exist, or the oldest output is at most the newest input, where a directory stands for
  what is below it, a missing path for time 0 among the outputs and for a time later than
  all others among the inputs, and an empty collection for the same defaults. An exact tie
  between the oldest output and the newest input makes the creator run. When the creator is
  not stale the iteration changes nothing. The code writes the largest finite float for
  the time later than all others, so modification times are taken to be at most that.
\<close>

theorem process_creator_runs_iff_stale:
  fixes os :: "'fs os_iface"
  assumes mt: "\<forall>p. os_path_getmtime os (disk w) p \<le> float_info_max"
    and c: "creator_list (sched w) creator_index = Some creator"
    and ret: "process_creator os creator_index heap w = Some (None, heap', w')"
  shows "(executed w' = executed w @ [creator_index] \<longleftrightarrow> stale os (disk w) creator)
       \<and> (\<not> stale os (disk w) creator \<longrightarrow> w' = w \<and> heap' = heap)"
proof -
  from ret c obtain b where b: "skips_creator os (disk w) creator = Some b"
    by (auto simp: process_creator_def split: option.splits)
  from skips_creator_iff [OF mt b] have bs: "b \<longleftrightarrow> \<not> stale os (disk w) creator" .
  show ?thesis
  proof (cases b)
    case True
    with ret c b have "w' = w" "heap' = heap" by (auto simp: process_creator_def)
    with True bs show ?thesis by simp
  next
    case False
    with ret c b have "executed w' = executed w @ [creator_index]"
      by (auto simp: process_creator_def split: option.splits prod.splits)
    with False bs show ?thesis by simp
  qed
qed

theorem process_creator_runs_iff_stale_witness:
  "process_creator ex_os ex_index [] \<lparr>sched = ex_sched 5, disk = ex_disk_built 5, executed = []\<rparr>
     = Some (None, [], \<lparr>sched = ex_sched 5, disk = ex_disk_built 5, executed = [ex_index]\<rparr>)
   \<and> stale ex_os (ex_disk_built 5) (ex_creator 5)"
proof -
  let ?w = "\<lparr>sched = ex_sched 5, disk = ex_disk_built 5, executed = []\<rparr>"
  let ?w' = "\<lparr>sched = ex_sched 5, disk = ex_disk_built 5, executed = [ex_index]\<rparr>"
  have ret: "process_creator ex_os ex_index [] ?w = Some (None, [], ?w')"
    by (simp add: match_store_defs query_defs graph_defs scheduler_defs example_defs
        example_state_defs)
  have mt: "\<forall>p. os_path_getmtime ex_os (disk ?w) p \<le> float_info_max"
    by (simp add: ex_os_def ex_disk_built_def float_info_max_def)
  have c: "creator_list (sched ?w) ex_index = Some (ex_creator 5)"
    by (simp add: ex_sched_def)
  from process_creator_runs_iff_stale [OF mt c ret] ret show ?thesis by simp
qed

text \<open>
  C10. A creator without output files is never skipped. \<open>all_files_exist\<close> of the empty
  list is true and \<open>get_oldest_modified_time\<close> of the empty list is the default 0, so when
  the newest input time is at least 0 the test does not skip; and when the pass
  \<open>build_new_creators\<close> over the (empty) outputs does not raise, the iteration invokes the
  creator's function.
\<close>

theorem empty_outputs_never_skipped:
  fixes os :: "'fs os_iface"
  assumes outs: "flat_output_paths creator = []"
    and c: "creator_list (sched w) creator_index = Some creator"
    and newest: "get_newest_modified_time os (disk w) (flat_input_paths creator) = Some newest"
    and nonneg: "0 \<le> newest"
  shows "all_files_exist os (disk w) (flat_output_paths creator)
       \<and> get_oldest_modified_time os (disk w) (flat_output_paths creator) = Some 0
       \<and> skips_creator os (disk w) creator = Some False
       \<and> (\<forall>s1. build_new_creators (flat_output_paths creator) (sched w) = (None, s1) \<longrightarrow>
            (\<exists>e w'. process_creator os creator_index heap w = Some (e, heap, w')
                   \<and> executed w' = executed w @ [creator_index]))"
proof -
  have oldest: "get_oldest_modified_time os (disk w) (flat_output_paths creator) = Some 0"
    by (simp add: outs get_oldest_modified_time_def get_aggregated_modified_time_def
        collect_times.simps)
  have skip: "skips_creator os (disk w) creator = Some False"
    using nonneg oldest newest by (simp add: skips_creator_def outs)
  have run: "\<exists>e w'. process_creator os creator_index heap w = Some (e, heap, w')
                   \<and> executed w' = executed w @ [creator_index]"
    if "build_new_creators (flat_output_paths creator) (sched w) = (None, s1)" for s1
    using that c skip
    by (cases "creator_function creator (disk w)")
       (simp_all add: process_creator_def outs push_consumers_def)
  from oldest skip run show ?thesis by (simp add: outs)
qed

theorem empty_outputs_never_skipped_witness:
  "skips_creator ex_os ex_disk lint_creator = Some False
   \<and> process_creator ex_os ex_index [] \<lparr>sched = lint_sched, disk = ex_disk, executed = []\<rparr>
     = Some (None, [], \<lparr>sched = lint_sched, disk = ex_disk, executed = [ex_index]\<rparr>)"
proof -
  let ?w = "\<lparr>sched = lint_sched, disk = ex_disk, executed = []\<rparr>"
  have outs: "flat_output_paths lint_creator = []" by (simp add: lint_creator_def)
  have c: "creator_list (sched ?w) ex_index = Some lint_creator" by (simp add: lint_sched_def)
  have newest: "get_newest_modified_time ex_os (disk ?w) (flat_input_paths lint_creator) = Some 5"
    by (simp add: scheduler_defs example_defs example_state_defs)
  have ret: "process_creator ex_os ex_index [] ?w
      = Some (None, [], \<lparr>sched = lint_sched, disk = ex_disk, executed = [ex_index]\<rparr>)"
    by (simp add: match_store_defs query_defs graph_defs scheduler_defs example_defs
        example_state_defs)
  from empty_outputs_never_skipped [OF outs c newest, of "[]"] ret show ?thesis by simp
qed

section \<open>Registration and deletion in the creator graph\<close>

lemma delete_output_files_result:
  "delete_output_files ci files ofm = (None, ofm') \<Longrightarrow>
   ofm' = (\<lambda>file. if file \<in> set files then None else ofm file)"
proof (induction files arbitrary: ofm)
  case Nil
  then show ?case by simp
next
  case (Cons f files)
  from Cons.prems
  have "delete_output_files ci files (ofm(f := None)) = (None, ofm')"
    by (auto split: option.splits if_splits)
  from Cons.IH [OF this] show ?case by auto
qed

lemma without_creator_idem: "without_creator ci (without_creator ci entry) = without_creator ci entry"
  by (auto simp: without_creator_def split: option.splits)

lemma delete_input_files_result:
  "delete_input_files ci files ifm = (None, ifm') \<Longrightarrow>
   ifm' = (\<lambda>file. if file \<in> set files then without_creator ci (ifm file) else ifm file)"
proof (induction files arbitrary: ifm)
  case Nil
  then show ?case by simp
next
  case (Cons f files)
  from Cons.prems
  have rec: "delete_input_files ci files (ifm(f := without_creator ci (ifm f))) = (None, ifm')"
    by (auto simp: without_creator_def split: option.splits if_splits)
  from Cons.IH [OF rec] show ?case
    by (auto simp: without_creator_idem)
qed

lemma add_input_files_result:
  "add_input_files ci files ifm =
     (\<lambda>file. if file \<in> set files
             then Some (List.insert ci (case ifm file of None \<Rightarrow> [] | Some cs \<Rightarrow> cs))
             else ifm file)"
  by (induction files arbitrary: ifm) (auto simp: fun_eq_iff)

lemma add_output_files_result:
  "add_output_files ci files ofm = (\<lambda>file. if file \<in> set files then Some ci else ofm file)"
  by (induction files arbitrary: ofm) (auto simp: fun_eq_iff)

lemma check_duplicate_outputs_None:
  "check_duplicate_outputs s creator files = None \<longleftrightarrow>
     (\<forall>file \<in> set files. output_file_maps s file = None)"
  by (induction files) (auto split: option.splits)

lemma check_duplicate_outputs_Some:
  assumes "\<forall>file ci. output_file_maps s file = Some ci \<longrightarrow> creator_list s ci \<noteq> None"
    and "\<exists>file \<in> set files. output_file_maps s file \<noteq> None"
  shows "\<exists>file owner existing. file \<in> set files \<and> output_file_maps s file = Some owner
           \<and> creator_list s owner = Some existing
           \<and> check_duplicate_outputs s creator files = Some (DuplicateOutput existing creator)"
  using assms(2)
proof (induction files)
  case Nil
  then show ?case by simp
next
  case (Cons f files)
  show ?case
  proof (cases "output_file_maps s f")
    case None
    with Cons show ?thesis by auto
  next
    case (Some owner)
    with assms(1) obtain existing where "creator_list s owner = Some existing" by blast
    with Some have "f \<in> set (f # files) \<and> output_file_maps s f = Some owner
           \<and> creator_list s owner = Some existing
           \<and> check_duplicate_outputs s creator (f # files) = Some (DuplicateOutput existing creator)"
      by simp
    then show ?thesis by blast
  qed
qed

lemma delete_creator_result:
  assumes "delete_creator ci s = (None, s')"
  shows "\<exists>c. creator_list s ci = Some c
           \<and> s' = s\<lparr>output_file_maps := (\<lambda>file. if file \<in> set (flat_output_paths c) then None
                                                 else output_file_maps s file),
                     input_file_maps := (\<lambda>file. if file \<in> set (flat_input_paths c)
                                                then without_creator ci (input_file_maps s file)
                                                else input_file_maps s file),
                     creator_list := (creator_list s)(ci := None)\<rparr>"
proof -
  from assms obtain c ofm ifm where c: "creator_list s ci = Some c"
    and o: "delete_output_files ci (flat_output_paths c) (output_file_maps s) = (None, ofm)"
    and i: "delete_input_files ci (flat_input_paths c) (input_file_maps s) = (None, ifm)"
    and s': "s' = s\<lparr>output_file_maps := ofm, input_file_maps := ifm,
                     creator_list := (creator_list s)(ci := None)\<rparr>"
    by (auto simp: delete_creator_def split: option.splits prod.splits)
  from delete_output_files_result [OF o] delete_input_files_result [OF i] c s'
  show ?thesis by simp
qed

lemma delete_creator_graph_ok:
  assumes "graph_ok s" and "delete_creator ci s = (None, s')"
  shows "graph_ok s'"
proof -
  from delete_creator_result [OF assms(2)] obtain c where c: "creator_list s ci = Some c"
    and s': "s' = s\<lparr>output_file_maps := (\<lambda>file. if file \<in> set (flat_output_paths c) then None
                                                 else output_file_maps s file),
                     input_file_maps := (\<lambda>file. if file \<in> set (flat_input_paths c)
                                                then without_creator ci (input_file_maps s file)
                                                else input_file_maps s file),
                     creator_list := (creator_list s)(ci := None)\<rparr>" by blast
  from assms(1) have
    o1: "\<And>file cj. output_file_maps s file = Some cj \<Longrightarrow>
           \<exists>c'. creator_list s cj = Some c' \<and> file \<in> set (flat_output_paths c')"
    and o2: "\<And>cj c' file. creator_list s cj = Some c' \<Longrightarrow> file \<in> set (flat_output_paths c') \<Longrightarrow>
           output_file_maps s file = Some cj"
    and i1: "\<And>cj c' file. creator_list s cj = Some c' \<Longrightarrow> file \<in> set (flat_input_paths c') \<Longrightarrow>
           \<exists>cs. input_file_maps s file = Some cs \<and> cj \<in> set cs"
    and i2: "\<And>file cs cj. input_file_maps s file = Some cs \<Longrightarrow> cj \<in> set cs \<Longrightarrow>
           \<exists>c'. creator_list s cj = Some c' \<and> file \<in> set (flat_input_paths c')"
    unfolding graph_ok_def by blast+
  have "\<exists>c'. creator_list s' cj = Some c' \<and> f \<in> set (flat_output_paths c')"
    if "output_file_maps s' f = Some cj" for f cj
  proof -
    from that s' have f: "f \<notin> set (flat_output_paths c)" and m: "output_file_maps s f = Some cj"
      by (auto split: if_splits)
    from o1 [OF m] obtain c' where c': "creator_list s cj = Some c'" "f \<in> set (flat_output_paths c')"
      by blast
    with f c have "cj \<noteq> ci" by auto
    with c' s' show ?thesis by simp
  qed
  moreover have "output_file_maps s' f = Some cj"
    if "creator_list s' cj = Some c'" "f \<in> set (flat_output_paths c')" for cj c' f
  proof -
    from that s' have ne: "cj \<noteq> ci" and c': "creator_list s cj = Some c'" by (auto split: if_splits)
    from o2 [OF c' that(2)] have m: "output_file_maps s f = Some cj" .
    have "f \<notin> set (flat_output_paths c)"
    proof
      assume "f \<in> set (flat_output_paths c)"
      from o2 [OF c this] m ne show False by simp
    qed
    with m s' show ?thesis by simp
  qed
  moreover have "\<exists>cs. input_file_maps s' f = Some cs \<and> cj \<in> set cs"
    if "creator_list s' cj = Some c'" "f \<in> set (flat_input_paths c')" for cj c' f
  proof -
    from that s' have ne: "cj \<noteq> ci" and c': "creator_list s cj = Some c'" by (auto split: if_splits)
    from i1 [OF c' that(2)] obtain cs where cs: "input_file_maps s f = Some cs" "cj \<in> set cs"
      by blast
    with ne have "cj \<in> set (removeAll ci cs)" by simp
    then have "removeAll ci cs \<noteq> []" by (metis empty_iff empty_set)
    with cs s' \<open>cj \<in> set (removeAll ci cs)\<close> show ?thesis
      by (auto simp: without_creator_def)
  qed
  moreover have "\<exists>c'. creator_list s' cj = Some c' \<and> f \<in> set (flat_input_paths c')"
    if "input_file_maps s' f = Some cs'" "cj \<in> set cs'" for f cs' cj
  proof (cases "f \<in> set (flat_input_paths c)")
    case True
    with that s' obtain cs where cs: "input_file_maps s f = Some cs" "cs' = removeAll ci cs"
      by (auto simp: without_creator_def split: option.splits if_splits)
    with that have "cj \<in> set cs" "cj \<noteq> ci" by auto
    with i2 [OF cs(1)] s' show ?thesis by simp
  next
    case False
    with that s' have m: "input_file_maps s f = Some cs'" by simp
    from i2 [OF m that(2)] obtain c' where c': "creator_list s cj = Some c'" "f \<in> set (flat_input_paths c')"
      by blast
    with False c have "cj \<noteq> ci" by auto
    with c' s' show ?thesis by simp
  qed
  ultimately show ?thesis unfolding graph_ok_def by blast
qed


lemma register_creator_result:
  assumes "register_creator ci c s = (None, s')"
  shows "(\<forall>f \<in> set (flat_output_paths c). output_file_maps s f = None)
       \<and> s' = s\<lparr>creator_list := (creator_list s)(ci \<mapsto> c),
                 input_file_maps :=
                   (\<lambda>f. if f \<in> set (flat_input_paths c)
                        then Some (List.insert ci (case input_file_maps s f of None \<Rightarrow> [] | Some cs \<Rightarrow> cs))
                        else input_file_maps s f),
                 output_file_maps :=
                   (\<lambda>f. if f \<in> set (flat_output_paths c) then Some ci else output_file_maps s f)\<rparr>"
  using assms
  by (auto simp: register_creator_def check_duplicate_outputs_None add_input_files_result
      add_output_files_result split: option.splits)

lemma register_creator_graph_ok:
  assumes "graph_ok s" and fresh: "creator_list s ci = None"
    and "register_creator ci c s = (None, s')"
  shows "graph_ok s'"
proof -
  from register_creator_result [OF assms(3)]
  have free: "\<And>f. f \<in> set (flat_output_paths c) \<Longrightarrow> output_file_maps s f = None"
    and cl: "creator_list s' = (creator_list s)(ci \<mapsto> c)"
    and ifm: "input_file_maps s' =
                   (\<lambda>f. if f \<in> set (flat_input_paths c)
                        then Some (List.insert ci (case input_file_maps s f of None \<Rightarrow> [] | Some cs \<Rightarrow> cs))
                        else input_file_maps s f)"
    and ofm: "output_file_maps s' =
                   (\<lambda>f. if f \<in> set (flat_output_paths c) then Some ci else output_file_maps s f)"
    by auto
  from assms(1) have
    o1: "\<And>f cj. output_file_maps s f = Some cj \<Longrightarrow>
           \<exists>c'. creator_list s cj = Some c' \<and> f \<in> set (flat_output_paths c')"
    and o2: "\<And>cj c' f. creator_list s cj = Some c' \<Longrightarrow> f \<in> set (flat_output_paths c') \<Longrightarrow>
           output_file_maps s f = Some cj"
    and i1: "\<And>cj c' f. creator_list s cj = Some c' \<Longrightarrow> f \<in> set (flat_input_paths c') \<Longrightarrow>
           \<exists>cs. input_file_maps s f = Some cs \<and> cj \<in> set cs"
    and i2: "\<And>f cs cj. input_file_maps s f = Some cs \<Longrightarrow> cj \<in> set cs \<Longrightarrow>
           \<exists>c'. creator_list s cj = Some c' \<and> f \<in> set (flat_input_paths c')"
    unfolding graph_ok_def by blast+
  have "\<exists>c'. creator_list s' cj = Some c' \<and> f \<in> set (flat_output_paths c')"
    if "output_file_maps s' f = Some cj" for f cj
  proof (cases "f \<in> set (flat_output_paths c)")
    case True
    with that ofm cl show ?thesis by simp
  next
    case False
    with that ofm have "output_file_maps s f = Some cj" by simp
    from o1 [OF this] fresh cl show ?thesis by auto
  qed
  moreover have "output_file_maps s' f = Some cj"
    if "creator_list s' cj = Some c'" "f \<in> set (flat_output_paths c')" for cj c' f
  proof (cases "cj = ci")
    case True
    with that cl ofm show ?thesis by simp
  next
    case False
    with that cl have "creator_list s cj = Some c'" by simp
    from o2 [OF this that(2)] free ofm show ?thesis by auto
  qed
  moreover have "\<exists>cs. input_file_maps s' f = Some cs \<and> cj \<in> set cs"
    if "creator_list s' cj = Some c'" "f \<in> set (flat_input_paths c')" for cj c' f
  proof (cases "cj = ci")
    case True
    with that cl ifm show ?thesis by simp
  next
    case False
    with that cl have "creator_list s cj = Some c'" by simp
    from i1 [OF this that(2)] ifm show ?thesis by auto
  qed
  moreover have "\<exists>c'. creator_list s' cj = Some c' \<and> f \<in> set (flat_input_paths c')"
    if "input_file_maps s' f = Some cs'" "cj \<in> set cs'" for f cs' cj
  proof (cases "cj = ci")
    case True
    have "f \<in> set (flat_input_paths c)"
    proof (rule ccontr)
      assume "f \<notin> set (flat_input_paths c)"
      with that ifm have "input_file_maps s f = Some cs'" by simp
      from i2 [OF this that(2)] True fresh show False by simp
    qed
    with True cl show ?thesis by simp
  next
    case False
    from that ifm False obtain cs where "input_file_maps s f = Some cs" "cj \<in> set cs"
      by (auto split: if_splits option.splits)
    from i2 [OF this] False cl show ?thesis by simp
  qed
  ultimately show ?thesis unfolding graph_ok_def by blast
qed

lemma register_creator_error_state: "register_creator ci c s = (Some e, s') \<Longrightarrow> s' = s"
  by (auto simp: register_creator_def split: option.splits)

lemma delete_creator_not_duplicate: "delete_creator ci s \<noteq> (Some (DuplicateOutput a b), s')"
  by (auto simp: delete_creator_def split: option.splits prod.splits)

lemma build_creator_graph_ok:
  assumes "graph_ok s" and "build_creator producer_index producer input_data s = (None, s')"
  shows "graph_ok s'"
proof -
  let ?ci = "(producer_index, get_hashable_matchgroups (snd input_data))"
  let ?c = "make_creator producer input_data"
  show ?thesis
  proof (cases "?ci \<in> dom (creator_list s)")
    case True
    with assms(2) obtain s1 where d: "delete_creator ?ci s = (None, s1)"
      and r: "register_creator ?ci ?c s1 = (None, s')"
      by (auto simp: build_creator_def Let_def split: option.splits prod.splits)
    from delete_creator_graph_ok [OF assms(1) d] have ok1: "graph_ok s1" .
    from delete_creator_result [OF d] have "creator_list s1 ?ci = None" by auto
    from register_creator_graph_ok [OF ok1 this r] show ?thesis .
  next
    case False
    with assms(2) have r: "register_creator ?ci ?c s = (None, s')"
      by (auto simp: build_creator_def Let_def)
    from False have "creator_list s ?ci = None" by auto
    from register_creator_graph_ok [OF assms(1) this r] show ?thesis .
  qed
qed

text \<open>
  C3. Registration of a new creator, when every path in \<open>output_file_maps\<close> is claimed by a
  stored creator: if one of the new creator's output paths is present in
  \<open>output_file_maps\<close>, registration raises the duplicate-output error with the creator that
  owns the path and the new creator, and the state is as before (the new creator is not
  stored); otherwise the creator is stored, every output path is mapped to its index and
  every input path has its index in its set.
\<close>

theorem register_creator_duplicate_output:
  assumes live: "\<forall>file ci. output_file_maps s file = Some ci \<longrightarrow> creator_list s ci \<noteq> None"
  shows "if \<exists>file \<in> set (flat_output_paths creator). output_file_maps s file \<noteq> None
         then \<exists>file owner existing_creator.
                file \<in> set (flat_output_paths creator)
              \<and> output_file_maps s file = Some owner
              \<and> creator_list s owner = Some existing_creator
              \<and> register_creator new_creator_index creator s
                  = (Some (DuplicateOutput existing_creator creator), s)
         else \<exists>s'. register_creator new_creator_index creator s = (None, s')
              \<and> creator_list s' new_creator_index = Some creator
              \<and> (\<forall>file \<in> set (flat_output_paths creator).
                    output_file_maps s' file = Some new_creator_index)
              \<and> (\<forall>file \<in> set (flat_input_paths creator).
                    \<exists>cs. input_file_maps s' file = Some cs \<and> new_creator_index \<in> set cs)"
proof (cases "\<exists>file \<in> set (flat_output_paths creator). output_file_maps s file \<noteq> None")
  case True
  from check_duplicate_outputs_Some [OF live True, of creator]
  obtain f owner existing where "f \<in> set (flat_output_paths creator)"
    "output_file_maps s f = Some owner" "creator_list s owner = Some existing"
    "check_duplicate_outputs s creator (flat_output_paths creator) = Some (DuplicateOutput existing creator)"
    by blast
  then have "f \<in> set (flat_output_paths creator) \<and> output_file_maps s f = Some owner
      \<and> creator_list s owner = Some existing
      \<and> register_creator new_creator_index creator s = (Some (DuplicateOutput existing creator), s)"
    by (simp add: register_creator_def)
  then have "\<exists>file owner existing_creator.
                file \<in> set (flat_output_paths creator)
              \<and> output_file_maps s file = Some owner
              \<and> creator_list s owner = Some existing_creator
              \<and> register_creator new_creator_index creator s
                  = (Some (DuplicateOutput existing_creator creator), s)" by blast
  with True show ?thesis by simp
next
  case False
  then have "\<forall>file \<in> set (flat_output_paths creator). output_file_maps s file = None"
    by blast
  then have "check_duplicate_outputs s creator (flat_output_paths creator) = None"
    by (simp only: check_duplicate_outputs_None)
  then have "\<exists>s'. register_creator new_creator_index creator s = (None, s')
              \<and> creator_list s' new_creator_index = Some creator
              \<and> (\<forall>file \<in> set (flat_output_paths creator).
                    output_file_maps s' file = Some new_creator_index)
              \<and> (\<forall>file \<in> set (flat_input_paths creator).
                    \<exists>cs. input_file_maps s' file = Some cs \<and> new_creator_index \<in> set cs)"
    by (simp add: register_creator_def add_input_files_result add_output_files_result)
  with False show ?thesis by simp
qed

text \<open>
  C9. When \<open>build_new_creators\<close> makes a creator again whose identity is in
  \<open>creator_list\<close>, and the duplicate-output check then raises, the state in which the
  exception leaves the scheduler is the state after \<open>delete_creator\<close>: the creator that was
  registered under the identity is gone from \<open>creator_list\<close>, \<open>output_file_maps\<close> and
  \<open>input_file_maps\<close>, and the state differs from the one before.
\<close>

theorem rematerialized_creator_removed_before_error:
  assumes ok: "graph_ok s"
    and idx: "new_creator_index = (producer_index, get_hashable_matchgroups (snd input_data))"
    and present: "creator_list s new_creator_index = Some old_creator"
    and raised: "build_creator producer_index producer input_data s =
                   (Some (DuplicateOutput existing_creator new_creator), s')"
  shows "delete_creator new_creator_index s = (None, s')
       \<and> creator_list s' new_creator_index = None
       \<and> (\<forall>file. output_file_maps s' file \<noteq> Some new_creator_index)
       \<and> (\<forall>file cs. input_file_maps s' file = Some cs \<longrightarrow> new_creator_index \<notin> set cs)
       \<and> s' \<noteq> s"
proof -
  from present have dom: "new_creator_index \<in> dom (creator_list s)" by auto
  obtain r s1 where d: "delete_creator new_creator_index s = (r, s1)" by (cases "delete_creator new_creator_index s")
  have r: "r = None"
  proof (cases r)
    case (Some e)
    with raised dom d idx have "delete_creator new_creator_index s = (Some (DuplicateOutput existing_creator new_creator), s')"
      by (simp add: build_creator_def Let_def)
    then show ?thesis by (simp add: delete_creator_not_duplicate)
  qed simp
  with raised dom d idx
  have reg: "register_creator new_creator_index (make_creator producer input_data) s1 =
               (Some (DuplicateOutput existing_creator new_creator), s')"
    by (simp add: build_creator_def Let_def)
  from register_creator_error_state [OF reg] have s': "s' = s1" .
  from d r s' have del: "delete_creator new_creator_index s = (None, s')" by simp
  from delete_creator_graph_ok [OF ok del] have ok': "graph_ok s'" .
  from delete_creator_result [OF del] have gone: "creator_list s' new_creator_index = None" by auto
  from ok' have
    o1: "\<And>f cj. output_file_maps s' f = Some cj \<Longrightarrow> \<exists>c'. creator_list s' cj = Some c'"
    and i2: "\<And>f cs cj. input_file_maps s' f = Some cs \<Longrightarrow> cj \<in> set cs \<Longrightarrow>
           \<exists>c'. creator_list s' cj = Some c'"
    unfolding graph_ok_def by blast+
  have "output_file_maps s' f \<noteq> Some new_creator_index" for f
    using o1 [of f new_creator_index] gone by auto
  moreover have "new_creator_index \<notin> set cs" if "input_file_maps s' f = Some cs" for f cs
    using i2 [OF that, of new_creator_index] gone by auto
  moreover from gone present have "s' \<noteq> s" by auto
  ultimately show ?thesis using del gone by blast
qed

lemma page_sched_ok: "graph_ok page_sched"
  unfolding graph_ok_def
  by (auto simp: page_sched_def page_creator_def ex_index_def index_index_def split: if_splits)

theorem register_creator_duplicate_output_witness:
  "register_creator (0, [(''name'', Some ''b'')]) (page_creator ''b.txt'' ''out/index.html'') page_sched
   = (Some (DuplicateOutput (page_creator ''index.md'' ''out/index.html'')
              (page_creator ''b.txt'' ''out/index.html'')), page_sched)"
proof -
  have live: "\<forall>file ci. output_file_maps page_sched file = Some ci \<longrightarrow> creator_list page_sched ci \<noteq> None"
    by (simp add: page_sched_def ex_index_def index_index_def)
  from register_creator_duplicate_output [OF live, of "page_creator ''b.txt'' ''out/index.html''"
      "(0, [(''name'', Some ''b'')])"]
  show ?thesis
    by (simp add: page_sched_def page_creator_def ex_index_def index_index_def register_creator_def)
qed

theorem rematerialized_creator_removed_before_error_witness:
  "\<exists>s'. build_creator 0 page_producer ([(''src'', PathValue ''a.txt'')], [(''name'', Some ''a'')]) page_sched
          = (Some (DuplicateOutput (page_creator ''index.md'' ''out/index.html'')
                     (page_creator ''a.txt'' ''out/index.html'')), s')
      \<and> creator_list s' ex_index = None
      \<and> output_file_maps s' ''out/a.html'' = None
      \<and> input_file_maps s' ''a.md'' = None
      \<and> s' \<noteq> page_sched"
proof -
  let ?data = "([(''src'', PathValue ''a.txt'')], [(''name'', Some ''a'')])"
  obtain s' where raised: "build_creator 0 page_producer ?data page_sched
          = (Some (DuplicateOutput (page_creator ''index.md'' ''out/index.html'')
                     (page_creator ''a.txt'' ''out/index.html'')), s')"
    by (simp add: graph_defs scheduler_defs example_defs example_state_defs page_defs)
  have idx: "ex_index = (0, get_hashable_matchgroups (snd ?data))"
    by (simp add: ex_index_def get_hashable_matchgroups_def)
  have present: "creator_list page_sched ex_index = Some (page_creator ''a.md'' ''out/a.html'')"
    by (simp add: page_sched_def ex_index_def index_index_def)
  from rematerialized_creator_removed_before_error [OF page_sched_ok idx present raised]
  have del: "delete_creator ex_index page_sched = (None, s')"
    and gone: "creator_list s' ex_index = None" and ne: "s' \<noteq> page_sched" by auto
  from del have "output_file_maps s' ''out/a.html'' = None" "input_file_maps s' ''a.md'' = None"
    by (auto simp: graph_defs page_defs ex_index_def split: if_splits)
  with raised gone ne show ?thesis by blast
qed

section \<open>The invariants are kept\<close>

lemma graph_ok_filecache [simp]: "graph_ok (s\<lparr>filecache := db\<rparr>) = graph_ok s"
  by (simp add: graph_ok_def)

lemma delete_creator_frame:
  assumes "delete_creator ci s = (None, s')"
  shows "filecache s' = filecache s \<and> producer_list s' = producer_list s"
proof -
  from delete_creator_result [OF assms] obtain c ofm ifm
    where "s' = s\<lparr>output_file_maps := ofm, input_file_maps := ifm,
                     creator_list := (creator_list s)(ci := None)\<rparr>" by blast
  then show ?thesis by simp
qed

lemma register_creator_frame:
  assumes "register_creator ci c s = (None, s')"
  shows "filecache s' = filecache s \<and> producer_list s' = producer_list s"
proof -
  from register_creator_result [OF assms] obtain cl ifm ofm
    where "s' = s\<lparr>creator_list := cl, input_file_maps := ifm, output_file_maps := ofm\<rparr>"
    by blast
  then show ?thesis by simp
qed

lemma build_creator_frame:
  assumes "build_creator producer_index producer input_data s = (None, s')"
  shows "filecache s' = filecache s \<and> producer_list s' = producer_list s"
proof (cases "(producer_index, get_hashable_matchgroups (snd input_data)) \<in> dom (creator_list s)")
  case True
  with assms obtain s1 where
    d: "delete_creator (producer_index, get_hashable_matchgroups (snd input_data)) s = (None, s1)"
    and r: "register_creator (producer_index, get_hashable_matchgroups (snd input_data))
              (make_creator producer input_data) s1 = (None, s')"
    by (auto simp: build_creator_def Let_def split: option.splits prod.splits)
  from delete_creator_frame [OF d] register_creator_frame [OF r] show ?thesis by simp
next
  case False
  with assms have "register_creator (producer_index, get_hashable_matchgroups (snd input_data))
              (make_creator producer input_data) s = (None, s')"
    by (auto simp: build_creator_def Let_def)
  from register_creator_frame [OF this] show ?thesis .
qed

lemma delete_creators_ok:
  assumes "graph_ok s" and "delete_creators indexes s = (None, s')"
  shows "graph_ok s' \<and> filecache s' = filecache s \<and> producer_list s' = producer_list s
       \<and> (\<forall>ci. creator_list s' ci = (if ci \<in> set indexes then None else creator_list s ci))"
  using assms
proof (induction indexes arbitrary: s)
  case Nil
  then show ?case by simp
next
  case (Cons ci indexes)
  from Cons.prems(2) obtain s1 where d: "delete_creator ci s = (None, s1)"
    and rest: "delete_creators indexes s1 = (None, s')"
    by (auto split: option.splits prod.splits)
  from delete_creator_graph_ok [OF Cons.prems(1) d] have ok1: "graph_ok s1" .
  from delete_creator_result [OF d] have cl1: "creator_list s1 = (creator_list s)(ci := None)" by auto
  from Cons.IH [OF ok1 rest] delete_creator_frame [OF d] cl1 show ?case by auto
qed

lemma delete_creators_with_input_files_ok:
  assumes ok: "graph_ok s" and ret: "delete_creators_with_input_files files s = (None, s')"
  shows "graph_ok s' \<and> filecache s' = filecache s \<and> producer_list s' = producer_list s
       \<and> (\<forall>ci c. creator_list s' ci = Some c \<longrightarrow>
             creator_list s ci = Some c \<and> set (flat_input_paths c) \<inter> set files = {})"
proof -
  from delete_creators_ok [OF ok ret [unfolded delete_creators_with_input_files_def]]
  have ok': "graph_ok s'" and fr: "filecache s' = filecache s" "producer_list s' = producer_list s"
    and cl: "\<And>ci. creator_list s' ci =
               (if ci \<in> set (creators_consuming s files) then None else creator_list s ci)"
    by auto
  have "creator_list s ci = Some c \<and> set (flat_input_paths c) \<inter> set files = {}"
    if c: "creator_list s' ci = Some c" for ci c
  proof -
    from c cl [of ci] have notin: "ci \<notin> set (creators_consuming s files)"
      and old: "creator_list s ci = Some c" by (auto split: if_splits)
    have "f \<notin> set files" if f: "f \<in> set (flat_input_paths c)" for f
    proof
      assume "f \<in> set files"
      from ok old f obtain cs where "input_file_maps s f = Some cs" "ci \<in> set cs"
        unfolding graph_ok_def by blast
      with \<open>f \<in> set files\<close> have "ci \<in> set (creators_consuming s files)"
        by (force simp: creators_consuming_def)
      with notin show False by simp
    qed
    with old show ?thesis by auto
  qed
  with ok' fr show ?thesis by blast
qed

lemma build_creators_ok:
  assumes "graph_ok s" and "build_creators producer_index producer input_datas s = (None, s')"
  shows "graph_ok s' \<and> filecache s' = filecache s \<and> producer_list s' = producer_list s"
  using assms
proof (induction input_datas arbitrary: s)
  case Nil
  then show ?case by simp
next
  case (Cons input_data rest)
  from Cons.prems(2) obtain s1 where b: "build_creator producer_index producer input_data s = (None, s1)"
    and r: "build_creators producer_index producer rest s1 = (None, s')"
    by (auto split: option.splits prod.splits)
  from build_creator_graph_ok [OF Cons.prems(1) b] have "graph_ok s1" .
  from Cons.IH [OF this r] build_creator_frame [OF b] show ?case by simp
qed

lemma build_producers_ok:
  assumes "graph_ok s" and "build_producers indexed s = (None, s')"
  shows "graph_ok s' \<and> filecache s' = filecache s \<and> producer_list s' = producer_list s"
  using assms
proof (induction indexed arbitrary: s)
  case Nil
  then show ?case by simp
next
  case (Cons ip rest)
  obtain producer_index producer where ip: "ip = (producer_index, producer)" by (cases ip)
  from Cons.prems(2) ip obtain input_datas s1
    where b: "build_creators producer_index producer input_datas s = (None, s1)"
      and r: "build_producers rest s1 = (None, s')"
    by (auto split: sum.splits option.splits prod.splits)
  from build_creators_ok [OF Cons.prems(1) b]
  have ok1: "graph_ok s1" and fr: "filecache s1 = filecache s" "producer_list s1 = producer_list s"
    by auto
  from Cons.IH [OF ok1 r] fr show ?case by simp
qed

subsection \<open>The match store\<close>

lemma rows_matchD:
  "rows_match producers db \<Longrightarrow> db table_name = Some t \<Longrightarrow> r \<in> set (rows t) \<Longrightarrow>
   known_row producers table_name (filename r)"
  unfolding rows_match_def by blast

lemma rows_matchI:
  "(\<And>table_name t r. db table_name = Some t \<Longrightarrow> r \<in> set (rows t) \<Longrightarrow>
      known_row producers table_name (filename r)) \<Longrightarrow> rows_match producers db"
  unfolding rows_match_def by blast

lemma sql_delete_rows:
  assumes "sql_delete table_name fname db = Inr db'"
  shows "\<exists>t. db table_name = Some t
           \<and> db' = db(table_name \<mapsto> t\<lparr>rows := filter (\<lambda>r. filename r \<noteq> fname) (rows t)\<rparr>)"
  using assms by (auto simp: sql_delete_def split: option.splits)

lemma sql_delete_rows_match:
  assumes "rows_match producers db" and "sql_delete table_name fname db = Inr db'"
  shows "rows_match producers db'"
proof (rule rows_matchI)
  fix T t' r
  assume T: "db' T = Some t'" and r: "r \<in> set (rows t')"
  from sql_delete_rows [OF assms(2)] obtain t where t: "db table_name = Some t"
    and db': "db' = db(table_name \<mapsto> t\<lparr>rows := filter (\<lambda>r. filename r \<noteq> fname) (rows t)\<rparr>)"
    by blast
  have "\<exists>t0. db T = Some t0 \<and> r \<in> set (rows t0)"
    using T r t db' by (cases "T = table_name") auto
  then obtain t0 where "db T = Some t0" "r \<in> set (rows t0)" by blast
  then show "known_row producers T (filename r)" by (rule rows_matchD [OF assms(1)])
qed

lemma sql_insert_rows:
  assumes "sql_insert table_name fname updated binds db = Inr db'"
  shows "\<exists>t r. db table_name = Some t \<and> filename r = fname \<and> is_updated r = updated
           \<and> db' = db(table_name \<mapsto> t\<lparr>rows := rows t @ [r]\<rparr>)"
proof -
  from assms obtain t where t: "db table_name = Some t"
    and db': "db' = db(table_name \<mapsto> t\<lparr>rows := rows t @
                 [\<lparr>filename = fname, is_updated = updated,
                   group_values = map (\<lambda>c. (c, case map_of binds c of None \<Rightarrow> None | Some v \<Rightarrow> v))
                                    (columns t)\<rparr>]\<rparr>)"
    by (auto simp: sql_insert_def split: option.splits if_splits)
  let ?r = "\<lparr>filename = fname, is_updated = updated,
             group_values = map (\<lambda>c. (c, case map_of binds c of None \<Rightarrow> None | Some v \<Rightarrow> v))
                              (columns t)\<rparr>"
  from t db' have "db table_name = Some t \<and> filename ?r = fname \<and> is_updated ?r = updated
           \<and> db' = db(table_name \<mapsto> t\<lparr>rows := rows t @ [?r]\<rparr>)" by simp
  then show ?thesis by blast
qed

lemma sql_insert_rows_match:
  assumes "rows_match producers db" and "sql_insert table_name fname updated binds db = Inr db'"
    and known: "known_row producers table_name fname"
  shows "rows_match producers db'"
proof (rule rows_matchI)
  fix T t' r
  assume T: "db' T = Some t'" and r: "r \<in> set (rows t')"
  from sql_insert_rows [OF assms(2)] obtain t r0 where t: "db table_name = Some t"
    and r0: "filename r0 = fname"
    and db': "db' = db(table_name \<mapsto> t\<lparr>rows := rows t @ [r0]\<rparr>)" by blast
  have "(\<exists>t0. db T = Some t0 \<and> r \<in> set (rows t0)) \<or> (T = table_name \<and> filename r = fname)"
    using T r t db' r0 by (cases "T = table_name") auto
  then show "known_row producers T (filename r)"
  proof
    assume "\<exists>t0. db T = Some t0 \<and> r \<in> set (rows t0)"
    then obtain t0 where "db T = Some t0" "r \<in> set (rows t0)" by blast
    then show ?thesis by (rule rows_matchD [OF assms(1)])
  next
    assume "T = table_name \<and> filename r = fname"
    with known show ?thesis by simp
  qed
qed

lemma sql_mark_old_rows:
  assumes "sql_mark_old table_name db = Inr db'"
  shows "\<exists>t. db table_name = Some t
           \<and> db' = db(table_name \<mapsto>
                 t\<lparr>rows := map (\<lambda>r. if is_updated r \<noteq> 0 then r\<lparr>is_updated := 0\<rparr> else r) (rows t)\<rparr>)"
  using assms by (auto simp: sql_mark_old_def split: option.splits)

lemma sql_mark_old_rows_match:
  assumes "rows_match producers db" and "sql_mark_old table_name db = Inr db'"
  shows "rows_match producers db'"
proof (rule rows_matchI)
  fix T t' r
  assume T: "db' T = Some t'" and r: "r \<in> set (rows t')"
  from sql_mark_old_rows [OF assms(2)] obtain t where t: "db table_name = Some t"
    and db': "db' = db(table_name \<mapsto>
                 t\<lparr>rows := map (\<lambda>r. if is_updated r \<noteq> 0 then r\<lparr>is_updated := 0\<rparr> else r) (rows t)\<rparr>)"
    by blast
  have "\<exists>t0 r0. db T = Some t0 \<and> r0 \<in> set (rows t0) \<and> filename r0 = filename r"
  proof (cases "T = table_name")
    case True
    with T r db' obtain r0 where "r0 \<in> set (rows t)"
      "r = (if is_updated r0 \<noteq> 0 then r0\<lparr>is_updated := 0\<rparr> else r0)" by auto
    then have "r0 \<in> set (rows t) \<and> filename r0 = filename r" by (auto split: if_splits)
    with t True show ?thesis by blast
  next
    case False
    with T r db' show ?thesis by auto
  qed
  then obtain t0 r0 where "db T = Some t0" "r0 \<in> set (rows t0)" "filename r0 = filename r" by blast
  with rows_matchD [OF assms(1), of T t0 r0] show "known_row producers T (filename r)" by simp
qed

lemma mark_all_files_old_rows_match:
  "rows_match producers db \<Longrightarrow> mark_all_files_old names db = (e, db') \<Longrightarrow> rows_match producers db'"
proof (induction names arbitrary: db)
  case Nil
  then show ?case by simp
next
  case (Cons n names)
  show ?case
  proof (cases "sql_mark_old n db")
    case (Inl err)
    with Cons.prems show ?thesis by simp
  next
    case (Inr db1)
    from sql_mark_old_rows_match [OF Cons.prems(1) Inr] have "rows_match producers db1" .
    with Cons.IH [of db1] Cons.prems(2) Inr show ?thesis by simp
  qed
qed

lemma matches_of_iff:
  "x \<in> set (concat (map (\<lambda>(producer_index, producer).
       concat (map (\<lambda>path.
         concat (map (\<lambda>(field_name, regex).
                   case regex path of
                     None \<Rightarrow> []
                   | Some groups \<Rightarrow> [(producer_index, producer, field_name, path, groups)])
           (regex_field_patterns producer)))
         files))
       indexed)) \<longleftrightarrow>
   (\<exists>producer_index producer path field_name regex groups.
      (producer_index, producer) \<in> set indexed \<and> path \<in> set files
    \<and> (field_name, regex) \<in> set (regex_field_patterns producer)
    \<and> regex path = Some groups
    \<and> x = (producer_index, producer, field_name, path, groups))"
proof -
  have B: "\<And>(regex :: string \<Rightarrow> groupdict option) path i P field_name.
      x \<in> set (case regex path of None \<Rightarrow> [] | Some groups \<Rightarrow> [(i, P, field_name, path, groups)]) \<longleftrightarrow>
      (\<exists>groups. regex path = Some groups \<and> x = (i, P, field_name, path, groups))"
    by (auto split: option.splits)
  have "x \<in> set (concat (map (\<lambda>(producer_index, producer).
       concat (map (\<lambda>path.
         concat (map (\<lambda>(field_name, regex).
                   case regex path of
                     None \<Rightarrow> []
                   | Some groups \<Rightarrow> [(producer_index, producer, field_name, path, groups)])
           (regex_field_patterns producer)))
         files))
       indexed)) \<longleftrightarrow>
     (\<exists>ip \<in> set indexed. \<exists>path \<in> set files. \<exists>fr \<in> set (regex_field_patterns (snd ip)).
        \<exists>groups. snd fr path = Some groups \<and> x = (fst ip, snd ip, fst fr, path, groups))"
    by (simp only: case_prod_beta set_concat set_map image_image UN_iff B)
  also have "\<dots> \<longleftrightarrow> (\<exists>producer_index producer path field_name regex groups.
      (producer_index, producer) \<in> set indexed \<and> path \<in> set files
    \<and> (field_name, regex) \<in> set (regex_field_patterns producer)
    \<and> regex path = Some groups
    \<and> x = (producer_index, producer, field_name, path, groups))"
    by (simp only: Bex_def split_paired_Ex fst_conv snd_conv) blast
  finally show ?thesis .
qed

lemma file_matches_iff:
  "(producer_index, producer, field_name, path, groups) \<in> set (file_matches producers files) \<longleftrightarrow>
   (producer_index, producer) \<in> set (enumerate 0 producers) \<and> path \<in> set files
   \<and> (\<exists>regex. (field_name, regex) \<in> set (regex_field_patterns producer) \<and> regex path = Some groups)"
  unfolding file_matches_def matches_of_iff by blast

lemma file_matches_known_row:
  assumes "(producer_index, producer, field_name, path, groups) \<in> set (file_matches producers files)"
  shows "known_row producers (field_table producer producer_index field_name) path"
proof -
  from assms obtain regex
    where "(producer_index, producer) \<in> set (enumerate 0 producers)"
      "(field_name, regex) \<in> set (regex_field_patterns producer)" "regex path \<noteq> None"
    unfolding file_matches_iff by auto
  then show ?thesis unfolding known_row_def by blast
qed

lemma store_matches_rows_match:
  assumes "rows_match producers db"
    and "set ms \<subseteq> set (file_matches producers files)"
    and "store_matches ms db = (e, db')"
  shows "rows_match producers db'"
  using assms
proof (induction ms arbitrary: db)
  case Nil
  then show ?case by simp
next
  case (Cons m ms)
  obtain producer_index producer field_name path groups
    where m: "m = (producer_index, producer, field_name, path, groups)" by (cases m)
  from Cons.prems(2) m
  have known: "known_row producers (field_table producer producer_index field_name) path"
    by (intro file_matches_known_row [of _ _ _ _ groups _ files]) auto
  show ?case
  proof (cases "remove_file_from_database producer producer_index field_name path db")
    case (Inl err)
    with Cons.prems m show ?thesis by simp
  next
    case (Inr db1)
    then have ok1: "rows_match producers db1"
      using sql_delete_rows_match [OF Cons.prems(1)] by (simp add: remove_file_from_database_def)
    show ?thesis
    proof (cases "insert_new_file producer producer_index field_name path groups db1")
      case (Inl err)
      with Cons.prems m Inr ok1 show ?thesis by simp
    next
      case Inr2: (Inr db2)
      then have "rows_match producers db2"
        using sql_insert_rows_match [OF ok1 _ known] by (simp add: insert_new_file_def)
      with Cons.IH [of db2] Cons.prems m Inr Inr2 show ?thesis by simp
    qed
  qed
qed

lemma remove_matches_rows_match:
  assumes "rows_match producers db" and "remove_matches ms db = (e, db')"
  shows "rows_match producers db'"
  using assms
proof (induction ms arbitrary: db)
  case Nil
  then show ?case by simp
next
  case (Cons m ms)
  obtain producer_index producer field_name path groups
    where m: "m = (producer_index, producer, field_name, path, groups)" by (cases m)
  show ?case
  proof (cases "remove_file_from_database producer producer_index field_name path db")
    case (Inl err)
    with Cons.prems m show ?thesis by simp
  next
    case (Inr db1)
    then have "rows_match producers db1"
      using sql_delete_rows_match [OF Cons.prems(1)] by (simp add: remove_file_from_database_def)
    with Cons.IH [of db1] Cons.prems m Inr show ?thesis by simp
  qed
qed

text \<open>After the removal loop, no table that the loop has visited for a path holds the path.\<close>

lemma remove_matches_removed:
  assumes "remove_matches ms db = (None, db')"
  shows "(\<forall>table_name t'. db' table_name = Some t' \<longrightarrow>
            (\<exists>t. db table_name = Some t \<and> set (rows t') \<subseteq> set (rows t)))
       \<and> (\<forall>producer_index producer field_name path groups t'.
            (producer_index, producer, field_name, path, groups) \<in> set ms \<longrightarrow>
            db' (field_table producer producer_index field_name) = Some t' \<longrightarrow>
            path \<notin> filename ` set (rows t'))"
  using assms
proof (induction ms arbitrary: db)
  case Nil
  then show ?case by simp
next
  case (Cons m ms)
  obtain producer_index producer field_name path groups
    where m: "m = (producer_index, producer, field_name, path, groups)" by (cases m)
  let ?T = "field_table producer producer_index field_name"
  from Cons.prems m obtain db1 where d: "sql_delete ?T path db = Inr db1"
    and r: "remove_matches ms db1 = (None, db')"
    by (auto simp: remove_file_from_database_def split: sum.splits)
  from sql_delete_rows [OF d] obtain t0 where t0: "db ?T = Some t0"
    and db1: "db1 = db(?T \<mapsto> t0\<lparr>rows := filter (\<lambda>r. filename r \<noteq> path) (rows t0)\<rparr>)" by blast
  from Cons.IH [OF r]
  have sub: "\<And>table_name t'. db' table_name = Some t' \<Longrightarrow>
            \<exists>t. db1 table_name = Some t \<and> set (rows t') \<subseteq> set (rows t)"
    and gone: "\<And>producer_index producer field_name path groups t'.
            (producer_index, producer, field_name, path, groups) \<in> set ms \<Longrightarrow>
            db' (field_table producer producer_index field_name) = Some t' \<Longrightarrow>
            path \<notin> filename ` set (rows t')" by blast+
  have sub': "\<exists>t. db table_name = Some t \<and> set (rows t') \<subseteq> set (rows t)"
    if "db' table_name = Some t'" for table_name t'
  proof -
    from sub [OF that] obtain t1 where t1: "db1 table_name = Some t1" "set (rows t') \<subseteq> set (rows t1)"
      by blast
    with db1 t0 show ?thesis by (cases "table_name = ?T") auto
  qed
  have here: "path \<notin> filename ` set (rows t')" if "db' ?T = Some t'" for t'
  proof -
    from sub [OF that] obtain t1 where t1: "db1 ?T = Some t1" "set (rows t') \<subseteq> set (rows t1)"
      by blast
    with db1 have "path \<notin> filename ` set (rows t1)" by auto
    with t1 show ?thesis by blast
  qed
  have "p \<notin> filename ` set (rows t')"
    if "(i, P, f, p, g) \<in> set (m # ms)" "db' (field_table P i f) = Some t'" for i P f p g t'
  proof (cases "(i, P, f, p, g) = m")
    case True
    with m that(2) here show ?thesis by simp
  next
    case False
    with that(1) have "(i, P, f, p, g) \<in> set ms" by simp
    from gone [OF this that(2)] show ?thesis .
  qed
  with sub' show ?case by blast
qed

lemma db_ok_frame: "filecache s' = filecache s \<Longrightarrow> producer_list s' = producer_list s \<Longrightarrow> db_ok s' = db_ok s"
  by (simp add: db_ok_def)

text \<open>The two invariants together.\<close>

lemma build_new_creators_ok:
  assumes g: "graph_ok s" and d: "db_ok s" and ret: "build_new_creators files s = (None, s')"
  shows "graph_ok s' \<and> db_ok s' \<and> producer_list s' = producer_list s"
proof -
  from ret obtain s1 db s2 db' where
    1: "delete_creators_with_input_files files s = (None, s1)"
    and 2: "store_matches (file_matches (producer_list s1) files) (filecache s1) = (None, db)"
    and 3: "build_producers (enumerate 0 (producer_list s1)) (s1\<lparr>filecache := db\<rparr>) = (None, s2)"
    and 4: "mark_all_files_old (mark_all_files_old_querystrings (producer_list s2)) (filecache s2) = (None, db')"
    and s': "s' = s2\<lparr>filecache := db'\<rparr>"
    by (auto simp: build_new_creators_def split: option.splits prod.splits)
  from delete_creators_with_input_files_ok [OF g 1]
  have g1: "graph_ok s1" and f1: "filecache s1 = filecache s" "producer_list s1 = producer_list s"
    by auto
  from d f1 have "rows_match (producer_list s1) (filecache s1)" by (simp add: db_ok_def)
  from store_matches_rows_match [OF this subset_refl 2]
  have m: "rows_match (producer_list s1) db" .
  from g1 have "graph_ok (s1\<lparr>filecache := db\<rparr>)" by simp
  from build_producers_ok [OF this 3]
  have g2: "graph_ok s2" and f2: "filecache s2 = db" "producer_list s2 = producer_list s1" by auto
  from m f2 have "rows_match (producer_list s2) (filecache s2)" by simp
  from mark_all_files_old_rows_match [OF this 4] have "rows_match (producer_list s2) db'" .
  with g2 s' f2 f1 show ?thesis by (simp add: db_ok_def)
qed

lemma delete_files_ok:
  assumes g: "graph_ok s" and d: "db_ok s" and ret: "delete_files files s = (None, s')"
  shows "graph_ok s' \<and> db_ok s' \<and> producer_list s' = producer_list s"
proof -
  from ret obtain s1 db where
    1: "delete_creators_with_input_files files s = (None, s1)"
    and 2: "remove_matches (file_matches (producer_list s1) files) (filecache s1) = (None, db)"
    and s': "s' = s1\<lparr>filecache := db\<rparr>"
    by (auto simp: delete_files_def split: option.splits prod.splits)
  from delete_creators_with_input_files_ok [OF g 1]
  have g1: "graph_ok s1" and f1: "filecache s1 = filecache s" "producer_list s1 = producer_list s"
    by auto
  from d f1 have "rows_match (producer_list s1) (filecache s1)" by (simp add: db_ok_def)
  from remove_matches_rows_match [OF this 2] have "rows_match (producer_list s1) db" .
  with g1 s' f1 show ?thesis by (simp add: db_ok_def)
qed

lemma process_creator_ok:
  assumes "graph_ok (sched w)" and "db_ok (sched w)"
    and "process_creator os creator_index heap w = Some (None, heap', w')"
  shows "graph_ok (sched w') \<and> db_ok (sched w')"
proof (cases "creator_list (sched w) creator_index")
  case None
  with assms(3) show ?thesis by (simp add: process_creator_def)
next
  case (Some creator)
  show ?thesis
  proof (cases "skips_creator os (disk w) creator")
    case None
    with Some assms(3) show ?thesis by (simp add: process_creator_def)
  next
    case skip: (Some b)
    show ?thesis
    proof (cases b)
      case True
      with Some skip assms show ?thesis by (simp add: process_creator_def)
    next
      case False
      with Some skip assms(3) obtain s1 where
        b: "build_new_creators (flat_output_paths creator) (sched w) = (None, s1)"
        and w': "sched w' = s1"
        by (auto simp: process_creator_def split: option.splits prod.splits)
      from build_new_creators_ok [OF assms(1,2) b] w' show ?thesis by simp
    qed
  qed
qed

lemma drain_ok:
  assumes "graph_ok (sched w)" and "db_ok (sched w)" and "drain os fuel heap w = Some (None, w')"
  shows "graph_ok (sched w') \<and> db_ok (sched w')"
  using assms
proof (induction fuel arbitrary: heap w)
  case 0
  then show ?case by (cases heap) simp_all
next
  case (Suc fuel)
  show ?case
  proof (cases heap)
    case Nil
    with Suc.prems show ?thesis by simp
  next
    case (Cons creator_index rest)
    with Suc.prems(3) obtain heap1 w1 where
      p: "process_creator os creator_index rest w = Some (None, heap1, w1)"
      and r: "drain os fuel heap1 w1 = Some (None, w')"
      by (auto split: option.splits prod.splits)
    from process_creator_ok [OF Suc.prems(1,2) p]
    have "graph_ok (sched w1)" "db_ok (sched w1)" by auto
    from Suc.IH [OF this r] show ?thesis .
  qed
qed

lemma add_or_update_files_ok:
  assumes "graph_ok (sched w)" and "db_ok (sched w)"
    and "add_or_update_files os fuel files w = Some (None, w')"
  shows "graph_ok (sched w') \<and> db_ok (sched w')"
proof -
  from assms(3) obtain s1 where b: "build_new_creators files (sched w) = (None, s1)"
    and p: "drain os fuel (push_consumers s1 files []) (w\<lparr>sched := s1\<rparr>) = Some (None, w')"
    by (auto simp: add_or_update_files_def process_files_def split: option.splits prod.splits)
  from build_new_creators_ok [OF assms(1,2) b]
  have "graph_ok (sched (w\<lparr>sched := s1\<rparr>))" "db_ok (sched (w\<lparr>sched := s1\<rparr>))" by auto
  from drain_ok [OF this p] show ?thesis .
qed

lemma sql_create_tables_empty:
  assumes "\<forall>table_name t. db table_name = Some t \<longrightarrow> rows t = []"
    and "sql_create_tables statements db = Inr db'"
  shows "\<forall>table_name t. db' table_name = Some t \<longrightarrow> rows t = []"
  using assms
proof (induction statements arbitrary: db)
  case Nil
  then show ?case by simp
next
  case (Cons st statements)
  obtain table_name cols where st: "st = (table_name, cols)" by (cases st)
  from Cons.prems(2) st obtain db1 where c: "sql_create_table table_name cols db = Inr db1"
    and r: "sql_create_tables statements db1 = Inr db'"
    by (auto split: sum.splits)
  from c Cons.prems(1) have "\<forall>table_name t. db1 table_name = Some t \<longrightarrow> rows t = []"
    by (auto simp: sql_create_table_def split: if_splits)
  from Cons.IH [OF this r] show ?case .
qed

lemma new_scheduler_ok:
  assumes "new_scheduler os fuel producers initial_filepaths fs = Some (None, w)"
  shows "graph_ok (sched w) \<and> db_ok (sched w)"
proof -
  from assms obtain db where i: "init_producer_cache producers = Inr db"
    and a: "add_or_update_files os fuel initial_filepaths
            \<lparr>sched = \<lparr>producer_list = producers, creator_list = Map.empty,
                       output_file_maps = Map.empty, input_file_maps = Map.empty,
                       filecache = db\<rparr>,
             disk = fs, executed = []\<rparr> = Some (None, w)"
    by (auto simp: new_scheduler_def split: sum.splits)
  from sql_create_tables_empty [OF _ i [unfolded init_producer_cache_def]]
  have "\<forall>table_name t. db table_name = Some t \<longrightarrow> rows t = []" by simp
  then have "rows_match producers db" unfolding rows_match_def by auto
  then have d: "db_ok \<lparr>producer_list = producers, creator_list = Map.empty,
                       output_file_maps = Map.empty, input_file_maps = Map.empty,
                       filecache = db\<rparr>" by (simp add: db_ok_def)
  have g: "graph_ok \<lparr>producer_list = producers, creator_list = Map.empty,
                       output_file_maps = Map.empty, input_file_maps = Map.empty,
                       filecache = db\<rparr>" by (simp add: graph_ok_def)
  from add_or_update_files_ok [OF _ _ a] g d show ?thesis by simp
qed

lemma reachable_invariants:
  "reachable os w \<Longrightarrow> graph_ok (sched w) \<and> db_ok (sched w)"
proof (induction rule: reachable.induct)
  case (construct fuel producers initial_filepaths fs w)
  then show ?case by (rule new_scheduler_ok)
next
  case (add_or_update w fuel files w')
  from add_or_update.IH have "graph_ok (sched w)" "db_ok (sched w)" by auto
  from add_or_update_files_ok [OF this add_or_update.hyps(2)] show ?case .
next
  case (delete w files s')
  from delete.IH delete_files_ok [OF _ _ delete.hyps(2)] show ?case by simp
next
  case (disk_change w fs')
  then show ?case by simp
qed

lemma ex_world_constructed:
  "new_scheduler ex_os 5 [md_producer 6] [''a.md''] ex_disk = Some (None, ex_world 6)"
  by (simp add: match_store_defs query_defs graph_defs scheduler_defs example_defs
      example_state_defs ex_world_def)

lemma ex_world_reachable: "reachable ex_os (ex_world 6)"
  using ex_world_constructed by (rule reachable.construct)

text \<open>
  C7. After \<open>delete_files [f]\<close> has returned, in a state that the public operations reach:
  no stored creator has \<open>f\<close> among its input paths, no table of the match store holds a
  row with the filename \<open>f\<close>, and every stored creator was stored before the call (none
  is made).
\<close>

theorem delete_files_removes_file:
  assumes reach: "reachable os w" and ret: "delete_files [f] (sched w) = (None, s')"
  shows "(\<forall>ci c. creator_list s' ci = Some c \<longrightarrow> f \<notin> set (flat_input_paths c))
       \<and> (\<forall>table_name t r. filecache s' table_name = Some t \<longrightarrow> r \<in> set (rows t) \<longrightarrow>
            filename r \<noteq> f)
       \<and> (\<forall>ci c. creator_list s' ci = Some c \<longrightarrow> creator_list (sched w) ci = Some c)"
proof -
  let ?s = "sched w"
  from reachable_invariants [OF reach] have g: "graph_ok ?s" and d: "db_ok ?s" by auto
  from ret obtain s1 db where
    1: "delete_creators_with_input_files [f] ?s = (None, s1)"
    and 2: "remove_matches (file_matches (producer_list s1) [f]) (filecache s1) = (None, db)"
    and s': "s' = s1\<lparr>filecache := db\<rparr>"
    by (auto simp: delete_files_def split: option.splits prod.splits)
  from delete_creators_with_input_files_ok [OF g 1]
  have f1: "filecache s1 = filecache ?s" "producer_list s1 = producer_list ?s"
    and cl: "\<And>ci c. creator_list s1 ci = Some c \<Longrightarrow>
               creator_list ?s ci = Some c \<and> set (flat_input_paths c) \<inter> set [f] = {}"
    by auto
  have a: "f \<notin> set (flat_input_paths c)" and c: "creator_list ?s ci = Some c"
    if "creator_list s' ci = Some c" for ci c
    using cl [of ci c] that s' by auto
  from d f1 have m: "rows_match (producer_list s1) (filecache s1)" by (simp add: db_ok_def)
  from remove_matches_removed [OF 2]
  have sub: "\<And>table_name t'. db table_name = Some t' \<Longrightarrow>
            \<exists>t. filecache s1 table_name = Some t \<and> set (rows t') \<subseteq> set (rows t)"
    and gone: "\<And>producer_index producer field_name path groups t'.
            (producer_index, producer, field_name, path, groups)
              \<in> set (file_matches (producer_list s1) [f]) \<Longrightarrow>
            db (field_table producer producer_index field_name) = Some t' \<Longrightarrow>
            path \<notin> filename ` set (rows t')" by blast+
  have b: "filename r \<noteq> f" if T: "filecache s' table_name = Some t" and r: "r \<in> set (rows t)"
    for table_name t r
  proof
    assume eq: "filename r = f"
    from T s' have T': "db table_name = Some t" by simp
    from sub [OF T'] r obtain t0 where "filecache s1 table_name = Some t0" "r \<in> set (rows t0)"
      by blast
    from rows_matchD [OF m this] eq obtain producer_index producer field_name regex groups
      where "(producer_index, producer) \<in> set (enumerate 0 (producer_list s1))"
        "(field_name, regex) \<in> set (regex_field_patterns producer)"
        "table_name = field_table producer producer_index field_name"
        "regex f = Some groups"
      unfolding known_row_def by auto
    then have "(producer_index, producer, field_name, f, groups)
        \<in> set (file_matches (producer_list s1) [f])"
      and "db (field_table producer producer_index field_name) = Some t"
      using T' unfolding file_matches_iff by auto
    from gone [OF this] r eq show False by auto
  qed
  from a b c show ?thesis by blast
qed

theorem delete_files_removes_file_witness:
  "\<exists>s'. delete_files [''a.md''] (sched (ex_world 6)) = (None, s')
      \<and> creator_list s' ex_index = None
      \<and> table_rows (filecache s') ''producer0_fieldsrc_matches'' = []"
proof -
  obtain s' where ret: "delete_files [''a.md''] (sched (ex_world 6)) = (None, s')"
    and rows: "table_rows (filecache s') ''producer0_fieldsrc_matches'' = []"
    by (simp add: match_store_defs graph_defs scheduler_defs example_defs example_state_defs
        ex_world_def table_rows_def)
  from delete_files_removes_file [OF ex_world_reachable ret]
  have a: "\<And>ci c. creator_list s' ci = Some c \<Longrightarrow> ''a.md'' \<notin> set (flat_input_paths c)"
    and c: "\<And>ci c. creator_list s' ci = Some c \<Longrightarrow> creator_list (sched (ex_world 6)) ci = Some c"
    by blast+
  have "creator_list s' ex_index = None"
  proof (cases "creator_list s' ex_index")
    case (Some c)
    from c [OF Some] have "c = ex_creator 6" by (simp add: ex_world_def ex_sched_def)
    with a [OF Some] show ?thesis by (simp add: ex_creator_def)
  qed simp
  with ret rows show ?thesis by blast
qed

section \<open>The flag \<open>is_updated\<close> and the fileset query\<close>

lemma mark_all_files_old_zero:
  assumes "mark_all_files_old names db = (None, db')"
    and "table_name \<in> set names \<or> (\<forall>t r. db table_name = Some t \<longrightarrow> r \<in> set (rows t) \<longrightarrow> is_updated r = 0)"
    and "db' table_name = Some t'" and "r' \<in> set (rows t')"
  shows "is_updated r' = 0"
  using assms
proof (induction names arbitrary: db)
  case Nil
  then show ?case by auto
next
  case (Cons n names)
  from Cons.prems(1) obtain db1 where m: "sql_mark_old n db = Inr db1"
    and rest: "mark_all_files_old names db1 = (None, db')"
    by (auto split: sum.splits)
  from sql_mark_old_rows [OF m] obtain t where t: "db n = Some t"
    and db1: "db1 = db(n \<mapsto>
                 t\<lparr>rows := map (\<lambda>r. if is_updated r \<noteq> 0 then r\<lparr>is_updated := 0\<rparr> else r) (rows t)\<rparr>)"
    by blast
  have "table_name \<in> set names
      \<or> (\<forall>t r. db1 table_name = Some t \<longrightarrow> r \<in> set (rows t) \<longrightarrow> is_updated r = 0)"
  proof (cases "table_name = n")
    case True
    with db1 show ?thesis by auto
  next
    case False
    with Cons.prems(2) db1 show ?thesis by auto
  qed
  from Cons.IH [OF rest this Cons.prems(3,4)] show ?case .
qed

lemma build_new_creators_marked:
  assumes g: "graph_ok s" and d: "db_ok s" and ret: "build_new_creators files s = (None, s')"
  shows "\<exists>db0. rows_match (producer_list s) db0
           \<and> mark_all_files_old (mark_all_files_old_querystrings (producer_list s)) db0
                = (None, filecache s')"
proof -
  from ret obtain s1 db s2 db' where
    1: "delete_creators_with_input_files files s = (None, s1)"
    and 2: "store_matches (file_matches (producer_list s1) files) (filecache s1) = (None, db)"
    and 3: "build_producers (enumerate 0 (producer_list s1)) (s1\<lparr>filecache := db\<rparr>) = (None, s2)"
    and 4: "mark_all_files_old (mark_all_files_old_querystrings (producer_list s2)) (filecache s2) = (None, db')"
    and s': "s' = s2\<lparr>filecache := db'\<rparr>"
    by (auto simp: build_new_creators_def split: option.splits prod.splits)
  from delete_creators_with_input_files_ok [OF g 1]
  have g1: "graph_ok s1" and f1: "filecache s1 = filecache s" "producer_list s1 = producer_list s"
    by auto
  from d f1 have "rows_match (producer_list s1) (filecache s1)" by (simp add: db_ok_def)
  from store_matches_rows_match [OF this subset_refl 2]
  have m: "rows_match (producer_list s1) db" .
  from g1 have "graph_ok (s1\<lparr>filecache := db\<rparr>)" by simp
  from build_producers_ok [OF this 3]
  have f2: "filecache s2 = db" "producer_list s2 = producer_list s1" by auto
  from m 4 s' f1 f2 show ?thesis by auto
qed

lemma mark_all_files_old_querystrings_member:
  assumes "(producer_index, producer) \<in> set (enumerate 0 producers)"
    and "field_name \<in> fst ` set (active_fields producer)"
  shows "field_table producer producer_index field_name
           \<in> set (mark_all_files_old_querystrings producers)"
proof -
  from assms(2) obtain field where f: "(field_name, field) \<in> set (active_fields producer)" by auto
  have "field_table producer producer_index field_name
      \<in> set (map (\<lambda>(field_name, field). field_table producer producer_index field_name)
               (active_fields producer))"
    using f by (simp only: set_map) (rule image_eqI [of _ _ "(field_name, field)"], simp_all)
  then have "\<exists>ip \<in> set (enumerate 0 producers).
      field_table producer producer_index field_name
      \<in> set (case ip of (producer_index, producer) \<Rightarrow>
           map (\<lambda>(field_name, field). field_table producer producer_index field_name)
               (active_fields producer))"
    using assms(1) by (intro bexI [of _ "(producer_index, producer)"]) simp_all
  then show ?thesis
    by (simp only: mark_all_files_old_querystrings_def set_concat set_map image_image UN_iff)
qed

lemma build_new_creators_marks_old:
  assumes g: "graph_ok s" and d: "db_ok s" and decl: "fields_declared (producer_list s)"
    and ret: "build_new_creators files s = (None, s')"
    and T: "filecache s' table_name = Some t" and r: "r \<in> set (rows t)"
  shows "is_updated r = 0"
proof -
  from build_new_creators_marked [OF g d ret] obtain db0
    where m0: "rows_match (producer_list s) db0"
      and mark: "mark_all_files_old (mark_all_files_old_querystrings (producer_list s)) db0
                = (None, filecache s')" by blast
  from mark_all_files_old_rows_match [OF m0 mark]
  have "rows_match (producer_list s) (filecache s')" .
  from rows_matchD [OF this T r] obtain producer_index producer field_name regex
    where ip: "(producer_index, producer) \<in> set (enumerate 0 (producer_list s))"
      and fr: "(field_name, regex) \<in> set (regex_field_patterns producer)"
      and tn: "table_name = field_table producer producer_index field_name"
    unfolding known_row_def by blast
  from ip have "producer \<in> set (producer_list s)" by (auto simp: in_set_enumerate_eq)
  with decl fr have "field_name \<in> fst ` set (active_fields producer)"
    unfolding fields_declared_def by force
  from mark_all_files_old_querystrings_member [OF ip this] tn
  have "table_name \<in> set (mark_all_files_old_querystrings (producer_list s))" by simp
  then show ?thesis using mark_all_files_old_zero [OF mark _ T r] by blast
qed

lemma collect_filesets_filter:
  assumes "collect_filesets producer (map rowf grps) acc = Inr out"
    and "\<And>grp e n. grp \<in> set grps \<Longrightarrow> resolve_row producer (rowf grp) = Inr (e, n) \<Longrightarrow> n = S grp"
  shows "\<exists>elements. length elements = length grps
           \<and> map (\<lambda>grp. resolve_row producer (rowf grp)) grps
               = map (\<lambda>(e, grp). Inr (e, S grp)) (zip elements grps)
           \<and> out = acc @ map fst (filter (\<lambda>(e, grp). 0 < S grp) (zip elements grps))"
  using assms
proof (induction grps arbitrary: acc)
  case Nil
  then show ?case by simp
next
  case (Cons grp grps)
  from Cons.prems(1) obtain e n where res: "resolve_row producer (rowf grp) = Inr (e, n)"
    and rest: "collect_filesets producer (map rowf grps) (if n > 0 then acc @ [e] else acc) = Inr out"
    by (auto split: sum.splits prod.splits)
  from Cons.prems(2) [OF _ res] have n: "n = S grp" by simp
  from Cons.IH [OF rest] Cons.prems(2) obtain elements where
    len: "length elements = length grps"
    and m: "map (\<lambda>grp. resolve_row producer (rowf grp)) grps
               = map (\<lambda>(e, grp). Inr (e, S grp)) (zip elements grps)"
    and out: "out = (if n > 0 then acc @ [e] else acc)
                @ map fst (filter (\<lambda>(e, grp). 0 < S grp) (zip elements grps))"
    by auto
  have "length (e # elements) = length (grp # grps)
      \<and> map (\<lambda>grp. resolve_row producer (rowf grp)) (grp # grps)
               = map (\<lambda>(e, grp). Inr (e, S grp)) (zip (e # elements) (grp # grps))
      \<and> out = acc @ map fst (filter (\<lambda>(e, grp). 0 < S grp) (zip (e # elements) (grp # grps)))"
    using len m out res n by simp
  then show ?case by blast
qed

lemma new_filesets_querystring_sum:
  assumes "new_filesets_querystring producer producer_index = Inr q"
  shows "\<exists>cols. select_columns q = cols @ [SumIsUpdated (from_tables q)]"
  using assms by (auto simp: new_filesets_querystring_def Let_def split: if_splits)

lemma result_row_is_updated:
  assumes "new_filesets_querystring producer producer_index = Inr q"
  shows "row_cell (result_row q grp) ''is_updated''
           = Some (Integer (sum_is_updated q (from_tables q) grp))"
proof -
  from new_filesets_querystring_sum [OF assms] obtain cols
    where "select_columns q = cols @ [SumIsUpdated (from_tables q)]" by blast
  then show ?thesis by (simp add: row_cell_def result_row_def column_value_def)
qed

lemma resolve_row_is_updated:
  assumes "new_filesets_querystring producer producer_index = Inr q"
    and "resolve_row producer (result_row q grp) = Inr (e, n)"
  shows "n = sum_is_updated q (from_tables q) grp"
  using assms(2) result_row_is_updated [OF assms(1), of grp]
  by (auto simp: resolve_row_def split: sum.splits)

lemma query_filesets_yields_updated:
  assumes q: "new_filesets_querystring producer producer_index = Inr q"
    and ret: "query_filesets producer producer_index db = Inr out"
  shows "\<exists>elements. length elements = length (joined_groups q db)
           \<and> map (\<lambda>grp. resolve_row producer (result_row q grp)) (joined_groups q db)
               = map (\<lambda>(e, grp). Inr (e, sum_is_updated q (from_tables q) grp))
                   (zip elements (joined_groups q db))
           \<and> out = map fst (filter (\<lambda>(e, grp). 0 < sum_is_updated q (from_tables q) grp)
                                (zip elements (joined_groups q db)))"
proof -
  from ret q have "collect_filesets producer (map (result_row q) (joined_groups q db)) [] = Inr out"
    by (auto simp: query_filesets_def sql_select_def result_row_def [abs_def] split: if_splits)
  from collect_filesets_filter [OF this resolve_row_is_updated [OF q]]
  show ?thesis by simp
qed

lemma resolve_fields_other:
  assumes "resolve_fields producer result items acc = Inr element"
    and "field_name \<notin> fst ` set items"
  shows "map_of element field_name = map_of acc field_name"
  using assms
proof (induction items arbitrary: acc)
  case Nil
  then show ?case by simp
next
  case (Cons item items)
  obtain name field where item: "item = (name, field)" by (cases item)
  from Cons.prems(2) item have ne: "name \<noteq> field_name" and notin: "field_name \<notin> fst ` set items"
    by auto
  from Cons.prems(1) item obtain x where
    "resolve_fields producer result items (AList.update name x acc) = Inr element"
    by (auto split: if_splits option.splits cell.splits pattern.splits)
  from Cons.IH [OF this notin] ne show ?case by (simp add: update_conv')
qed

lemma resolve_fields_list:
  assumes "resolve_fields producer result items acc = Inr element"
    and "distinct (map fst items)"
    and "(field_name, ListPattern ps) \<in> set items" and "ps \<noteq> []"
  shows "\<exists>v. row_cell result (''field_'' @ get_field_id producer field_name) = Some (Text v)
           \<and> map_of element field_name = Some (ListValue (sort (parse_comma_escape v)))"
  using assms
proof (induction items arbitrary: acc)
  case Nil
  then show ?case by simp
next
  case (Cons item items)
  obtain name field where item: "item = (name, field)" by (cases item)
  show ?case
  proof (cases "item = (field_name, ListPattern ps)")
    case True
    with item have [simp]: "name = field_name" "field = ListPattern ps" by auto
    from Cons.prems(2) item have notin: "field_name \<notin> fst ` set items" by auto
    from Cons.prems(1,4) item obtain v where
      v: "row_cell result (''field_'' @ get_field_id producer field_name) = Some (Text v)"
      and rest: "resolve_fields producer result items
                   (AList.update field_name (ListValue (sort (parse_comma_escape v))) acc) = Inr element"
      by (auto split: option.splits cell.splits)
    from resolve_fields_other [OF rest notin] v show ?thesis by (simp add: update_conv')
  next
    case False
    with Cons.prems(3) have mem: "(field_name, ListPattern ps) \<in> set items" by auto
    from Cons.prems(2) have dist: "distinct (map fst items)" by simp
    from Cons.prems(1) item obtain x where
      "resolve_fields producer result items (AList.update name x acc) = Inr element"
      by (auto split: if_splits option.splits cell.splits pattern.splits)
    from Cons.IH [OF this dist mem Cons.prems(4)] show ?thesis .
  qed
qed

lemma collect_filesets_member:
  assumes "collect_filesets producer result acc = Inr out" and "x \<in> set out"
  shows "x \<in> set acc \<or> (\<exists>r \<in> set result. \<exists>n. resolve_row producer r = Inr (x, n))"
  using assms
proof (induction result arbitrary: acc)
  case Nil
  then show ?case by simp
next
  case (Cons r result)
  from Cons.prems(1) obtain e n where res: "resolve_row producer r = Inr (e, n)"
    and rest: "collect_filesets producer result (if n > 0 then acc @ [e] else acc) = Inr out"
    by (auto split: sum.splits prod.splits)
  from Cons.IH [OF rest Cons.prems(2)] res show ?case by (auto split: if_splits)
qed

text \<open>
  The cell that the cursor row of a group holds under the alias of a list field is the
  aggregate of the field's table, when the active fields have distinct identifiers.
\<close>

lemma field_column_name:
  "fst (column_value q grp (field_column producer producer_index item))
     = ''field_'' @ get_field_id producer (fst item)"
  by (cases item) (auto simp: field_column_def column_value_def split: pattern.splits)

lemma result_row_field_cell:
  assumes q: "new_filesets_querystring producer producer_index = Inr q"
    and dist: "distinct (map (\<lambda>item. get_field_id producer (fst item)) (active_fields producer))"
    and mem: "(field_name, ListPattern ps) \<in> set (active_fields producer)"
  shows "row_cell (result_row q grp) (''field_'' @ get_field_id producer field_name)
           = Some (Text (escaped_aggregate q (field_table producer producer_index field_name) grp))"
proof -
  let ?name = "''field_'' @ get_field_id producer field_name"
  let ?cv = "column_value q grp"
  let ?fcols = "map (field_column producer producer_index) (active_fields producer)"
  define gcols where "gcols = concat (map (\<lambda>(match_group_name, group_tables).
                          case group_tables of
                            [] \<Rightarrow> []
                          | first_table # others \<Rightarrow>
                              [GroupColumn first_table (get_match_group_column_name producer match_group_name)])
                         (field_groups_of producer producer_index))"
  from q have cols: "select_columns q = ?fcols @ gcols @ [SumIsUpdated (from_tables q)]"
    by (auto simp: new_filesets_querystring_def Let_def gcols_def split: if_splits)
  have g: "\<exists>t g. c = GroupColumn t (get_match_group_column_name producer g)" if "c \<in> set gcols" for c
    using that unfolding gcols_def by (auto split: list.splits)
  have sum_name: "?cv (SumIsUpdated (from_tables q))
      = (''is_updated'', Integer (sum_is_updated q (from_tables q) grp))"
    by (simp add: column_value_def)
  have "?name \<notin> fst ` set (map ?cv gcols)"
  proof
    assume "?name \<in> fst ` set (map ?cv gcols)"
    then obtain c where "c \<in> set gcols" "fst (?cv c) = ?name" by auto
    with g [of c] obtain t gn where "fst (?cv (GroupColumn t (get_match_group_column_name producer gn))) = ?name"
      by auto
    then show False by (simp add: column_value_def get_match_group_column_name_def)
  qed
  then have not_group: "map_of (rev (map ?cv gcols)) ?name = None"
    by (simp add: map_of_eq_None_iff)
  have names: "map fst (map ?cv ?fcols)
      = map (\<lambda>item. ''field_'' @ get_field_id producer (fst item)) (active_fields producer)"
    by (simp only: map_map comp_def field_column_name)
  have "distinct (map (\<lambda>item. ''field_'' @ get_field_id producer (fst item)) (active_fields producer))"
    using dist by (simp add: distinct_map inj_on_def comp_def)
  then have d: "distinct (map fst (map ?cv ?fcols))" by (simp only: names)
  then have d': "distinct (map fst (rev (map ?cv ?fcols)))" by (simp add: rev_map [symmetric])
  have "?cv (field_column producer producer_index (field_name, ListPattern ps))
      = (?name, Text (escaped_aggregate q (field_table producer producer_index field_name) grp))"
    by (simp add: field_column_def column_value_def)
  with mem have "(?name, Text (escaped_aggregate q (field_table producer producer_index field_name) grp))
      \<in> set (rev (map ?cv ?fcols))" by force
  with d' have "map_of (rev (map ?cv ?fcols)) ?name
      = Some (Text (escaped_aggregate q (field_table producer producer_index field_name) grp))"
    by (simp only: map_of_eq_Some_iff)
  with not_group cols show ?thesis
    by (simp add: row_cell_def result_row_def map_add_def sum_name)
qed

text \<open>
  C6. A row that \<open>insert_new_file\<close> adds to a field table has \<open>is_updated = 1\<close>. When a pass
  of \<open>build_new_creators\<close> returns, every row of every table has \<open>is_updated = 0\<close>
  (in a consistent state, for producers whose regex fields are declared fields). And
  \<open>query_filesets\<close> resolves every group of the join to a fileset whose \<open>is_updated\<close> is
  the sum over the rows of the group, and returns the filesets of exactly the groups whose
  sum is greater than 0, in the order of the groups.
\<close>

theorem is_updated_flag_life_cycle:
  "(\<forall>(producer :: 'fs producer) producer_index field_name fname groups db db'.
      insert_new_file producer producer_index field_name fname groups db = Inr db' \<longrightarrow>
      (\<exists>t r. db (field_table producer producer_index field_name) = Some t
           \<and> filename r = fname \<and> is_updated r = 1
           \<and> db' = db(field_table producer producer_index field_name \<mapsto> t\<lparr>rows := rows t @ [r]\<rparr>)))
 \<and> (\<forall>(s :: 'fs scheduler) files s'.
      graph_ok s \<longrightarrow> db_ok s \<longrightarrow> fields_declared (producer_list s) \<longrightarrow>
      build_new_creators files s = (None, s') \<longrightarrow>
      (\<forall>table_name t r. filecache s' table_name = Some t \<longrightarrow> r \<in> set (rows t) \<longrightarrow>
         is_updated r = 0))
 \<and> (\<forall>(producer :: 'fs producer) producer_index db q out.
      new_filesets_querystring producer producer_index = Inr q \<longrightarrow>
      query_filesets producer producer_index db = Inr out \<longrightarrow>
      (\<exists>elements. length elements = length (joined_groups q db)
           \<and> map (\<lambda>grp. resolve_row producer (result_row q grp)) (joined_groups q db)
               = map (\<lambda>(e, grp). Inr (e, sum_is_updated q (from_tables q) grp))
                   (zip elements (joined_groups q db))
           \<and> out = map fst (filter (\<lambda>(e, grp). 0 < sum_is_updated q (from_tables q) grp)
                                (zip elements (joined_groups q db)))))"
proof (intro conjI impI allI)
  fix producer :: "'fs producer" and producer_index field_name fname groups db db'
  assume "insert_new_file producer producer_index field_name fname groups db = Inr db'"
  then show "\<exists>t r. db (field_table producer producer_index field_name) = Some t
           \<and> filename r = fname \<and> is_updated r = 1
           \<and> db' = db(field_table producer producer_index field_name \<mapsto> t\<lparr>rows := rows t @ [r]\<rparr>)"
    unfolding insert_new_file_def by (rule sql_insert_rows)
next
  fix s :: "'fs scheduler" and files s' table_name t r
  assume "graph_ok s" "db_ok s" "fields_declared (producer_list s)"
    "build_new_creators files s = (None, s')"
    "filecache s' table_name = Some t" "r \<in> set (rows t)"
  then show "is_updated r = 0" by (rule build_new_creators_marks_old)
next
  fix producer :: "'fs producer" and producer_index db q out
  assume "new_filesets_querystring producer producer_index = Inr q"
    "query_filesets producer producer_index db = Inr out"
  then show "\<exists>elements. length elements = length (joined_groups q db)
           \<and> map (\<lambda>grp. resolve_row producer (result_row q grp)) (joined_groups q db)
               = map (\<lambda>(e, grp). Inr (e, sum_is_updated q (from_tables q) grp))
                   (zip elements (joined_groups q db))
           \<and> out = map fst (filter (\<lambda>(e, grp). 0 < sum_is_updated q (from_tables q) grp)
                                (zip elements (joined_groups q db)))"
    by (rule query_filesets_yields_updated)
qed

lemma ex_sched_ok: "graph_ok (ex_sched 6) \<and> db_ok (ex_sched 6)"
  using reachable_invariants [OF ex_world_reachable] by (simp add: ex_world_def)

lemma c_query:
  "query_filesets c_producer 0 c_filecache =
     Inr [([(''srcs'', ListValue [''src/X/a.c'', ''src/X/b.c'']), (''hdr'', PathValue ''inc/X.h'')],
           [(''mod'', Some ''X'')])]"
  by (simp add: match_store_defs query_defs example_defs c_defs)

theorem is_updated_flag_life_cycle_witness:
  "(\<exists>db'. insert_new_file (md_producer 6) 0 ''src'' ''b.md'' [(''name'', Some ''b'')] ex_filecache = Inr db'
       \<and> map is_updated (table_rows db' ''producer0_fieldsrc_matches'') = [0, 1])
 \<and> (\<exists>s'. build_new_creators [''a.md''] (ex_sched 6) = (None, s')
       \<and> map is_updated (table_rows (filecache s') ''producer0_fieldsrc_matches'') = [0])
 \<and> (\<exists>q elements. new_filesets_querystring c_producer 0 = Inr q
       \<and> length elements = length (joined_groups q c_filecache)
       \<and> map fst (filter (\<lambda>(e, grp). 0 < sum_is_updated q (from_tables q) grp)
                     (zip elements (joined_groups q c_filecache)))
          = [([(''srcs'', ListValue [''src/X/a.c'', ''src/X/b.c'']), (''hdr'', PathValue ''inc/X.h'')],
              [(''mod'', Some ''X'')])])"
proof -
  obtain db' where ins: "insert_new_file (md_producer 6) 0 ''src'' ''b.md'' [(''name'', Some ''b'')] ex_filecache = Inr db'"
    and flags: "map is_updated (table_rows db' ''producer0_fieldsrc_matches'') = [0, 1]"
    by (simp add: match_store_defs example_defs example_state_defs table_rows_def)
  obtain s' where build: "build_new_creators [''a.md''] (ex_sched 6) = (None, s')"
    and old: "map is_updated (table_rows (filecache s') ''producer0_fieldsrc_matches'') = [0]"
    by (simp add: match_store_defs query_defs graph_defs scheduler_defs example_defs
        example_state_defs)
  obtain q where q: "new_filesets_querystring c_producer 0 = Inr q"
    by (simp add: match_store_defs query_defs example_defs c_defs)
  have decl: "fields_declared (producer_list (ex_sched 6))"
    by (simp add: fields_declared_def ex_sched_def md_producer_def active_fields_def is_absent_def)
  note cycle = is_updated_flag_life_cycle [where 'fs = "string \<Rightarrow> node option"]
  note inserted = cycle [THEN conjunct1, rule_format]
  note marked = cycle [THEN conjunct2, THEN conjunct1, rule_format]
  note yielded = cycle [THEN conjunct2, THEN conjunct2, rule_format]
  from ex_sched_ok have g: "graph_ok (ex_sched 6)" and d: "db_ok (ex_sched 6)" by simp_all
  note new_row = inserted [OF ins]
  note all_old = marked [OF g d decl build]
  from yielded [OF q c_query]
  obtain elements where e: "length elements = length (joined_groups q c_filecache)"
    "[([(''srcs'', ListValue [''src/X/a.c'', ''src/X/b.c'']), (''hdr'', PathValue ''inc/X.h'')],
              [(''mod'', Some ''X'')])]
      = map fst (filter (\<lambda>(e, grp). 0 < sum_is_updated q (from_tables q) grp)
                     (zip elements (joined_groups q c_filecache)))"
    by auto
  have 1: "\<exists>db'. insert_new_file (md_producer 6) 0 ''src'' ''b.md'' [(''name'', Some ''b'')] ex_filecache = Inr db'
       \<and> map is_updated (table_rows db' ''producer0_fieldsrc_matches'') = [0, 1]"
    using ins flags by (intro exI conjI)
  have 2: "\<exists>s'. build_new_creators [''a.md''] (ex_sched 6) = (None, s')
       \<and> map is_updated (table_rows (filecache s') ''producer0_fieldsrc_matches'') = [0]"
    using build old by (intro exI conjI)
  have 3: "\<exists>q elements. new_filesets_querystring c_producer 0 = Inr q
       \<and> length elements = length (joined_groups q c_filecache)
       \<and> map fst (filter (\<lambda>(e, grp). 0 < sum_is_updated q (from_tables q) grp)
                     (zip elements (joined_groups q c_filecache)))
          = [([(''srcs'', ListValue [''src/X/a.c'', ''src/X/b.c'']), (''hdr'', PathValue ''inc/X.h'')],
              [(''mod'', Some ''X'')])]"
    using q e(1) e(2) [symmetric] by (intro exI conjI)
  from new_row all_old 1 2 3 show ?thesis by (intro conjI)
qed

text \<open>
  C8. For a field declared with a list pattern, the value that \<open>query_filesets\<close> places in
  the resolved input data is the sorted list of what \<open>parse_comma_escape\<close> reads from the
  comma-escaped aggregate of the field's filenames in the group, and it is sorted. (The
  fields of a producer have distinct names and distinct identifiers.)
\<close>

theorem list_field_value_is_sorted_parse:
  assumes ret: "query_filesets producer producer_index db = Inr out"
    and mem: "(new_element, groups) \<in> set out"
    and names: "distinct (map fst (input_path_patterns_dict producer))"
    and ids: "distinct (map (\<lambda>item. get_field_id producer (fst item)) (active_fields producer))"
    and field: "(field_name, ListPattern ps) \<in> set (input_path_patterns_dict producer)"
    and ps: "ps \<noteq> []"
  shows "\<exists>q grp. new_filesets_querystring producer producer_index = Inr q
           \<and> grp \<in> set (joined_groups q db)
           \<and> map_of new_element field_name
               = Some (ListValue (sort (parse_comma_escape
                    (escaped_aggregate q (field_table producer producer_index field_name) grp))))
           \<and> sorted (sort (parse_comma_escape
                    (escaped_aggregate q (field_table producer producer_index field_name) grp)))"
proof -
  from ret obtain q where q: "new_filesets_querystring producer producer_index = Inr q"
    and c: "collect_filesets producer (map (result_row q) (joined_groups q db)) [] = Inr out"
    by (auto simp: query_filesets_def sql_select_def result_row_def [abs_def]
        split: sum.splits if_splits)
  from collect_filesets_member [OF c mem] obtain grp n where grp: "grp \<in> set (joined_groups q db)"
    and res: "resolve_row producer (result_row q grp) = Inr ((new_element, groups), n)"
    by auto
  from res have rf: "resolve_fields producer (result_row q grp) (input_path_patterns_dict producer) []
      = Inr new_element"
    by (auto simp: resolve_row_def split: sum.splits option.splits cell.splits)
  from resolve_fields_list [OF rf names field ps] obtain v where
    v: "row_cell (result_row q grp) (''field_'' @ get_field_id producer field_name) = Some (Text v)"
    and val: "map_of new_element field_name = Some (ListValue (sort (parse_comma_escape v)))"
    by blast
  from field ps have "(field_name, ListPattern ps) \<in> set (active_fields producer)"
    by (simp add: active_fields_def is_absent_def)
  from result_row_field_cell [OF q ids this, of grp] v
  have "v = escaped_aggregate q (field_table producer producer_index field_name) grp" by simp
  with q grp val show ?thesis by auto
qed

theorem list_field_value_is_sorted_parse_witness:
  "query_filesets c_producer 0 c_filecache =
     Inr [([(''srcs'', ListValue [''src/X/a.c'', ''src/X/b.c'']), (''hdr'', PathValue ''inc/X.h'')],
           [(''mod'', Some ''X'')])]
   \<and> (\<exists>q grp. new_filesets_querystring c_producer 0 = Inr q
         \<and> grp \<in> set (joined_groups q c_filecache)
         \<and> sort (parse_comma_escape (escaped_aggregate q ''producer0_fieldsrcs_matches'' grp))
            = [''src/X/a.c'', ''src/X/b.c''])"
proof -
  let ?element = "[(''srcs'', ListValue [''src/X/a.c'', ''src/X/b.c'']), (''hdr'', PathValue ''inc/X.h'')]"
  have mem: "(?element, [(''mod'', Some ''X'')])
      \<in> set [(?element, [(''mod'', Some ''X'')])]" by simp
  have names: "distinct (map fst (input_path_patterns_dict c_producer))"
    by (simp add: c_producer_def)
  have ids: "distinct (map (\<lambda>item. get_field_id c_producer (fst item)) (active_fields c_producer))"
    by (simp add: c_producer_def active_fields_def is_absent_def)
  have field: "(''srcs'', ListPattern [''src/(?P<mod>[a-z]+)/.*[.]c''])
      \<in> set (input_path_patterns_dict c_producer)" by (simp add: c_producer_def)
  from list_field_value_is_sorted_parse [OF c_query mem names ids field]
  obtain q grp where "new_filesets_querystring c_producer 0 = Inr q"
    "grp \<in> set (joined_groups q c_filecache)"
    "map_of ?element ''srcs''
       = Some (ListValue (sort (parse_comma_escape
            (escaped_aggregate q (field_table c_producer 0 ''srcs'') grp))))"
    by auto
  moreover have "field_table c_producer 0 ''srcs'' = ''producer0_fieldsrcs_matches''"
    by (simp add: match_store_defs c_producer_def)
  ultimately show ?thesis using c_query by auto
qed

section \<open>The creator graph after a raise\<close>

lemma delete_output_files_total:
  "distinct files \<Longrightarrow> (\<forall>f \<in> set files. ofm f = Some ci) \<Longrightarrow>
   fst (delete_output_files ci files ofm) = None"
proof (induction files arbitrary: ofm)
  case Nil
  then show ?case by simp
next
  case (Cons f files)
  from Cons.prems have d: "distinct files" and n: "f \<notin> set files" and o: "ofm f = Some ci"
    by auto
  from Cons.prems(2) n have "\<forall>g \<in> set files. (ofm(f := None)) g = Some ci" by auto
  from Cons.IH [of "ofm(f := None)", OF d this] o show ?case by (simp add: fun_upd_def)
qed

lemma delete_input_files_total:
  "distinct files \<Longrightarrow> (\<forall>f \<in> set files. \<exists>cs. ifm f = Some cs \<and> ci \<in> set cs) \<Longrightarrow>
   fst (delete_input_files ci files ifm) = None"
proof (induction files arbitrary: ifm)
  case Nil
  then show ?case by simp
next
  case (Cons f files)
  from Cons.prems obtain cs where cs: "ifm f = Some cs" "ci \<in> set cs" by auto
  from Cons.prems have d: "distinct files" and n: "f \<notin> set files" by auto
  have keep: "\<forall>g \<in> set files. \<exists>cs. (ifm(f := x)) g = Some cs \<and> ci \<in> set cs" for x
    using Cons.prems(2) n by auto
  from Cons.IH [of "ifm(f := None)", OF d keep [of None]]
    Cons.IH [of "ifm(f \<mapsto> removeAll ci cs)", OF d keep [of "Some (removeAll ci cs)"]] cs
  show ?case by (simp add: fun_upd_def)
qed

lemma delete_creator_total:
  assumes g: "graph_ok s" and c: "creator_list s ci = Some c" and d: "duplicate_free c"
  shows "fst (delete_creator ci s) = None"
proof -
  from g c have o: "\<forall>f \<in> set (flat_output_paths c). output_file_maps s f = Some ci"
    and i: "\<forall>f \<in> set (flat_input_paths c). \<exists>cs. input_file_maps s f = Some cs \<and> ci \<in> set cs"
    unfolding graph_ok_def by blast+
  from d have "distinct (flat_output_paths c)" "distinct (flat_input_paths c)"
    by (simp_all add: duplicate_free_def)
  from delete_output_files_total [OF this(1) o] delete_input_files_total [OF this(2) i]
  obtain ofm ifm where
    "delete_output_files ci (flat_output_paths c) (output_file_maps s) = (None, ofm)"
    "delete_input_files ci (flat_input_paths c) (input_file_maps s) = (None, ifm)"
    by (metis prod.collapse)
  with c show ?thesis by (simp add: delete_creator_def)
qed

lemma tidy_filecache [simp]: "tidy producers (s\<lparr>filecache := db\<rparr>) = tidy producers s"
  by (simp add: tidy_def)

lemma delete_creator_tidy:
  assumes t: "tidy producers s" and r: "delete_creator ci s = (e, s')"
  shows "tidy producers s'"
proof (cases "creator_list s ci")
  case None
  with r have "s' = s" by (simp add: delete_creator_def)
  with t show ?thesis by simp
next
  case (Some c)
  from t have "graph_ok s" and df: "\<And>cj d. creator_list s cj = Some d \<Longrightarrow> duplicate_free d"
    unfolding tidy_def by blast+
  from this(1) df [OF Some] have "graph_ok s" "duplicate_free c" .
  from delete_creator_total [OF this(1) Some this(2)] r have r': "delete_creator ci s = (None, s')"
    by simp
  from delete_creator_result [OF r'] have cl: "creator_list s' = (creator_list s)(ci := None)"
    by auto
  from t delete_creator_graph_ok [OF _ r'] delete_creator_frame [OF r'] cl show ?thesis
    by (auto simp: tidy_def split: if_splits)
qed

lemma register_creator_tidy:
  assumes t: "tidy producers s" and fresh: "creator_list s ci = None" and d: "duplicate_free c"
    and r: "register_creator ci c s = (e, s')"
  shows "tidy producers s'"
proof (cases e)
  case None
  with r have r': "register_creator ci c s = (None, s')" by simp
  from register_creator_result [OF r'] have cl: "creator_list s' = (creator_list s)(ci \<mapsto> c)"
    by auto
  from t have g: "graph_ok s" by (simp add: tidy_def)
  from t d register_creator_graph_ok [OF g fresh r'] register_creator_frame [OF r'] cl
  show ?thesis by (auto simp: tidy_def split: if_splits)
next
  case (Some x)
  with r register_creator_error_state have "s' = s" by blast
  with t show ?thesis by simp
qed

lemma make_creator_duplicate_free:
  "paths_duplicate_free producers \<Longrightarrow> producer \<in> set producers \<Longrightarrow>
   duplicate_free (make_creator producer input_data)"
proof -
  assume p: "paths_duplicate_free producers" "producer \<in> set producers"
  obtain ins outs where io: "paths producer (fst input_data) (snd input_data) = (ins, outs)"
    by (cases "paths producer (fst input_data) (snd input_data)")
  from p have "distinct (fst (paths producer (fst input_data) (snd input_data)))"
    "distinct (snd (paths producer (fst input_data) (snd input_data)))"
    unfolding paths_duplicate_free_def by blast+
  with io show ?thesis by (simp add: duplicate_free_def make_creator_def)
qed

lemma build_creator_tidy:
  assumes t: "tidy producers s" and p: "paths_duplicate_free producers"
    and m: "producer \<in> set producers"
    and r: "build_creator producer_index producer input_data s = (e, s')"
  shows "tidy producers s'"
proof -
  let ?ci = "(producer_index, get_hashable_matchgroups (snd input_data))"
  let ?c = "make_creator producer input_data"
  from make_creator_duplicate_free [OF p m] have d: "duplicate_free ?c" .
  show ?thesis
  proof (cases "?ci \<in> dom (creator_list s)")
    case True
    obtain e1 s1 where del: "delete_creator ?ci s = (e1, s1)" by (cases "delete_creator ?ci s")
    from delete_creator_tidy [OF t del] have t1: "tidy producers s1" .
    show ?thesis
    proof (cases e1)
      case None
      with True del r have reg: "register_creator ?ci ?c s1 = (e, s')"
        by (simp add: build_creator_def Let_def)
      from None del delete_creator_result have "creator_list s1 ?ci = None" by fastforce
      from register_creator_tidy [OF t1 this d reg] show ?thesis .
    next
      case (Some x)
      with True del r have "s' = s1" by (simp add: build_creator_def Let_def)
      with t1 show ?thesis by simp
    qed
  next
    case False
    with r have reg: "register_creator ?ci ?c s = (e, s')" by (simp add: build_creator_def Let_def)
    from False have "creator_list s ?ci = None" by auto
    from register_creator_tidy [OF t this d reg] show ?thesis .
  qed
qed

lemma build_creators_tidy:
  assumes "tidy producers s" and p: "paths_duplicate_free producers"
    and m: "producer \<in> set producers"
    and "build_creators producer_index producer input_datas s = (e, s')"
  shows "tidy producers s'"
  using assms(1,4)
proof (induction input_datas arbitrary: s)
  case Nil
  then show ?case by simp
next
  case (Cons input_data rest)
  obtain e1 s1 where b: "build_creator producer_index producer input_data s = (e1, s1)"
    by (cases "build_creator producer_index producer input_data s")
  from build_creator_tidy [OF Cons.prems(1) p m b] have t1: "tidy producers s1" .
  show ?case
  proof (cases e1)
    case None
    with b Cons.prems(2) have "build_creators producer_index producer rest s1 = (e, s')" by simp
    from Cons.IH [OF t1 this] show ?thesis .
  next
    case (Some x)
    with b Cons.prems(2) have "s' = s1" by simp
    with t1 show ?thesis by simp
  qed
qed

lemma build_producers_tidy:
  assumes "tidy producers s" and p: "paths_duplicate_free producers"
    and "snd ` set indexed \<subseteq> set producers"
    and "build_producers indexed s = (e, s')"
  shows "tidy producers s'"
  using assms(1,3,4)
proof (induction indexed arbitrary: s)
  case Nil
  then show ?case by simp
next
  case (Cons ip rest)
  obtain producer_index producer where ip: "ip = (producer_index, producer)" by (cases ip)
  with Cons.prems(2) have m: "producer \<in> set producers" and sub: "snd ` set rest \<subseteq> set producers"
    by auto
  show ?case
  proof (cases "query_filesets producer producer_index (filecache s)")
    case (Inl x)
    with ip Cons.prems(3) have "s' = s" by simp
    with Cons.prems(1) show ?thesis by simp
  next
    case (Inr input_datas)
    obtain e1 s1 where b: "build_creators producer_index producer input_datas s = (e1, s1)"
      by (cases "build_creators producer_index producer input_datas s")
    from build_creators_tidy [OF Cons.prems(1) p m b] have t1: "tidy producers s1" .
    show ?thesis
    proof (cases e1)
      case None
      with ip Inr b Cons.prems(3) have "build_producers rest s1 = (e, s')" by simp
      from Cons.IH [OF t1 sub this] show ?thesis .
    next
      case (Some x)
      with ip Inr b Cons.prems(3) have "s' = s1" by simp
      with t1 show ?thesis by simp
    qed
  qed
qed

lemma delete_creators_tidy:
  assumes "tidy producers s" and "delete_creators indexes s = (e, s')"
  shows "tidy producers s'"
  using assms
proof (induction indexes arbitrary: s)
  case Nil
  then show ?case by simp
next
  case (Cons ci indexes)
  obtain e1 s1 where d: "delete_creator ci s = (e1, s1)" by (cases "delete_creator ci s")
  from delete_creator_tidy [OF Cons.prems(1) d] have t1: "tidy producers s1" .
  show ?case
  proof (cases e1)
    case None
    with d Cons.prems(2) have "delete_creators indexes s1 = (e, s')" by simp
    from Cons.IH [OF t1 this] show ?thesis .
  next
    case (Some x)
    with d Cons.prems(2) have "s' = s1" by simp
    with t1 show ?thesis by simp
  qed
qed

lemma build_new_creators_tidy:
  assumes t: "tidy producers s" and p: "paths_duplicate_free producers"
    and r: "build_new_creators files s = (e, s')"
  shows "tidy producers s'"
proof -
  obtain e1 s1 where 1: "delete_creators_with_input_files files s = (e1, s1)"
    by (cases "delete_creators_with_input_files files s")
  from delete_creators_tidy [OF t 1 [unfolded delete_creators_with_input_files_def]]
  have t1: "tidy producers s1" .
  show ?thesis
  proof (cases e1)
    case (Some x)
    with 1 r have "s' = s1" by (simp add: build_new_creators_def)
    with t1 show ?thesis by simp
  next
    case None
    obtain e2 db where 2: "store_matches (file_matches (producer_list s1) files) (filecache s1) = (e2, db)"
      by (cases "store_matches (file_matches (producer_list s1) files) (filecache s1)")
    show ?thesis
    proof (cases e2)
      case (Some x)
      with None 1 2 r have "s' = s1\<lparr>filecache := db\<rparr>" by (simp add: build_new_creators_def)
      with t1 show ?thesis by simp
    next
      case store: None
      obtain e3 s2 where
        3: "build_producers (enumerate 0 (producer_list s1)) (s1\<lparr>filecache := db\<rparr>) = (e3, s2)"
        by (cases "build_producers (enumerate 0 (producer_list s1)) (s1\<lparr>filecache := db\<rparr>)")
      from t1 have pl: "producer_list s1 = producers" by (simp add: tidy_def)
      have sub: "snd ` set (enumerate 0 (producer_list s1)) \<subseteq> set producers"
        unfolding pl by (auto simp: in_set_enumerate_eq)
      from t1 have "tidy producers (s1\<lparr>filecache := db\<rparr>)" by simp
      from build_producers_tidy [OF this p sub 3] have t2: "tidy producers s2" .
      show ?thesis
      proof (cases e3)
        case (Some x)
        with None store 1 2 3 r have "s' = s2" by (simp add: build_new_creators_def)
        with t2 show ?thesis by simp
      next
        case build: None
        with None store 1 2 3 r obtain db' where "s' = s2\<lparr>filecache := db'\<rparr>"
          by (auto simp: build_new_creators_def split: prod.splits)
        with t2 show ?thesis by simp
      qed
    qed
  qed
qed

lemma delete_files_tidy:
  assumes t: "tidy producers s" and r: "delete_files files s = (e, s')"
  shows "tidy producers s'"
proof -
  obtain e1 s1 where 1: "delete_creators_with_input_files files s = (e1, s1)"
    by (cases "delete_creators_with_input_files files s")
  from delete_creators_tidy [OF t 1 [unfolded delete_creators_with_input_files_def]]
  have t1: "tidy producers s1" .
  show ?thesis
  proof (cases e1)
    case (Some x)
    with 1 r have "s' = s1" by (simp add: delete_files_def)
    with t1 show ?thesis by simp
  next
    case None
    with 1 r obtain db where "s' = s1\<lparr>filecache := db\<rparr>"
      by (auto simp: delete_files_def split: prod.splits)
    with t1 show ?thesis by simp
  qed
qed

lemma process_creator_tidy:
  assumes t: "tidy producers (sched w)" and p: "paths_duplicate_free producers"
    and r: "process_creator os creator_index heap w = Some (e, heap', w')"
  shows "tidy producers (sched w')"
proof (cases "creator_list (sched w) creator_index")
  case None
  with r have "w' = w" by (simp add: process_creator_def)
  with t show ?thesis by simp
next
  case (Some creator)
  show ?thesis
  proof (cases "skips_creator os (disk w) creator")
    case None
    with Some r show ?thesis by (simp add: process_creator_def)
  next
    case skip: (Some b)
    show ?thesis
    proof (cases b)
      case True
      with Some skip r have "w' = w" by (simp add: process_creator_def)
      with t show ?thesis by simp
    next
      case False
      obtain e1 s1 where b: "build_new_creators (flat_output_paths creator) (sched w) = (e1, s1)"
        by (cases "build_new_creators (flat_output_paths creator) (sched w)")
      from build_new_creators_tidy [OF t p b] have t1: "tidy producers s1" .
      from Some skip False b r have "sched w' = s1"
        by (auto simp: process_creator_def split: option.splits)
      with t1 show ?thesis by simp
    qed
  qed
qed

lemma drain_tidy:
  assumes "tidy producers (sched w)" and p: "paths_duplicate_free producers"
    and "drain os fuel heap w = Some (e, w')"
  shows "tidy producers (sched w')"
  using assms(1,3)
proof (induction fuel arbitrary: heap w)
  case 0
  then show ?case by (cases heap) simp_all
next
  case (Suc fuel)
  show ?case
  proof (cases heap)
    case Nil
    with Suc.prems show ?thesis by simp
  next
    case (Cons creator_index rest)
    with Suc.prems(2) obtain e1 heap1 w1 where
      pc: "process_creator os creator_index rest w = Some (e1, heap1, w1)"
      by (auto split: option.splits)
    from process_creator_tidy [OF Suc.prems(1) p pc] have t1: "tidy producers (sched w1)" .
    show ?thesis
    proof (cases e1)
      case None
      with Cons pc Suc.prems(2) have "drain os fuel heap1 w1 = Some (e, w')" by simp
      from Suc.IH [OF t1 this] show ?thesis .
    next
      case (Some x)
      with Cons pc Suc.prems(2) have "w' = w1" by simp
      with t1 show ?thesis by simp
    qed
  qed
qed

lemma add_or_update_files_tidy:
  assumes t: "tidy producers (sched w)" and p: "paths_duplicate_free producers"
    and r: "add_or_update_files os fuel files w = Some (e, w')"
  shows "tidy producers (sched w')"
proof -
  obtain e1 s1 where b: "build_new_creators files (sched w) = (e1, s1)"
    by (cases "build_new_creators files (sched w)")
  from build_new_creators_tidy [OF t p b] have t1: "tidy producers (sched (w\<lparr>sched := s1\<rparr>))"
    by simp
  show ?thesis
  proof (cases e1)
    case None
    with b r have "drain os fuel (push_consumers s1 files []) (w\<lparr>sched := s1\<rparr>) = Some (e, w')"
      by (simp add: add_or_update_files_def process_files_def)
    from drain_tidy [OF t1 p this] show ?thesis .
  next
    case (Some x)
    with b r have "w' = w\<lparr>sched := s1\<rparr>" by (simp add: add_or_update_files_def)
    with t1 show ?thesis by simp
  qed
qed

lemma new_scheduler_tidy:
  assumes p: "paths_duplicate_free producers"
    and r: "new_scheduler os fuel producers initial_filepaths fs = Some (e, w)"
  shows "tidy producers (sched w)"
proof -
  have empty: "tidy producers \<lparr>producer_list = producers, creator_list = Map.empty,
      output_file_maps = Map.empty, input_file_maps = Map.empty, filecache = db\<rparr>" for db
    by (simp add: tidy_def graph_ok_def)
  show ?thesis
  proof (cases "init_producer_cache producers")
    case (Inl x)
    with r have "sched w = \<lparr>producer_list = producers, creator_list = Map.empty,
      output_file_maps = Map.empty, input_file_maps = Map.empty, filecache = Map.empty\<rparr>"
      by (auto simp: new_scheduler_def)
    with empty show ?thesis by simp
  next
    case (Inr db)
    with r have a: "add_or_update_files os fuel initial_filepaths
            \<lparr>sched = \<lparr>producer_list = producers, creator_list = Map.empty,
                       output_file_maps = Map.empty, input_file_maps = Map.empty,
                       filecache = db\<rparr>,
             disk = fs, executed = []\<rparr> = Some (e, w)"
      by (simp add: new_scheduler_def)
    from add_or_update_files_tidy [OF _ p a] empty show ?thesis by simp
  qed
qed

lemma observable_tidy:
  assumes "observable os producers w" and p: "paths_duplicate_free producers"
  shows "tidy producers (sched w)"
  using assms(1)
proof (induction rule: observable.induct)
  case (constructed fuel initial_filepaths fs e w)
  from new_scheduler_tidy [OF p this] show ?case .
next
  case (added_or_updated w fuel files e w')
  from add_or_update_files_tidy [OF added_or_updated.IH p added_or_updated.hyps(2)] show ?case .
next
  case (deleted w files e s')
  from delete_files_tidy [OF deleted.IH deleted.hyps(2)] show ?case by simp
next
  case (disk_changed w fs')
  then show ?case by simp
qed

text \<open>
  C4. In every state that the public operations leave, whether each call returned or
  raised, when no creator lists a path twice among its inputs or twice among its outputs,
  and, without that condition, in every state reached through calls that have all
  returned: the output files of two distinct stored creators are disjoint, each path of
  \<open>output_file_maps\<close> is mapped to one stored creator that lists it, and every input file of
  a stored creator is a key of \<open>input_file_maps\<close> with the creator's identity in its set.
\<close>

theorem observable_outputs_disjoint_inputs_indexed:
  assumes "observable os producers w \<and> paths_duplicate_free producers \<or> reachable os w"
  shows "(\<forall>ci cj c d. creator_list (sched w) ci = Some c \<longrightarrow> creator_list (sched w) cj = Some d \<longrightarrow>
            ci \<noteq> cj \<longrightarrow> set (flat_output_paths c) \<inter> set (flat_output_paths d) = {})
       \<and> (\<forall>file ci. output_file_maps (sched w) file = Some ci \<longrightarrow>
            (\<exists>c. creator_list (sched w) ci = Some c \<and> file \<in> set (flat_output_paths c)))
       \<and> (\<forall>ci c file. creator_list (sched w) ci = Some c \<longrightarrow> file \<in> set (flat_input_paths c) \<longrightarrow>
            (\<exists>consumers. input_file_maps (sched w) file = Some consumers \<and> ci \<in> set consumers))"
proof -
  from assms have g: "graph_ok (sched w)"
  proof
    assume "observable os producers w \<and> paths_duplicate_free producers"
    then have "tidy producers (sched w)" using observable_tidy by blast
    then show ?thesis by (simp add: tidy_def)
  next
    assume "reachable os w"
    from reachable_invariants [OF this] show ?thesis by simp
  qed
  then have
    o1: "\<And>f cj. output_file_maps (sched w) f = Some cj \<Longrightarrow>
           \<exists>c'. creator_list (sched w) cj = Some c' \<and> f \<in> set (flat_output_paths c')"
    and o2: "\<And>cj c' f. creator_list (sched w) cj = Some c' \<Longrightarrow> f \<in> set (flat_output_paths c') \<Longrightarrow>
           output_file_maps (sched w) f = Some cj"
    and i1: "\<And>cj c' f. creator_list (sched w) cj = Some c' \<Longrightarrow> f \<in> set (flat_input_paths c') \<Longrightarrow>
           \<exists>cs. input_file_maps (sched w) f = Some cs \<and> cj \<in> set cs"
    unfolding graph_ok_def by blast+
  have "set (flat_output_paths c) \<inter> set (flat_output_paths d) = {}"
    if "creator_list (sched w) ci = Some c" "creator_list (sched w) cj = Some d" "ci \<noteq> cj"
    for ci cj c d
  proof (rule ccontr)
    assume "set (flat_output_paths c) \<inter> set (flat_output_paths d) \<noteq> {}"
    then obtain f where f: "f \<in> set (flat_output_paths c)" "f \<in> set (flat_output_paths d)" by blast
    from o2 [OF that(1) f(1)] o2 [OF that(2) f(2)] that(3) show False by simp
  qed
  with o1 i1 show ?thesis by blast
qed

text \<open>
  Without that condition the property fails: the creator of \<open>dup_producer\<close> lists \<open>a.md\<close>
  twice, and the second call, in which \<open>delete_creator\<close> raises \<open>KeyError\<close> at the second
  occurrence, leaves a stored creator whose input \<open>a.md\<close> is no key of \<open>input_file_maps\<close>.
\<close>

theorem duplicate_input_leaves_creator_unindexed:
  "new_scheduler ex_os 5 [dup_producer] [''a.md''] ex_disk = Some (None, dup_world)
   \<and> add_or_update_files ex_os 5 [''a.md''] dup_world
       = Some (Some (Failed KeyError), dup_world\<lparr>sched := dup_sched_raised\<rparr>)
   \<and> observable ex_os [dup_producer] (dup_world\<lparr>sched := dup_sched_raised\<rparr>)
   \<and> creator_list dup_sched_raised ex_index = Some dup_creator
   \<and> ''a.md'' \<in> set (flat_input_paths dup_creator)
   \<and> input_file_maps dup_sched_raised ''a.md'' = None"
proof -
  have 1: "new_scheduler ex_os 5 [dup_producer] [''a.md''] ex_disk = Some (None, dup_world)"
    by (simp add: match_store_defs query_defs graph_defs scheduler_defs example_defs
        example_state_defs dup_defs)
  have 2: "add_or_update_files ex_os 5 [''a.md''] dup_world
       = Some (Some (Failed KeyError), dup_world\<lparr>sched := dup_sched_raised\<rparr>)"
    by (simp add: graph_defs scheduler_defs example_defs example_state_defs dup_defs)
  from observable.added_or_updated [OF observable.constructed [OF 1] 2]
  have 3: "observable ex_os [dup_producer] (dup_world\<lparr>sched := dup_sched_raised\<rparr>)" .
  have "creator_list dup_sched_raised ex_index = Some dup_creator"
    "''a.md'' \<in> set (flat_input_paths dup_creator)"
    "input_file_maps dup_sched_raised ''a.md'' = None"
    by (simp_all add: dup_defs)
  with 1 2 3 show ?thesis by simp
qed

lemma page_producer_duplicate_free: "paths_duplicate_free [page_producer]"
  by (auto simp: paths_duplicate_free_def page_producer_def page_outputs_def
      split: option.splits field_value.splits)

lemma page_world_constructed:
  "new_scheduler ex_os 5 [page_producer] [''a.md'', ''index.md''] page_disk = Some (None, page_world)"
  by (simp add: match_store_defs query_defs graph_defs scheduler_defs example_defs
      example_state_defs page_defs page_disk_def page_world_def)

text \<open>
  The scheduler of \<open>page_producer\<close> after \<open>b.txt\<close> has been added to \<open>a.md\<close> and
  \<open>index.md\<close>: the call raises, since \<open>b.txt\<close> is rendered to \<open>out/index.html\<close>, and
  leaves the two creators of before.
\<close>

theorem observable_outputs_disjoint_inputs_indexed_witness:
  "\<exists>w. add_or_update_files ex_os 5 [''b.txt''] page_world
          = Some (Some (DuplicateOutput (page_creator ''index.md'' ''out/index.html'')
                          (page_creator ''b.txt'' ''out/index.html'')), w)
      \<and> observable ex_os [page_producer] w
      \<and> creator_list (sched w) ex_index = Some (page_creator ''a.md'' ''out/a.html'')
      \<and> creator_list (sched w) index_index = Some (page_creator ''index.md'' ''out/index.html'')
      \<and> set (flat_output_paths (page_creator ''a.md'' ''out/a.html''))
          \<inter> set (flat_output_paths (page_creator ''index.md'' ''out/index.html'')) = {}
      \<and> (\<exists>consumers. input_file_maps (sched w) ''index.md'' = Some consumers
            \<and> index_index \<in> set consumers)"
proof -
  obtain w where r: "add_or_update_files ex_os 5 [''b.txt''] page_world
          = Some (Some (DuplicateOutput (page_creator ''index.md'' ''out/index.html'')
                          (page_creator ''b.txt'' ''out/index.html'')), w)"
    and a: "creator_list (sched w) ex_index = Some (page_creator ''a.md'' ''out/a.html'')"
    and i: "creator_list (sched w) index_index = Some (page_creator ''index.md'' ''out/index.html'')"
    by (simp add: match_store_defs query_defs graph_defs scheduler_defs example_defs
        example_state_defs page_defs page_world_def)
  from observable.added_or_updated [OF observable.constructed [OF page_world_constructed] r]
  have o: "observable ex_os [page_producer] w" .
  with page_producer_duplicate_free
  have "observable ex_os [page_producer] w \<and> paths_duplicate_free [page_producer]
          \<or> reachable ex_os w" by simp
  from observable_outputs_disjoint_inputs_indexed [OF this]
  have disjoint: "\<And>ci cj c d. creator_list (sched w) ci = Some c \<Longrightarrow>
            creator_list (sched w) cj = Some d \<Longrightarrow> ci \<noteq> cj \<Longrightarrow>
            set (flat_output_paths c) \<inter> set (flat_output_paths d) = {}"
    and indexed: "\<And>ci c file. creator_list (sched w) ci = Some c \<Longrightarrow>
            file \<in> set (flat_input_paths c) \<Longrightarrow>
            \<exists>consumers. input_file_maps (sched w) file = Some consumers \<and> ci \<in> set consumers"
    by blast+
  have ne: "ex_index \<noteq> index_index" by (simp add: ex_index_def index_index_def)
  have m: "''index.md'' \<in> set (flat_input_paths (page_creator ''index.md'' ''out/index.html''))"
    by (simp add: page_creator_def)
  from r o a i disjoint [OF a i ne] indexed [OF i m] show ?thesis by blast
qed

section \<open>Calling \<open>add_or_update_files\<close> twice\<close>




text \<open>
  When the first action stamps its output with the time 9, every creator is
  mtime-satisfied in the second call and nothing is executed; the state after the second
  call still differs from the state after the first, which has lost the first creator.
\<close>

lemma add_or_update_files_twice_skipped_differs:
  "add_or_update_files ex_os 5 [''a.md'', ''z.src''] (site_world 9) = Some (None, site_world_once 9)
   \<and> add_or_update_files ex_os 5 [''a.md'', ''z.src''] (site_world_once 9)
       = Some (None, (site_world_once 9)\<lparr>sched := site_sched_rebuilt 9\<rparr>)
   \<and> creator_list (sched (site_world_once 9)) ex_index = None
   \<and> creator_list (site_sched_rebuilt 9) ex_index = Some (html_creator 9)"
proof -
  have "add_or_update_files ex_os 5 [''a.md'', ''z.src''] (site_world 9)
      = Some (None, site_world_once 9)"
    by (simp add: match_store_defs query_defs graph_defs scheduler_defs example_defs
        example_state_defs site_defs)
  moreover have "add_or_update_files ex_os 5 [''a.md'', ''z.src''] (site_world_once 9)
       = Some (None, (site_world_once 9)\<lparr>sched := site_sched_rebuilt 9\<rparr>)"
    by (simp add: match_store_defs query_defs graph_defs scheduler_defs example_defs
        example_state_defs site_defs)
  moreover have "creator_list (sched (site_world_once 9)) ex_index = None"
    "creator_list (site_sched_rebuilt 9) ex_index = Some (html_creator 9)"
    by (simp_all add: site_defs ex_index_def)
  ultimately show ?thesis by simp
qed

text \<open>
  With one producer and an exact tie: the action stamps \<open>out/a.html\<close> with the time 5 of
  \<open>a.md\<close>. The call after the construction leaves the scheduler and the disk as they are
  and executes the function a second time.
\<close>

lemma add_or_update_files_twice_tie:
  "new_scheduler ex_os 5 [md_producer 5] [''a.md''] ex_disk = Some (None, ex_world 5)
   \<and> add_or_update_files ex_os 5 [''a.md''] (ex_world 5)
       = Some (None, (ex_world 5)\<lparr>executed := [ex_index, ex_index]\<rparr>)"
  by (simp add: match_store_defs query_defs graph_defs scheduler_defs example_defs
      example_state_defs ex_world_def)


end
